(* ===== verification/Prelude.thy ===== *)
theory Prelude
  imports Complex_Main "HOL-Library.Sublist" "HOL-Library.Multiset" "HOL-Library.List_Lexorder"
    "HOL-Library.Char_ord"
begin

text \<open>
  What every component of the development shares: results (a thrown error or a value), the
  stable \<open>Array.prototype.sort\<close>, property tables of plain objects in the order
  \<open>Object.entries\<close> enumerates them, and the string functions the sources call. The collection
  \<open>js_simps\<close> gathers the equations the component proofs unfold; \<open>obj_simps\<close> the facts on
  property tables.

  Strings are lists of code units below 256 (the type \<open>string\<close>); the property name
  \<open>__proto__\<close> and names inherited from \<open>Object.prototype\<close> are outside the model.
\<close>

named_theorems js_simps "equations of the shared JavaScript operations"
named_theorems obj_simps "facts on property tables"

section \<open>Results\<close>

text \<open>
  A function that may throw returns \<open>Inl\<close> of the error it throws or \<open>Inr\<close> of its value.
  \<open>QueryParseError\<close> carries the path and the message of \<open>query-error.ts\<close>; \<open>JsError\<close> is
  \<open>new Error(message)\<close>.
\<close>

datatype js_error =
    QueryParseError string string
  | JsError string
  | TypeError string

type_synonym 'a result = "js_error + 'a"

definition rbind :: "'a result \<Rightarrow> ('a \<Rightarrow> 'b result) \<Rightarrow> 'b result" where
  "rbind m f = (case m of Inl e \<Rightarrow> Inl e | Inr x \<Rightarrow> f x)"

lemma rbind_simps [simp]: "rbind (Inl e) f = Inl e" "rbind (Inr x) f = f x"
  by (simp_all add: rbind_def)

lemma rbind_cong [fundef_cong]:
  assumes "m = m'" and "\<And>x. m' = Inr x \<Longrightarrow> f x = g x"
  shows "rbind m f = rbind m' g"
  using assms by (cases m') auto

lemma rbind_Inr_iff: "rbind m f = Inr y \<longleftrightarrow> (\<exists>x. m = Inr x \<and> f x = Inr y)"
  by (cases m) auto

lemma rbind_Inl_iff: "rbind m f = Inl e \<longleftrightarrow> m = Inl e \<or> (\<exists>x. m = Inr x \<and> f x = Inl e)"
  by (cases m) auto

text \<open>\<open>xs.map(f)\<close> for an \<open>f\<close> that may throw: the first error in list order escapes.\<close>

fun map_res :: "('a \<Rightarrow> 'b result) \<Rightarrow> 'a list \<Rightarrow> 'b list result" where
  "map_res f [] = Inr []"
| "map_res f (x # xs) = rbind (f x) (\<lambda>y. rbind (map_res f xs) (\<lambda>ys. Inr (y # ys)))"

lemma map_res_cong [fundef_cong]:
  assumes "xs = ys" and "\<And>x. x \<in> set ys \<Longrightarrow> f x = g x"
  shows "map_res f xs = map_res g ys"
proof -
  have "(\<And>x. x \<in> set ys \<Longrightarrow> f x = g x) \<Longrightarrow> map_res f ys = map_res g ys"
    by (induction ys) simp_all
  with assms show ?thesis by simp
qed

lemma map_res_Inr_iff: "map_res f xs = Inr ys \<longleftrightarrow> list_all2 (\<lambda>x y. f x = Inr y) xs ys"
proof (induction xs arbitrary: ys)
  case Nil
  then show ?case by auto
next
  case (Cons x xs)
  then show ?case by (cases ys) (auto simp: rbind_Inr_iff list_all2_Cons1)
qed

lemma map_res_id: "(\<And>x. x \<in> set xs \<Longrightarrow> f x = Inr x) \<Longrightarrow> map_res f xs = Inr xs"
  by (induction xs) auto

lemma map_res_Inr: "map_res (\<lambda>x. Inr (f x)) xs = Inr (map f xs)"
  by (induction xs) auto

lemma map_res_total: "(\<And>x. x \<in> set xs \<Longrightarrow> \<exists>y. f x = Inr y) \<Longrightarrow> \<exists>ys. map_res f xs = Inr ys"
  by (induction xs) (auto simp: rbind_Inr_iff)

lemma map_res_elem: "map_res f xs = Inr ys \<Longrightarrow> y \<in> set ys \<Longrightarrow> \<exists>x \<in> set xs. f x = Inr y"
  by (induction xs arbitrary: ys) (auto simp: rbind_Inr_iff)

lemma map_res_elem_src: "map_res f xs = Inr ys \<Longrightarrow> x \<in> set xs \<Longrightarrow> \<exists>y \<in> set ys. f x = Inr y"
  by (induction xs arbitrary: ys) (auto simp: rbind_Inr_iff)

lemma map_res_names:
  "map_res f xs = Inr ps \<Longrightarrow> (\<And>e y. f e = Inr y \<Longrightarrow> fst y = fst e) \<Longrightarrow> map fst ps = map fst xs"
  by (induction xs arbitrary: ps) (auto simp: rbind_Inr_iff)

lemma map_res_enumerate_elem:
  "map_res f (enumerate n xs) = Inr ys \<Longrightarrow> y \<in> set ys \<Longrightarrow> \<exists>i x. x \<in> set xs \<and> f (i, x) = Inr y"
  by (drule (1) map_res_elem) (metis in_set_enumerate_eq less_diff_conv2 nth_mem old.prod.exhaust prod.sel)

lemma map_res_enumerate_id:
  "(\<And>i x. x \<in> set xs \<Longrightarrow> f (i, x) = Inr x) \<Longrightarrow> map_res f (enumerate n xs) = Inr xs"
  by (induction xs arbitrary: n) auto

text \<open>\<open>if (!ok) throw new Error(message)\<close>, and loops whose body may throw.\<close>

definition guard :: "bool \<Rightarrow> string \<Rightarrow> unit result" where
  "guard ok message = (if ok then Inr () else Inl (JsError message))"

fun fold_res :: "('b \<Rightarrow> 'a \<Rightarrow> 'b result) \<Rightarrow> 'b \<Rightarrow> 'a list \<Rightarrow> 'b result" where
  "fold_res f acc [] = Inr acc"
| "fold_res f acc (x # xs) = rbind (f acc x) (\<lambda>acc'. fold_res f acc' xs)"

fun each_res :: "('a \<Rightarrow> unit result) \<Rightarrow> 'a list \<Rightarrow> unit result" where
  "each_res f [] = Inr ()"
| "each_res f (x # xs) = rbind (f x) (\<lambda>_. each_res f xs)"

lemma fold_res_invariant:
  assumes "fold_res f acc xs = Inr acc'" "P acc" "\<And>x a b. x \<in> set xs \<Longrightarrow> P a \<Longrightarrow> f a x = Inr b \<Longrightarrow> P b"
  shows "P acc'"
  using assms by (induction xs arbitrary: acc) (auto simp: rbind_Inr_iff)

lemma each_res_Inr: "each_res f xs = Inr () \<longleftrightarrow> (\<forall>x \<in> set xs. f x = Inr ())"
  by (induction xs) (auto simp: rbind_Inr_iff)

section \<open>Sorting\<close>

text \<open>
  \<open>Array.prototype.sort\<close> is stable (ECMAScript 2019): insertion keeps an element in front of
  the later ones it compares equal to.
\<close>

fun js_insert :: "('a \<Rightarrow> 'a \<Rightarrow> int) \<Rightarrow> 'a \<Rightarrow> 'a list \<Rightarrow> 'a list" where
  "js_insert cmp x [] = [x]"
| "js_insert cmp x (y # ys) = (if cmp x y \<le> 0 then x # y # ys else y # js_insert cmp x ys)"

fun js_sort :: "('a \<Rightarrow> 'a \<Rightarrow> int) \<Rightarrow> 'a list \<Rightarrow> 'a list" where
  "js_sort cmp [] = []"
| "js_sort cmp (x # xs) = js_insert cmp x (js_sort cmp xs)"

lemma mset_js_insert [simp]: "mset (js_insert cmp x xs) = add_mset x (mset xs)"
  by (induction xs) auto

lemma mset_js_sort [simp]: "mset (js_sort cmp xs) = mset xs"
  by (induction xs) auto

lemma set_js_sort [simp]: "set (js_sort cmp xs) = set xs"
  by (rule mset_eq_setD) simp

lemma length_js_sort [simp]: "length (js_sort cmp xs) = length xs"
  by (rule mset_eq_length) simp

lemma mset_map_js_sort: "mset (map f (js_sort cmp xs)) = mset (map f xs)"
  by simp

lemma distinct_js_sort [simp]: "distinct (js_sort cmp xs) = distinct xs"
  by (rule mset_eq_imp_distinct_iff) simp

lemma distinct_map_js_sort [simp]: "distinct (map f (js_sort cmp xs)) = distinct (map f xs)"
  by (rule mset_eq_imp_distinct_iff) (rule mset_map_js_sort)

lemma js_sort_sorted_id: "sorted_wrt (\<lambda>x y. cmp x y \<le> 0) xs \<Longrightarrow> js_sort cmp xs = xs"
proof (induction xs)
  case Nil
  then show ?case by simp
next
  case (Cons x xs)
  then show ?case by (cases xs) auto
qed

text \<open>The contract of a consistent comparison function: it orders any two values and is transitive.\<close>

locale js_comparator =
  fixes cmp :: "'a \<Rightarrow> 'a \<Rightarrow> int"
  assumes cmp_total: "cmp x y \<le> 0 \<or> cmp y x \<le> 0"
    and cmp_trans: "cmp x y \<le> 0 \<Longrightarrow> cmp y z \<le> 0 \<Longrightarrow> cmp x z \<le> 0"
begin

lemma sorted_js_insert:
  "sorted_wrt (\<lambda>x y. cmp x y \<le> 0) xs \<Longrightarrow> sorted_wrt (\<lambda>x y. cmp x y \<le> 0) (js_insert cmp x xs)"
proof (induction xs)
  case Nil
  then show ?case by simp
next
  case (Cons y ys)
  have mem: "set (js_insert cmp x ys) = insert x (set ys)"
    by (metis mset_js_insert set_mset_add_mset_insert set_mset_mset)
  show ?case
  proof (cases "cmp x y \<le> 0")
    case True
    with Cons.prems show ?thesis by (auto intro: cmp_trans)
  next
    case False
    with cmp_total have "cmp y x \<le> 0" by blast
    with False Cons mem show ?thesis by auto
  qed
qed

lemma sorted_js_sort: "sorted_wrt (\<lambda>x y. cmp x y \<le> 0) (js_sort cmp xs)"
  by (induction xs) (auto intro: sorted_js_insert)

lemma js_sort_idem: "js_sort cmp (js_sort cmp xs) = js_sort cmp xs"
  by (rule js_sort_sorted_id) (rule sorted_js_sort)

lemma filter_js_insert:
  "sorted_wrt (\<lambda>x y. cmp x y \<le> 0) xs \<Longrightarrow>
   filter P (js_insert cmp x xs) = (if P x then js_insert cmp x (filter P xs) else filter P xs)"
proof (induction xs)
  case Nil
  then show ?case by simp
next
  case (Cons y ys)
  show ?case
  proof (cases "cmp x y \<le> 0")
    case True
    have "js_insert cmp x zs = x # zs" if "\<forall>z \<in> set zs. cmp x z \<le> 0" for zs
      using that by (cases zs) auto
    moreover have "\<forall>z \<in> set (filter P (y # ys)). cmp x z \<le> 0"
      using Cons.prems True cmp_trans by auto
    ultimately show ?thesis using True by simp
  next
    case False
    with Cons show ?thesis by auto
  qed
qed

lemma filter_js_sort: "filter P (js_sort cmp xs) = js_sort cmp (filter P xs)"
  by (induction xs) (auto simp: filter_js_insert sorted_js_sort)

lemma js_sort_filter_sorted:
  "sorted_wrt (\<lambda>x y. cmp x y \<le> 0) xs \<Longrightarrow> js_sort cmp (filter P xs) = filter P xs"
  by (rule js_sort_sorted_id) (rule sorted_wrt_filter)

end

section \<open>Property tables\<close>

text \<open>
  A plain object is the list of its own enumerable string-keyed properties in enumeration
  order: array-index names first, in numeric order, then the other names in the order they were
  added. \<open>key_rank\<close> is the numeric value of an array index (at most $2^{32}-2$) and $2^{32}$ for
  any other name, so a table is in enumeration order when the ranks ascend.
\<close>

definition digit_char :: "char \<Rightarrow> bool" where
  "digit_char c \<longleftrightarrow> 48 \<le> (of_char c :: nat) \<and> (of_char c :: nat) \<le> 57"

definition digits_val :: "string \<Rightarrow> nat" where
  "digits_val s = foldl (\<lambda>n c. 10 * n + (of_char c - 48)) 0 s"

definition index_key :: "string \<Rightarrow> nat option" where
  "index_key k =
     (if k \<noteq> [] \<and> list_all digit_char k \<and> (hd k \<noteq> CHR ''0'' \<or> length k = 1) \<and> digits_val k < 2 ^ 32 - 1
      then Some (digits_val k) else None)"

definition key_rank :: "string \<Rightarrow> nat" where
  "key_rank k = (case index_key k of None \<Rightarrow> 2 ^ 32 | Some i \<Rightarrow> i)"

lemma key_rank_le: "key_rank k \<le> 2 ^ 32"
  by (auto simp: key_rank_def index_key_def split: option.splits if_splits)

type_synonym 'v table = "(string \<times> 'v) list"

abbreviation keys :: "'v table \<Rightarrow> string list" where
  "keys es \<equiv> map fst es"

text \<open>\<open>o[k] = v\<close>: replace in place, or add at the place enumeration order gives the name.\<close>

fun obj_put :: "string \<Rightarrow> 'v \<Rightarrow> 'v table \<Rightarrow> 'v table" where
  "obj_put k v [] = [(k, v)]"
| "obj_put k v ((k', v') # es) =
     (if k = k' then (k, v) # es
      else if key_rank k < key_rank k' then (k, v) # (k', v') # es
      else (k', v') # obj_put k v es)"

definition obj_del :: "string \<Rightarrow> 'v table \<Rightarrow> 'v table" where
  "obj_del k es = filter (\<lambda>(k', _). k' \<noteq> k) es"

definition obj_has :: "'v table \<Rightarrow> string \<Rightarrow> bool" where
  "obj_has es k \<longleftrightarrow> map_of es k \<noteq> None"

text \<open>\<open>Object.fromEntries\<close>, and every loop that fills an empty object.\<close>

definition obj_of :: "'v table \<Rightarrow> 'v table" where
  "obj_of es = foldl (\<lambda>acc (k, v). obj_put k v acc) [] es"

text \<open>\<open>{...a, ...b}\<close>.\<close>

definition obj_spread :: "'v table \<Rightarrow> 'v table \<Rightarrow> 'v table" where
  "obj_spread a b = foldl (\<lambda>acc (k, v). obj_put k v acc) a b"

definition table_ok :: "'v table \<Rightarrow> bool" where
  "table_ok es \<longleftrightarrow> distinct (keys es) \<and> sorted (map key_rank (keys es))"

lemma map_of_obj_put [simp, obj_simps]:
  "map_of (obj_put k v es) x = (if x = k then Some v else map_of es x)"
  by (induction k v es rule: obj_put.induct) auto

lemma keys_obj_put [simp, obj_simps]: "set (keys (obj_put k v es)) = insert k (set (keys es))"
  by (induction k v es rule: obj_put.induct) auto

lemma set_obj_put_subset: "set (obj_put k v es) \<subseteq> insert (k, v) (set es)"
  by (induction k v es rule: obj_put.induct) auto

lemma map_of_obj_del [simp, obj_simps]: "map_of (obj_del k es) x = (if x = k then None else map_of es x)"
  by (induction es) (auto simp: obj_del_def)

lemma keys_obj_del [simp, obj_simps]: "set (keys (obj_del k es)) = set (keys es) - {k}"
  by (auto simp: obj_del_def)

lemma obj_has_iff [obj_simps]: "obj_has es k \<longleftrightarrow> k \<in> set (keys es)"
  by (simp add: obj_has_def map_of_eq_None_iff)

lemma table_ok_Nil [simp]: "table_ok []"
  by (simp add: table_ok_def)

lemma table_ok_put:
  assumes "table_ok es"
  shows "table_ok (obj_put k v es)"
  using assms
proof (induction k v es rule: obj_put.induct)
  case (1 k v)
  then show ?case by (simp add: table_ok_def)
next
  case (2 k v k' v' es)
  have tail: "table_ok es" and k': "k' \<notin> set (keys es)"
    and ranks: "\<forall>x \<in> set (keys es). key_rank k' \<le> key_rank x"
    using "2.prems" by (auto simp: table_ok_def)
  consider "k = k'" | "k \<noteq> k'" "key_rank k < key_rank k'" | "k \<noteq> k'" "\<not> key_rank k < key_rank k'" by blast
  then show ?case
  proof cases
    case 1
    with "2.prems" show ?thesis by (simp add: table_ok_def)
  next
    case b: 2
    with ranks have "k \<notin> set (keys es)" by force
    with b "2.prems" ranks show ?thesis by (fastforce simp: table_ok_def)
  next
    case c: 3
    then have ok: "table_ok (obj_put k v es)" using "2.IH" tail by blast
    have notin: "k' \<notin> set (keys (obj_put k v es))" using c k' by (simp only: keys_obj_put) simp
    have "\<forall>x \<in> set (keys (obj_put k v es)). key_rank k' \<le> key_rank x"
      using c ranks by (simp only: keys_obj_put) auto
    with c ok notin show ?thesis by (auto simp: table_ok_def)
  qed
qed

lemma table_ok_filter: "table_ok es \<Longrightarrow> table_ok (filter P es)"
  by (auto simp: table_ok_def distinct_map_filter intro: sorted_filter)

lemma table_ok_del: "table_ok es \<Longrightarrow> table_ok (obj_del k es)"
  by (simp add: obj_del_def table_ok_filter)

lemma table_ok_fold_put: "table_ok acc \<Longrightarrow> table_ok (foldl (\<lambda>acc (k, v). obj_put k v acc) acc es)"
  by (induction es arbitrary: acc) (auto intro: table_ok_put)

lemma table_ok_obj_of [simp]: "table_ok (obj_of es)"
  by (simp add: obj_of_def table_ok_fold_put)

lemma obj_put_last:
  "k \<notin> set (keys es) \<Longrightarrow> \<forall>x \<in> set (keys es). key_rank x \<le> key_rank k \<Longrightarrow> obj_put k v es = es @ [(k, v)]"
  by (induction es) auto

lemma fold_put_append:
  "table_ok (acc @ es) \<Longrightarrow> foldl (\<lambda>acc (k, v). obj_put k v acc) acc es = acc @ es"
proof (induction es arbitrary: acc)
  case Nil
  then show ?case by simp
next
  case (Cons e es)
  obtain k v where e: "e = (k, v)" by (cases e)
  have "obj_put k v acc = acc @ [(k, v)]"
    using Cons.prems by (intro obj_put_last) (auto simp: e table_ok_def sorted_append)
  with Cons.IH[of "acc @ [e]"] Cons.prems show ?case by (simp add: e)
qed

lemma obj_of_id: "table_ok es \<Longrightarrow> obj_of es = es"
  by (simp add: obj_of_def fold_put_append)

lemma obj_put_same: "table_ok es \<Longrightarrow> map_of es k = Some v \<Longrightarrow> obj_put k v es = es"
proof (induction es)
  case (Cons e es)
  obtain k' v' where e: "e = (k', v')" by (cases e)
  have "k \<noteq> k' \<Longrightarrow> key_rank k' \<le> key_rank k"
    using Cons.prems by (force simp: e table_ok_def dest: map_of_SomeD)
  with Cons show ?case by (auto simp: e table_ok_def)
qed simp

lemma map_of_fold_put:
  "map_of (foldl (\<lambda>acc (k, v). obj_put k v acc) acc es) x =
     (case map_of (rev es) x of None \<Rightarrow> map_of acc x | Some v \<Rightarrow> Some v)"
  by (induction es arbitrary: acc) (auto split: option.splits simp: map_add_def)

lemma map_of_obj_of: "distinct (keys es) \<Longrightarrow> map_of (obj_of es) = map_of es"
proof
  fix x
  assume d: "distinct (keys es)"
  then have "map_of (rev es) x = map_of es x"
    using map_of_inject_set[of "rev es" es] by (simp flip: rev_map)
  then show "map_of (obj_of es) x = map_of es x"
    by (simp add: obj_of_def map_of_fold_put split: option.splits)
qed

lemma keys_obj_of [simp]: "set (keys (obj_of es)) = set (keys es)"
proof -
  have "set (keys (foldl (\<lambda>acc (k, v). obj_put k v acc) acc es)) = set (keys acc) \<union> set (keys es)" for acc :: "'a table"
    by (induction es arbitrary: acc) (simp_all only: foldl_Cons foldl_Nil split_beta keys_obj_put, auto)
  from this[of "[]"] show ?thesis by (simp add: obj_of_def)
qed

lemma set_obj_of_subset: "set (obj_of es) \<subseteq> set es"
proof -
  have "set (foldl (\<lambda>acc (k, v). obj_put k v acc) acc es) \<subseteq> set acc \<union> set es" for acc :: "'a table"
  proof (induction es arbitrary: acc)
    case (Cons e es)
    obtain k v where e: "e = (k, v)" by (cases e)
    show ?case using Cons[of "obj_put k v acc"] set_obj_put_subset[of k v acc] by (auto simp: e)
  qed simp
  from this[of "[]"] show ?thesis by (simp add: obj_of_def)
qed

lemma set_obj_of: "distinct (keys es) \<Longrightarrow> set (obj_of es) = set es"
proof -
  assume d: "distinct (keys es)"
  have "distinct (keys (obj_of es))" using table_ok_obj_of by (auto simp: table_ok_def)
  moreover have "map_of (obj_of es) = map_of es" using d by (rule map_of_obj_of)
  ultimately have "(k, v) \<in> set (obj_of es) \<longleftrightarrow> (k, v) \<in> set es" for k v
    using d by (metis map_of_eq_Some_iff)
  then show ?thesis by auto
qed

text \<open>
  Filling an empty object from entries with distinct names sorts them stably by rank, and
  sorting commutes with filtering; together they give the fixed point of canonical tables.
\<close>

lemma obj_put_insort:
  "k \<notin> set (keys es) \<Longrightarrow> sorted (map (\<lambda>e. key_rank (fst e)) es) \<Longrightarrow>
   obj_put k v es = filter (\<lambda>e. key_rank (fst e) \<le> key_rank k) es @ (k, v) # filter (\<lambda>e. \<not> key_rank (fst e) \<le> key_rank k) es"
proof (induction k v es rule: obj_put.induct)
  case (2 k v k' v' es)
  show ?case
  proof (cases "key_rank k < key_rank k'")
    case True
    with "2.prems" have "filter (\<lambda>e. key_rank (fst e) \<le> key_rank k) es = []"
      and "filter (\<lambda>e. \<not> key_rank (fst e) \<le> key_rank k) es = es"
      by (auto simp: filter_empty_conv filter_id_conv)
    with True "2.prems" show ?thesis by auto
  next
    case False
    with 2 show ?thesis by auto
  qed
qed simp

lemma filter_rank_split:
  fixes f :: "'a \<Rightarrow> nat"
  shows "filter (\<lambda>y. r = f y) (filter (\<lambda>e. f e \<le> b) xs) = (if r \<le> b then filter (\<lambda>y. r = f y) xs else [])"
    and "filter (\<lambda>y. r = f y) (filter (\<lambda>e. \<not> f e \<le> b) xs) = (if r \<le> b then [] else filter (\<lambda>y. r = f y) xs)"
  by (induction xs) auto

lemma obj_of_sort_key: "distinct (keys es) \<Longrightarrow> obj_of es = sort_key (\<lambda>e. key_rank (fst e)) es"
proof (induction es rule: rev_induct)
  case (snoc e es)
  obtain k v where e: "e = (k, v)" by (cases e)
  have IH: "obj_of es = sort_key (\<lambda>e. key_rank (fst e)) es" using snoc by simp
  have step: "obj_of (es @ [e]) = obj_put k v (sort_key (\<lambda>e. key_rank (fst e)) es)"
    using IH by (simp add: obj_of_def e)
  show ?case
    unfolding step
  proof (rule sym, rule properties_for_sort_key)
    let ?s = "sort_key (\<lambda>e. key_rank (fst e)) es"
    have put: "obj_put k v ?s = filter (\<lambda>e. key_rank (fst e) \<le> key_rank k) ?s @ (k, v) # filter (\<lambda>e. \<not> key_rank (fst e) \<le> key_rank k) ?s"
      using snoc.prems by (intro obj_put_insort) (auto simp: e)
    show "mset (obj_put k v ?s) = mset (es @ [e])"
      unfolding put by (simp add: e)
    show "sorted (map (\<lambda>e. key_rank (fst e)) (obj_put k v ?s))"
      using table_ok_put[OF table_ok_obj_of, of k v es] by (simp add: table_ok_def IH comp_def)
    fix x
    show "filter (\<lambda>y. key_rank (fst x) = key_rank (fst y)) (obj_put k v ?s) = filter (\<lambda>y. key_rank (fst x) = key_rank (fst y)) (es @ [e])"
    proof -
      let ?f = "filter (\<lambda>y. key_rank (fst x) = key_rank (fst y))"
      have "?f ?s = ?f es" using sort_key_stable[of "\<lambda>e. key_rank (fst e)" "key_rank (fst x)" es] by (simp add: eq_commute)
      moreover have "?f (obj_put k v ?s) = ?f ?s @ ?f [e]"
        unfolding put filter_append filter.simps(2) filter_rank_split by (simp add: e)
      ultimately show ?thesis by simp
    qed
  qed
qed (simp add: obj_of_def)

lemma map_of_spread:
  "distinct (keys b) \<Longrightarrow>
   map_of (obj_spread a b) k = (case map_of b k of None \<Rightarrow> map_of a k | Some v \<Rightarrow> Some v)"
  using map_of_inject_set[of "rev b" b] by (simp add: obj_spread_def map_of_fold_put flip: rev_map)

section \<open>Strings\<close>

text \<open>\<open>String(n)\<close> for a natural number.\<close>

fun nat_str :: "nat \<Rightarrow> string" where
  "nat_str n = (if n < 10 then [char_of (48 + n)] else nat_str (n div 10) @ [char_of (48 + n mod 10)])"

declare nat_str.simps [simp del]

text \<open>\<open>toLowerCase\<close> and \<open>trim\<close> over the first 256 code units.\<close>

definition lower_char :: "char \<Rightarrow> char" where
  "lower_char c =
     (let n = (of_char c :: nat)
      in if (65 \<le> n \<and> n \<le> 90) \<or> (192 \<le> n \<and> n \<le> 222 \<and> n \<noteq> 215) then char_of (n + 32) else c)"

definition toLowerCase :: "string \<Rightarrow> string" where
  "toLowerCase s = map lower_char s"

definition js_space :: "char \<Rightarrow> bool" where
  "js_space c \<longleftrightarrow> (of_char c :: nat) \<in> {9, 10, 11, 12, 13, 32, 160}"

definition js_trim :: "string \<Rightarrow> string" where
  "js_trim s = rev (dropWhile js_space (rev (dropWhile js_space s)))"

text \<open>\<open>s.startsWith(p)\<close>, \<open>s.endsWith(p)\<close>, \<open>s.includes(p)\<close>, \<open>s.split(c)\<close>, \<open>xs.join(c)\<close>.\<close>

definition startsWith :: "string \<Rightarrow> string \<Rightarrow> bool" where
  "startsWith s p \<longleftrightarrow> take (length p) s = p"

definition endsWith :: "string \<Rightarrow> string \<Rightarrow> bool" where
  "endsWith s p \<longleftrightarrow> startsWith (rev s) (rev p)"

fun js_includes :: "string \<Rightarrow> string \<Rightarrow> bool" where
  "js_includes [] p = (p = [])"
| "js_includes (c # s) p = (startsWith (c # s) p \<or> js_includes s p)"

fun js_split :: "char \<Rightarrow> string \<Rightarrow> string list" where
  "js_split d [] = [[]]"
| "js_split d (c # s) =
     (if c = d then [] # js_split d s
      else (case js_split d s of [] \<Rightarrow> [[c]] | w # ws \<Rightarrow> (c # w) # ws))"

fun js_join :: "string \<Rightarrow> string list \<Rightarrow> string" where
  "js_join sep [] = []"
| "js_join sep [w] = w"
| "js_join sep (w # ws) = w @ sep @ js_join sep ws"

lemma startsWith_iff_prefix: "startsWith s p \<longleftrightarrow> prefix p s"
  by (auto simp: startsWith_def prefix_def) (metis append_take_drop_id)

lemma js_split_nonempty [simp]: "js_split d s \<noteq> []"
  by (induction s) (auto split: list.splits)

lemma js_join_split: "js_join [d] (js_split d s) = s"
proof (induction s)
  case (Cons c s)
  obtain w ws where w: "js_split d s = w # ws" using js_split_nonempty[of d s] by (cases "js_split d s") auto
  with Cons show ?case by (cases ws) auto
qed simp

section \<open>Optional values\<close>

text \<open>\<open>x ?? d\<close>, and the strings that a truthiness test keeps.\<close>

definition or_else :: "'a option \<Rightarrow> 'a \<Rightarrow> 'a" where
  "or_else o' d = (case o' of Some x \<Rightarrow> x | None \<Rightarrow> d)"

definition truthy_string :: "string option \<Rightarrow> string option" where
  "truthy_string o' = (case o' of Some s \<Rightarrow> if s = [] then None else Some s | None \<Rightarrow> None)"

lemma subseq_distinct: "subseq xs ys \<Longrightarrow> distinct ys \<Longrightarrow> distinct xs"
  by (auto simp: subseq_conv_nths intro: distinct_nthsI)

end
