(* ===== verification/Calendar.thy ===== *)
theory Calendar
  imports Prelude
begin

text \<open>
  The calendar arithmetic of \<open>Date\<close> in UTC: a time value is a count of milliseconds since
  1970-01-01T00:00:00Z, and its fields and ISO text are read from the proleptic Gregorian
  calendar. \<open>iso_dateParse\<close> reads the date and date-time forms of the language standard; hosts may
  accept more, so parsing is a field of the host.
\<close>

section \<open>Time values\<close>

definition ms_per_day :: int where "ms_per_day = 86400000"

definition days_from_civil :: "int \<Rightarrow> int \<Rightarrow> int \<Rightarrow> int" where
  "days_from_civil y m d =
     (let y' = (if m \<le> 2 then y - 1 else y); era = y' div 400; yoe = y' mod 400;
          doy = (153 * (if m > 2 then m - 3 else m + 9) + 2) div 5 + d - 1;
          doe = yoe * 365 + yoe div 4 - yoe div 100 + doy
      in era * 146097 + doe - 719468)"

definition civil_from_days :: "int \<Rightarrow> int \<times> int \<times> int" where
  "civil_from_days z =
     (let z' = z + 719468; era = z' div 146097; doe = z' mod 146097;
          yoe = (doe - doe div 1460 + doe div 36524 - doe div 146096) div 365;
          doy = doe - (365 * yoe + yoe div 4 - yoe div 100);
          mp = (5 * doy + 2) div 153;
          d = doy - (153 * mp + 2) div 5 + 1;
          m = (if mp < 10 then mp + 3 else mp - 9);
          y = yoe + era * 400
      in ((if m \<le> 2 then y + 1 else y), m, d))"

definition utc_day :: "int \<Rightarrow> int" where "utc_day t = t div ms_per_day"
definition getUTCFullYear :: "int \<Rightarrow> int" where "getUTCFullYear t = fst (civil_from_days (utc_day t))"
definition getUTCMonth :: "int \<Rightarrow> int" where "getUTCMonth t = fst (snd (civil_from_days (utc_day t))) - 1"
definition getUTCDate :: "int \<Rightarrow> int" where "getUTCDate t = snd (snd (civil_from_days (utc_day t)))"
definition getUTCDay :: "int \<Rightarrow> int" where "getUTCDay t = (utc_day t + 4) mod 7"
definition getUTCHours :: "int \<Rightarrow> int" where "getUTCHours t = t mod ms_per_day div 3600000"
definition getUTCMinutes :: "int \<Rightarrow> int" where "getUTCMinutes t = t mod 3600000 div 60000"
definition getUTCSeconds :: "int \<Rightarrow> int" where "getUTCSeconds t = t mod 60000 div 1000"
definition getUTCMilliseconds :: "int \<Rightarrow> int" where "getUTCMilliseconds t = t mod 1000"

text \<open>
  \<open>Date.UTC(y, m - 1, d)\<close>, which reads the years 0 to 99 as 1900 to 1999, and
  \<open>d.setUTCDate(d.getUTCDate() + n)\<close>, a move by whole days.
\<close>

definition date_UTC :: "int \<Rightarrow> int \<Rightarrow> int \<Rightarrow> int" where
  "date_UTC y m d = days_from_civil (if 0 \<le> y \<and> y \<le> 99 then 1900 + y else y) m d * ms_per_day"

definition add_days :: "int \<Rightarrow> int \<Rightarrow> int" where "add_days t n = t + n * ms_per_day"

definition padStart :: "nat \<Rightarrow> char \<Rightarrow> string \<Rightarrow> string" where
  "padStart n c s = replicate (n - length s) c @ s"

definition padEnd :: "nat \<Rightarrow> char \<Rightarrow> string \<Rightarrow> string" where
  "padEnd n c s = s @ replicate (n - length s) c"

definition pad_num :: "nat \<Rightarrow> int \<Rightarrow> string" where
  "pad_num n i = padStart n (CHR ''0'') (nat_str (nat i))"

definition iso_year :: "int \<Rightarrow> string" where
  "iso_year y = (if 0 \<le> y \<and> y \<le> 9999 then pad_num 4 y
                 else if y < 0 then ''-'' @ pad_num 6 (- y) else ''+'' @ pad_num 6 y)"

definition toISOString :: "int \<Rightarrow> string" where
  "toISOString t =
     iso_year (getUTCFullYear t) @ ''-'' @ pad_num 2 (getUTCMonth t + 1) @ ''-'' @ pad_num 2 (getUTCDate t) @ ''T'' @
     pad_num 2 (getUTCHours t) @ '':'' @ pad_num 2 (getUTCMinutes t) @ '':'' @ pad_num 2 (getUTCSeconds t) @ ''.'' @
     pad_num 3 (getUTCMilliseconds t) @ ''Z''"

section \<open>Reading digits\<close>

text \<open>\<open>(\d{n})\<close> at the start of a text: the digits and the rest.\<close>

definition take_digits :: "nat \<Rightarrow> string \<Rightarrow> (string \<times> string) option" where
  "take_digits n s =
     (if length s \<ge> n \<and> list_all digit_char (take n s) then Some (take n s, drop n s) else None)"

definition span_digits :: "string \<Rightarrow> string \<times> string" where
  "span_digits s = (takeWhile digit_char s, dropWhile digit_char s)"

definition expect :: "char \<Rightarrow> string \<Rightarrow> string option" where
  "expect c s = (case s of [] \<Rightarrow> None | x # r \<Rightarrow> if x = c then Some r else None)"

text \<open>An offset \<open>Z\<close>, \<open>+hh:mm\<close> or \<open>-hh:mm\<close> up to the end, in minutes.\<close>

definition iso_offset :: "string \<Rightarrow> int option" where
  "iso_offset s =
     (case s of
        [] \<Rightarrow> None
      | c # r \<Rightarrow>
          if s = ''Z'' then Some 0
          else if c = CHR ''+'' \<or> c = CHR ''-'' then
            Option.bind (take_digits 2 r) (\<lambda>(hh, r1). Option.bind (expect (CHR '':'') r1) (\<lambda>r2.
              Option.bind (take_digits 2 r2) (\<lambda>(mm, r3).
                if r3 = [] \<and> digits_val hh < 24 \<and> digits_val mm < 60
                then Some ((if c = CHR ''-'' then -1 else 1) * (60 * int (digits_val hh) + int (digits_val mm)))
                else None)))
          else None)"

text \<open>The time of day after the \<open>T\<close>, in milliseconds: hours and minutes, optional seconds and fraction, an offset.\<close>

definition iso_seconds :: "string \<Rightarrow> (int \<times> string) option" where
  "iso_seconds s =
     (case expect (CHR '':'') s of
        None \<Rightarrow> Some (0, s)
      | Some r \<Rightarrow>
          Option.bind (take_digits 2 r) (\<lambda>(ss, r1).
            case expect (CHR ''.'') r1 of
              None \<Rightarrow> Some (1000 * int (digits_val ss), r1)
            | Some r2 \<Rightarrow>
                (let (f, r3) = span_digits r2
                 in if f = [] then None
                    else Some (1000 * int (digits_val ss) + int (digits_val (padEnd 3 (CHR ''0'') (take 3 f))), r3))))"

definition iso_time :: "string \<Rightarrow> int option" where
  "iso_time s =
     Option.bind (take_digits 2 s) (\<lambda>(hh, r1). Option.bind (expect (CHR '':'') r1) (\<lambda>r2.
       Option.bind (take_digits 2 r2) (\<lambda>(mm, r3). Option.bind (iso_seconds r3) (\<lambda>(ms, r4).
         Option.bind (iso_offset r4) (\<lambda>off.
           let t = 3600000 * int (digits_val hh) + 60000 * int (digits_val mm) + ms
           in if digits_val mm < 60 \<and> ms < 60000 \<and> t \<le> ms_per_day then Some (t - 60000 * off) else None)))))"

definition iso_dateParse :: "string \<Rightarrow> int option" where
  "iso_dateParse s =
     Option.bind (take_digits 4 s) (\<lambda>(yy, r1). Option.bind (expect (CHR ''-'') r1) (\<lambda>r2.
       Option.bind (take_digits 2 r2) (\<lambda>(mm, r3). Option.bind (expect (CHR ''-'') r3) (\<lambda>r4.
         Option.bind (take_digits 2 r4) (\<lambda>(dd, r5).
           let m = int (digits_val mm); d = int (digits_val dd);
               base = days_from_civil (int (digits_val yy)) m d * ms_per_day
           in if 1 \<le> m \<and> m \<le> 12 \<and> 1 \<le> d \<and> d \<le> 31
              then (if r5 = [] then Some base
                    else Option.bind (expect (CHR ''T'') r5) (\<lambda>r6. Option.bind (iso_time r6) (\<lambda>t. Some (base + t))))
              else None)))))"

section \<open>Weeks\<close>

text \<open>Going back to the last Monday reaches a Monday at most six days earlier.\<close>

definition monday :: "int \<Rightarrow> int" where
  "monday t = add_days t (- ((getUTCDay t + 6) mod 7))"

lemma utc_day_add [simp]: "utc_day (add_days t n) = utc_day t + n"
  by (simp add: utc_day_def add_days_def ms_per_day_def)

lemma monday_day: "getUTCDay (monday t) = 1"
  by (simp add: monday_def getUTCDay_def) presburger

lemma monday_range: "utc_day (monday t) \<le> utc_day t" "utc_day t < utc_day (monday t) + 7"
  by (simp_all add: monday_def getUTCDay_def)

lemma monday_unique:
  assumes "utc_day (monday t) \<le> utc_day u" "utc_day u < utc_day (monday t) + 7"
  shows "utc_day (monday u) = utc_day (monday t)"
  using assms by (simp add: monday_def getUTCDay_def) presburger

end
