(* ===== verification/JsValues.thy ===== *)
theory JsValues
  imports Calendar
begin

text \<open>
  JavaScript values as the sources receive them (\<open>unknown\<close>), the host's locale and number
  printing, and \<open>JSON.stringify\<close>. The sources compare filters, rows and presets by their
  \<open>JSON.stringify\<close> text; the lemma \<open>stringify_inj\<close> of the locale \<open>js_host\<close> shows that two
  JSON data values have the same text only when they are the same value, so those comparisons
  decide equality.

  Finite numbers are rationals (the two zeros are one value), \<open>JsDate\<close> is a \<open>Date\<close> by its time
  value in milliseconds (\<open>None\<close> for an invalid date), and \<open>Opaque\<close> stands for every other object
  that is neither a plain object nor an array: class instances, functions, symbols.
\<close>

datatype jsnum = Fin rat | PosInf | NegInf | NaN

datatype jsval =
    Undefined
  | Null
  | Bool bool
  | Num jsnum
  | Str string
  | Arr "jsval list"
  | Obj "(string \<times> jsval) list"
  | JsDate "int option"
  | Opaque nat

lemma size_Arr_mem [termination_simp]: "x \<in> set xs \<Longrightarrow> size x < Suc (size_list size xs)"
  by (induction xs) auto

lemma size_Obj_mem [termination_simp]:
  "(k, v) \<in> set es \<Longrightarrow> size v < Suc (size_list (size_prod (\<lambda>_. 0) size) es)"
  by (induction es) auto

lemma size_Obj_snd [termination_simp]:
  "e \<in> set es \<Longrightarrow> size (snd e) < Suc (size_list (size_prod (\<lambda>_. 0) size) es)"
  using size_Obj_mem[of "fst e" "snd e" es] by simp

text \<open>
  What the sources use of the host: the collation of the default locale (\<open>a.localeCompare(b)\<close>),
  the numeric base-sensitivity collation of \<open>Intl.Collator\<close>, the decimal text of a finite number
  (\<open>String(n)\<close>), \<open>Date.parse\<close>, \<open>Number(s)\<close>, \<open>JSON.parse\<close> (\<open>None\<close> when it throws), the text of dates
  and other objects (\<open>String(o)\<close>), and \<open>new RegExp(source, flags).test(text)\<close> (\<open>None\<close> when the
  source is not a regular expression).
\<close>

record host =
  localeCompare :: "string \<Rightarrow> string \<Rightarrow> int"
  numberToString :: "rat \<Rightarrow> string"
  naturalCompare :: "string \<Rightarrow> string \<Rightarrow> int"
  dateParse :: "string \<Rightarrow> int option"
  stringToNumber :: "string \<Rightarrow> jsnum"
  jsonParse :: "string \<Rightarrow> jsval option"
  objectString :: "jsval \<Rightarrow> string"
  regexTest :: "string \<Rightarrow> string \<Rightarrow> string \<Rightarrow> bool option"

text \<open>\<open>Object.entries(o).sort(([a], [b]) => a.localeCompare(b))\<close>.\<close>

definition sortEntries :: "host \<Rightarrow> 'v table \<Rightarrow> 'v table" where
  "sortEntries h es = js_sort (\<lambda>a b. localeCompare h (fst a) (fst b)) es"

lemma set_sortEntries [simp]: "set (sortEntries h es) = set es"
  by (simp add: sortEntries_def)

lemma distinct_keys_sortEntries [simp]: "distinct (keys (sortEntries h es)) = distinct (keys es)"
  by (simp add: sortEntries_def)

text \<open>
  \<open>a === b\<close>. Arrays, objects and dates compare by identity; the values compared here come from
  different sources (a row and a filter), so no two of them are the same object.
\<close>

fun strict_eq :: "jsval \<Rightarrow> jsval \<Rightarrow> bool" where
  "strict_eq Undefined Undefined = True"
| "strict_eq Null Null = True"
| "strict_eq (Bool a) (Bool b) = (a = b)"
| "strict_eq (Num a) (Num b) = (a = b \<and> a \<noteq> NaN)"
| "strict_eq (Str a) (Str b) = (a = b)"
| "strict_eq (Opaque a) (Opaque b) = (a = b)"
| "strict_eq _ _ = False"

text \<open>\<open>Object.is\<close> differs from \<open>===\<close> on \<open>NaN\<close>.\<close>

definition object_is :: "jsval \<Rightarrow> jsval \<Rightarrow> bool" where
  "object_is a b \<longleftrightarrow> a = Num NaN \<and> b = Num NaN \<or> strict_eq a b"

definition is_nullish :: "jsval \<Rightarrow> bool" where
  "is_nullish v \<longleftrightarrow> v = Null \<or> v = Undefined"

text \<open>Tests the sources make on a value.\<close>

definition js_truthy :: "jsval \<Rightarrow> bool" where
  "js_truthy v = (case v of Undefined \<Rightarrow> False | Null \<Rightarrow> False | Bool b \<Rightarrow> b
     | Num n \<Rightarrow> n \<noteq> Fin 0 \<and> n \<noteq> NaN | Str s \<Rightarrow> s \<noteq> [] | _ \<Rightarrow> True)"

definition string_value :: "jsval \<Rightarrow> string option" where
  "string_value v = (case v of Str s \<Rightarrow> Some s | _ \<Rightarrow> None)"

definition is_boolean :: "jsval \<Rightarrow> bool" where
  "is_boolean v = (case v of Bool _ \<Rightarrow> True | _ \<Rightarrow> False)"

definition is_number :: "jsval \<Rightarrow> bool" where
  "is_number v = (case v of Num _ \<Rightarrow> True | _ \<Rightarrow> False)"

section \<open>JSON text\<close>

definition hex_digit :: "nat \<Rightarrow> char" where
  "hex_digit n = (if n < 10 then char_of (48 + n) else char_of (87 + n))"

definition json_esc :: "char \<Rightarrow> string" where
  "json_esc c =
     (let n = (of_char c :: nat)
      in if n = 34 \<or> n = 92 then [CHR 0x5C, c]
         else if n = 8 then [CHR 0x5C, CHR ''b'']
         else if n = 9 then [CHR 0x5C, CHR ''t'']
         else if n = 10 then [CHR 0x5C, CHR ''n'']
         else if n = 12 then [CHR 0x5C, CHR ''f'']
         else if n = 13 then [CHR 0x5C, CHR ''r'']
         else if n < 32 then [CHR 0x5C, CHR ''u'', CHR ''0'', CHR ''0'', hex_digit (n div 16), hex_digit (n mod 16)]
         else [c])"

definition json_quote :: "string \<Rightarrow> string" where
  "json_quote s = [CHR 0x22] @ concat (map json_esc s) @ [CHR 0x22]"

text \<open>
  \<open>JSON.stringify(v)\<close>; \<open>None\<close> is the result \<open>undefined\<close>, which an array writes as \<open>null\<close> and an
  object leaves out. Only data reaches it in the sources, so a date or another object is \<open>None\<close>.
\<close>

fun stringify :: "host \<Rightarrow> jsval \<Rightarrow> string option" where
  "stringify h Undefined = None"
| "stringify h Null = Some ''null''"
| "stringify h (Bool b) = Some (if b then ''true'' else ''false'')"
| "stringify h (Num (Fin r)) = Some (numberToString h r)"
| "stringify h (Num _) = Some ''null''"
| "stringify h (Str s) = Some (json_quote s)"
| "stringify h (Arr xs) =
     Some (''['' @ js_join '','' (map (\<lambda>x. case stringify h x of None \<Rightarrow> ''null'' | Some t \<Rightarrow> t) xs) @ '']'')"
| "stringify h (Obj es) =
     Some (''{'' @ js_join '','' (concat (map (\<lambda>(k, v). case stringify h v of
         None \<Rightarrow> [] | Some t \<Rightarrow> [json_quote k @ '':'' @ t]) es)) @ ''}'')"
| "stringify h (JsDate _) = None"
| "stringify h (Opaque _) = None"

text \<open>JSON data: what \<open>filterValueFromUnknown\<close> returns.\<close>

fun json_data :: "jsval \<Rightarrow> bool" where
  "json_data Null = True"
| "json_data (Bool _) = True"
| "json_data (Num (Fin _)) = True"
| "json_data (Str _) = True"
| "json_data (Arr xs) = list_all json_data xs"
| "json_data (Obj es) = list_all (\<lambda>(k, v). json_data v) es"
| "json_data _ = False"

lemma json_data_Obj: "json_data (Obj es) \<longleftrightarrow> (\<forall>(k, v) \<in> set es. json_data v)"
  by (simp add: list_all_iff)

lemma stringify_data: "json_data x \<Longrightarrow> \<exists>t. stringify h x = Some t"
  by (cases x rule: json_data.cases) auto

subsection \<open>The text determines the value\<close>

text \<open>A decoder of one escaped code unit: the escapes are a prefix-free code.\<close>

definition hex_val :: "char \<Rightarrow> nat" where
  "hex_val c = (let n = of_char c in if n < 58 then n - 48 else n - 87)"

fun json_unesc :: "string \<Rightarrow> (char \<times> string) option" where
  "json_unesc [] = None"
| "json_unesc (c # s) =
     (if c = CHR 0x5C then
        (case s of
           [] \<Rightarrow> None
         | d # s' \<Rightarrow>
             if d = CHR ''b'' then Some (char_of (8::nat), s')
             else if d = CHR ''t'' then Some (char_of (9::nat), s')
             else if d = CHR ''n'' then Some (char_of (10::nat), s')
             else if d = CHR ''f'' then Some (char_of (12::nat), s')
             else if d = CHR ''r'' then Some (char_of (13::nat), s')
             else if d = CHR ''u'' then Some (char_of (16 * hex_val (s' ! 2) + hex_val (s' ! 3)), drop 4 s')
             else Some (d, s'))
      else Some (c, s))"

lemma hex_val_digit: "a < 16 \<Longrightarrow> hex_val (hex_digit a) = a"
  by (auto simp: hex_val_def hex_digit_def Let_def)

lemma char_eq_nat: "c = d \<longleftrightarrow> (of_char c :: nat) = of_char d"
  by (simp add: of_char_eq_iff)

lemma json_unesc_control:
  assumes "(of_char c :: nat) < 32"
  shows "json_unesc (json_esc c @ s) = Some (c, s)"
proof -
  define n where "n = (of_char c :: nat)"
  have c: "c = char_of n" by (simp add: n_def)
  have n: "n < 32" using assms by (simp add: n_def)
  have small: "n div 16 < 16" "n mod 16 < 16" using n by auto
  show ?thesis
    using n small by (auto simp: json_esc_def Let_def c hex_val_digit)
qed

lemma json_unesc_esc: "json_unesc (json_esc c @ s) = Some (c, s)"
proof (cases "(of_char c :: nat) < 32")
  case True
  then show ?thesis by (rule json_unesc_control)
next
  case False
  then show ?thesis by (auto simp: json_esc_def Let_def char_eq_nat)
qed

lemma json_esc_head: "json_esc c \<noteq> []" "json_esc c \<noteq> CHR 0x22 # w" "CHR 0x22 # w \<noteq> json_esc c"
  by (auto simp: json_esc_def Let_def char_eq_nat)

lemma json_quote_inj:
  "json_quote a @ s = json_quote b @ t \<Longrightarrow> a = b \<and> s = t"
proof -
  have body: "concat (map json_esc a) @ CHR 0x22 # s = concat (map json_esc b) @ CHR 0x22 # t \<Longrightarrow> a = b \<and> s = t"
  proof (induction a arbitrary: b)
    case Nil
    then show ?case
      by (cases b) (auto simp: Cons_eq_append_conv json_esc_head)
  next
    case (Cons c a)
    show ?case
    proof (cases b)
      case Nil
      with Cons.prems show ?thesis
        by (auto simp: append_eq_Cons_conv json_esc_head)
    next
      case b: (Cons d b')
      have "json_esc c @ concat (map json_esc a) @ CHR 0x22 # s = json_esc d @ concat (map json_esc b') @ CHR 0x22 # t"
        using Cons.prems b by simp
      then have "c = d" and "concat (map json_esc a) @ CHR 0x22 # s = concat (map json_esc b') @ CHR 0x22 # t"
        by (metis json_unesc_esc option.inject prod.inject)+
      with Cons.IH b show ?thesis by blast
    qed
  qed
  assume "json_quote a @ s = json_quote b @ t"
  with body show ?thesis by (simp add: json_quote_def)
qed

text \<open>
  What may follow the text of a value inside a larger text: nothing, a comma or a closing
  bracket. None of these units occurs in a number.
\<close>

definition num_unit :: "char \<Rightarrow> bool" where
  "num_unit c \<longleftrightarrow> digit_char c \<or> c \<in> set ''+-.e''"

definition json_stop :: "string \<Rightarrow> bool" where
  "json_stop s \<longleftrightarrow> s = [] \<or> hd s \<in> set '',]}''"

definition num_text :: "string \<Rightarrow> bool" where
  "num_text s \<longleftrightarrow> s \<noteq> [] \<and> list_all num_unit s"

lemma json_stop_num: "num_unit c \<Longrightarrow> \<not> json_stop (c # r)"
  by (auto simp: num_unit_def digit_char_def json_stop_def)

lemma num_text_stop:
  assumes "num_text a" "num_text b" "a @ s = b @ t" "json_stop s" "json_stop t"
  shows "a = b \<and> s = t"
proof -
  obtain us where "a = b @ us \<and> us @ s = t \<or> a @ us = b \<and> s = us @ t"
    using assms(3) by (auto simp: append_eq_append_conv2)
  moreover have "us = []"
    using calculation assms json_stop_num by (cases us) (auto simp: num_text_def)
  ultimately show ?thesis by auto
qed

text \<open>
  Comma-separated items between brackets: when the text of each item can be read off a longer
  text, so can the whole list.
\<close>

definition comma_tail :: "string list \<Rightarrow> string" where
  "comma_tail ws = concat (map (\<lambda>w. CHR '','' # w) ws)"

lemma js_join_comma: "js_join '','' (w # ws) = w @ comma_tail ws"
  by (induction ws arbitrary: w) (simp_all add: comma_tail_def)

definition reads_off :: "('a \<Rightarrow> string) \<Rightarrow> 'a \<Rightarrow> 'a \<Rightarrow> bool" where
  "reads_off f x y \<longleftrightarrow> (\<forall>s t. f x @ s = f y @ t \<longrightarrow> json_stop s \<longrightarrow> json_stop t \<longrightarrow> x = y \<and> s = t)"

lemma json_stop_tail: "close \<in> set '']}'' \<Longrightarrow> json_stop (comma_tail ws @ close # s)"
  by (cases ws) (auto simp: comma_tail_def json_stop_def)

lemma comma_tail_inj:
  assumes "\<forall>x \<in> set xs. \<forall>y \<in> set ys. reads_off f x y" and close: "close \<in> set '']}''"
    and "comma_tail (map f xs) @ close # s = comma_tail (map f ys) @ close # t"
  shows "xs = ys \<and> s = t"
  using assms(1,3)
proof (induction xs arbitrary: ys)
  case Nil
  with close show ?case by (cases ys) (auto simp: comma_tail_def)
next
  case (Cons x xs)
  show ?case
  proof (cases ys)
    case Nil
    with Cons.prems close show ?thesis by (auto simp: comma_tail_def)
  next
    case ys: (Cons y ys')
    have "f x @ comma_tail (map f xs) @ close # s = f y @ comma_tail (map f ys') @ close # t"
      using Cons.prems(2) ys by (simp add: comma_tail_def)
    moreover have "reads_off f x y" using Cons.prems(1) ys by simp
    ultimately have "x = y" and "comma_tail (map f xs) @ close # s = comma_tail (map f ys') @ close # t"
      using json_stop_tail[OF close] unfolding reads_off_def by blast+
    with Cons.IH[of ys'] Cons.prems(1) ys show ?thesis by auto
  qed
qed

lemma js_join_inj:
  assumes reads: "\<forall>x \<in> set xs. \<forall>y \<in> set ys. reads_off f x y" and close: "close \<in> set '']}''"
    and heads: "\<And>z w. z \<in> set xs \<union> set ys \<Longrightarrow> f z \<noteq> [] \<and> f z \<noteq> close # w"
    and eq: "js_join '','' (map f xs) @ close # s = js_join '','' (map f ys) @ close # t"
  shows "xs = ys \<and> s = t"
proof (cases xs; cases ys)
  fix x xs' y ys'
  assume xs: "xs = x # xs'" and ys: "ys = y # ys'"
  have "f x @ comma_tail (map f xs') @ close # s = f y @ comma_tail (map f ys') @ close # t"
    using eq by (simp add: xs ys js_join_comma)
  moreover have "reads_off f x y" using reads xs ys by simp
  ultimately have "x = y" and "comma_tail (map f xs') @ close # s = comma_tail (map f ys') @ close # t"
    using json_stop_tail[OF close] unfolding reads_off_def by blast+
  with comma_tail_inj[of xs' ys' f close s t] reads close show ?thesis by (simp add: xs ys)
next
  fix y ys'
  assume "xs = []" "ys = y # ys'"
  with eq heads[of y] show ?thesis by (cases "f y") (auto simp: js_join_comma)
next
  fix x xs'
  assume "xs = x # xs'" "ys = []"
  with eq heads[of x] show ?thesis by (cases "f x") (auto simp: js_join_comma)
qed (use eq in simp)

text \<open>
  The contract of the host: its collation is a consistent comparison, and the decimal text of a
  finite number determines the number and uses digits, signs, the point and the exponent mark
  (\<open>Number::toString\<close> of ECMAScript).
\<close>

locale js_host =
  fixes h :: host
  assumes localeCompare_total: "localeCompare h a b \<le> 0 \<or> localeCompare h b a \<le> 0"
    and localeCompare_trans: "localeCompare h a b \<le> 0 \<Longrightarrow> localeCompare h b c \<le> 0 \<Longrightarrow> localeCompare h a c \<le> 0"
    and numberToString_inj: "numberToString h r = numberToString h q \<Longrightarrow> r = q"
    and numberToString_text: "num_text (numberToString h r)"

sublocale js_host \<subseteq> entries: js_comparator "\<lambda>a b. localeCompare h (fst a) (fst b)"
  by unfold_locales (use localeCompare_total localeCompare_trans in blast)+

context js_host
begin

text \<open>The text of a value, and the text of one property of an object.\<close>

definition text_of :: "jsval \<Rightarrow> string" where
  "text_of x = (case stringify h x of None \<Rightarrow> [] | Some t \<Rightarrow> t)"

definition entry_text :: "string \<times> jsval \<Rightarrow> string" where
  "entry_text e = json_quote (fst e) @ '':'' @ text_of (snd e)"

lemma text_of_simps:
  "text_of Null = ''null''"
  "text_of (Bool b) = (if b then ''true'' else ''false'')"
  "text_of (Num (Fin r)) = numberToString h r"
  "text_of (Str s) = json_quote s"
  by (simp_all add: text_of_def)

lemma text_of_Arr: "list_all json_data xs \<Longrightarrow> text_of (Arr xs) = ''['' @ js_join '','' (map text_of xs) @ '']''"
proof -
  assume d: "list_all json_data xs"
  have "map (\<lambda>x. case stringify h x of None \<Rightarrow> ''null'' | Some t \<Rightarrow> t) xs = map text_of xs"
    using d by (induction xs) (auto simp: text_of_def split: option.splits dest: stringify_data[of _ h])
  then show ?thesis by (simp only: text_of_def[of "Arr xs"] stringify.simps option.case)
qed

lemma text_of_Obj: "json_data (Obj es) \<Longrightarrow> text_of (Obj es) = ''{'' @ js_join '','' (map entry_text es) @ ''}''"
proof -
  assume d: "json_data (Obj es)"
  have "concat (map (\<lambda>(k, v). case stringify h v of None \<Rightarrow> [] | Some t \<Rightarrow> [json_quote k @ '':'' @ t]) es) = map entry_text es"
    using d by (induction es)
      (auto simp: entry_text_def text_of_def split: option.splits dest: stringify_data[of _ h])
  then show ?thesis by (simp add: text_of_def[of "Obj es"])
qed

text \<open>The first unit of the text tells the constructors apart.\<close>

fun value_tag :: "jsval \<Rightarrow> nat" where
  "value_tag Null = 0"
| "value_tag (Bool b) = (if b then 1 else 2)"
| "value_tag (Str _) = 3"
| "value_tag (Arr _) = 4"
| "value_tag (Obj _) = 5"
| "value_tag _ = 6"

definition head_tag :: "char \<Rightarrow> nat" where
  "head_tag c =
     (if c = CHR ''n'' then 0 else if c = CHR ''t'' then 1 else if c = CHR ''f'' then 2
      else if c = CHR 0x22 then 3 else if c = CHR ''['' then 4 else if c = CHR ''{'' then 5
      else if num_unit c then 6 else 7)"

lemma head_tag_num: "num_unit c \<Longrightarrow> head_tag c = 6"
  by (auto simp: num_unit_def digit_char_def head_tag_def)

lemma text_of_head:
  assumes "json_data x"
  shows "\<exists>c r. text_of x = c # r \<and> head_tag c = value_tag x"
proof (cases x)
  case (Num n)
  with assms obtain r where n: "n = Fin r" by (cases n) auto
  obtain c w where "numberToString h r = c # w" "num_unit c"
    using numberToString_text[of r] by (cases "numberToString h r") (auto simp: num_text_def)
  then show ?thesis by (simp add: Num n text_of_simps head_tag_num)
next
  case (Arr xs)
  with assms show ?thesis by (simp add: text_of_Arr head_tag_def)
next
  case (Obj es)
  with assms have "text_of x = ''{'' @ js_join '','' (map entry_text es) @ ''}''" by (simp only: text_of_Obj)
  with Obj show ?thesis by (simp add: head_tag_def)
qed (use assms in \<open>auto simp: text_of_simps head_tag_def json_quote_def\<close>)

lemma text_of_nonempty: "json_data x \<Longrightarrow> text_of x \<noteq> []"
  using text_of_head by fastforce

lemma value_tag_le: "value_tag x \<le> 6"
  by (cases x) auto

lemma text_of_not_close: "json_data x \<Longrightarrow> text_of x \<noteq> CHR '']'' # w"
proof
  assume "json_data x" "text_of x = CHR '']'' # w"
  with text_of_head[of x] have "head_tag (CHR '']'') = value_tag x" by auto
  moreover have "head_tag (CHR '']'') = 7" by (simp add: head_tag_def num_unit_def digit_char_def)
  ultimately show False using value_tag_le[of x] by simp
qed

lemma same_tag: "json_data x \<Longrightarrow> json_data y \<Longrightarrow> text_of x @ s = text_of y @ t \<Longrightarrow> value_tag x = value_tag y"
  using text_of_head[of x] text_of_head[of y] by fastforce

lemma value_tag_eqs:
  "value_tag y = 0 \<longleftrightarrow> y = Null" "value_tag y = Suc 0 \<longleftrightarrow> y = Bool True" "value_tag y = 2 \<longleftrightarrow> y = Bool False"
  "value_tag y = 3 \<longleftrightarrow> (\<exists>s. y = Str s)" "value_tag y = 4 \<longleftrightarrow> (\<exists>xs. y = Arr xs)" "value_tag y = 5 \<longleftrightarrow> (\<exists>es. y = Obj es)"
  by (cases y; auto)+

lemma reads_offI:
  assumes "json_data x" "json_data y"
    and "\<And>s t. value_tag x = value_tag y \<Longrightarrow> text_of x @ s = text_of y @ t \<Longrightarrow> json_stop s \<Longrightarrow> json_stop t \<Longrightarrow> x = y \<and> s = t"
  shows "reads_off text_of x y"
  using assms same_tag unfolding reads_off_def by blast

lemma reads_off_entries:
  assumes "reads_off text_of (snd d) (snd e)"
  shows "reads_off entry_text d e"
  unfolding reads_off_def
proof (intro allI impI)
  fix s t
  assume eq: "entry_text d @ s = entry_text e @ t" and stops: "json_stop s" "json_stop t"
  from eq have "json_quote (fst d) @ '':'' @ text_of (snd d) @ s = json_quote (fst e) @ '':'' @ text_of (snd e) @ t"
    by (simp add: entry_text_def)
  from json_quote_inj[OF this] have "fst d = fst e" and "text_of (snd d) @ s = text_of (snd e) @ t"
    by simp_all
  with assms stops show "d = e \<and> s = t" unfolding reads_off_def by (metis prod.collapse)
qed

lemma reads_off_value: "json_data x \<Longrightarrow> json_data y \<Longrightarrow> reads_off text_of x y"
proof (induction x arbitrary: y)
  case (Num n)
  show ?case
  proof (rule reads_offI[OF Num])
    fix s t
    assume "value_tag (Num n) = value_tag y" "text_of (Num n) @ s = text_of y @ t" "json_stop s" "json_stop t"
    moreover from calculation Num obtain r q where "n = Fin r" "y = Num (Fin q)"
      by (cases n; cases y rule: json_data.cases) (auto split: if_splits)
    ultimately show "Num n = y \<and> s = t"
      using num_text_stop numberToString_text numberToString_inj by (metis text_of_simps(3))
  qed
next
  case (Str w)
  show ?case
  proof (rule reads_offI[OF Str])
    fix s t
    assume tag: "value_tag (Str w) = value_tag y" and eq: "text_of (Str w) @ s = text_of y @ t"
    from tag obtain v where y: "y = Str v" by (cases y) (auto split: if_splits)
    with eq have "json_quote w @ s = json_quote v @ t" by (simp only: text_of_simps)
    from json_quote_inj[OF this] y show "Str w = y \<and> s = t" by simp
  qed
next
  case (Arr xs)
  show ?case
  proof (rule reads_offI[OF Arr(2,3)])
    fix s t
    assume tag: "value_tag (Arr xs) = value_tag y" and eq: "text_of (Arr xs) @ s = text_of y @ t"
    from tag obtain ys where y: "y = Arr ys" by (cases y) (auto split: if_splits)
    have "js_join '','' (map text_of xs) @ CHR '']'' # s = js_join '','' (map text_of ys) @ CHR '']'' # t"
      using eq Arr y by (simp add: text_of_Arr)
    then have "xs = ys \<and> s = t"
      using Arr y text_of_nonempty text_of_not_close by (intro js_join_inj) (auto simp: list_all_iff)
    with y show "Arr xs = y \<and> s = t" by simp
  qed
next
  case (Obj es)
  have data: "json_data v" if "(k, v) \<in> set us" "json_data (Obj us)" for k v us using that by (auto simp: list_all_iff)
  show ?case
  proof (rule reads_offI[OF Obj(2,3)])
    fix s t
    assume tag: "value_tag (Obj es) = value_tag y" and eq: "text_of (Obj es) @ s = text_of y @ t"
    from tag obtain fs where y: "y = Obj fs" by (cases y) (auto split: if_splits)
    have "js_join '','' (map entry_text es) @ CHR ''}'' # s = js_join '','' (map entry_text fs) @ CHR ''}'' # t"
      using eq Obj(2,3) y by (simp only: text_of_Obj) simp
    moreover have "\<forall>d \<in> set es. \<forall>e \<in> set fs. reads_off entry_text d e"
    proof (intro ballI reads_off_entries)
      fix d e
      assume "d \<in> set es" "e \<in> set fs"
      with Obj.prems y data[of "fst d" "snd d" es] data[of "fst e" "snd e" fs]
      show "reads_off text_of (snd d) (snd e)" by (intro Obj.IH[of d]) (auto simp: snds.simps prod_set_simps)
    qed
    moreover have "entry_text e \<noteq> [] \<and> entry_text e \<noteq> CHR ''}'' # w" for e w
      by (auto simp: entry_text_def json_quote_def)
    ultimately have "es = fs \<and> s = t" by (intro js_join_inj) auto
    with y show "Obj es = y \<and> s = t" by simp
  qed
qed (auto intro!: reads_offI simp: text_of_simps value_tag_eqs eq_commute[of _ "value_tag _"] split: if_splits)

text \<open>A table filled from entries sorted by name is a fixed point of sorting and filling again.\<close>

lemma sortEntries_sorted: "sorted_wrt (\<lambda>a b. localeCompare h a b \<le> 0) (keys (sortEntries h es))"
  using entries.sorted_js_sort[of es] by (simp add: sortEntries_def sorted_wrt_map)

lemma obj_of_sortEntries_fixed:
  assumes sorted: "sorted_wrt (\<lambda>a b. localeCompare h a b \<le> 0) (keys es)" and dist: "distinct (keys es)"
  shows "obj_of (sortEntries h (obj_of es)) = obj_of es"
proof -
  let ?r = "\<lambda>e. key_rank (fst e)"
  have fill: "obj_of es = sort_key ?r es" using dist by (rule obj_of_sort_key)
  have d: "distinct (keys (obj_of es))" using table_ok_obj_of by (auto simp: table_ok_def)
  have "obj_of (sortEntries h (obj_of es)) = sort_key ?r (sortEntries h (obj_of es))"
    using d by (intro obj_of_sort_key) simp
  also have "\<dots> = sort_key ?r es"
  proof (rule properties_for_sort_key)
    show "mset (sort_key ?r es) = mset (sortEntries h (obj_of es))"
      by (simp add: sortEntries_def fill)
    show "sorted (map ?r (sort_key ?r es))" by simp
    fix x
    let ?f = "filter (\<lambda>y. ?r x = ?r y)"
    have stable: "?f (sort_key ?r es) = ?f es"
      using sort_key_stable[of ?r "?r x" es] by (simp add: eq_commute)
    have "?f (sortEntries h (obj_of es)) = sortEntries h (?f es)"
      by (simp add: sortEntries_def entries.filter_js_sort fill stable)
    also have "\<dots> = ?f es"
      using sorted by (simp add: sortEntries_def entries.js_sort_filter_sorted sorted_wrt_map)
    finally show "?f (sort_key ?r es) = ?f (sortEntries h (obj_of es))" by (simp add: stable)
  qed
  finally show ?thesis by (simp add: fill)
qed

theorem stringify_inj:
  assumes "json_data x" "json_data y" "stringify h x = stringify h y"
  shows "x = y"
proof -
  have "text_of x @ [] = text_of y @ []" using assms(3) by (simp add: text_of_def)
  with reads_off_value[OF assms(1,2)] show ?thesis unfolding reads_off_def by (metis json_stop_def)
qed

end

section \<open>A host\<close>

text \<open>
  The CLDR root collation restricted to one byte: punctuation, then digits, then letters without
  regard to case, a lower-case letter before its capital where nothing else differs. Integers
  print in decimal; a fraction is written by its numerator and denominator, which is enough for
  the contract.
\<close>

definition root_order :: string where
  "root_order = ''_-,;:!?.'' @ [CHR 0x27, CHR 0x22] @ ''()[]{}@*/'' @ [CHR 0x5C] @ ''&#%'' @ [CHR 0x60]
     @ ''^+<=>|~$0123456789abcdefghijklmnopqrstuvwxyz''"

fun position_in :: "'a \<Rightarrow> 'a list \<Rightarrow> nat option" where
  "position_in x [] = None"
| "position_in x (y # ys) = (if x = y then Some 0 else map_option Suc (position_in x ys))"

definition root_weight :: "char \<Rightarrow> nat" where
  "root_weight c = (case position_in (lower_char c) root_order of None \<Rightarrow> 100 + of_char c | Some i \<Rightarrow> Suc i)"

definition root_key :: "string \<Rightarrow> nat list" where
  "root_key s = map root_weight s @ 0 # map (\<lambda>c. if lower_char c = c then 0 else 1) s"

definition root_compare :: "string \<Rightarrow> string \<Rightarrow> int" where
  "root_compare a b = (if root_key a < root_key b then -1 else if root_key a = root_key b then 0 else 1)"

definition int_str :: "int \<Rightarrow> string" where
  "int_str i = (if i < 0 then ''-'' @ nat_str (nat (- i)) else nat_str (nat i))"

definition ratio_str :: "rat \<Rightarrow> string" where
  "ratio_str r = (let (p, q) = quotient_of r in if q = 1 then int_str p else int_str p @ ''e'' @ nat_str (nat q))"

definition root_host :: host where
  "root_host = \<lparr>localeCompare = root_compare, numberToString = ratio_str, naturalCompare = root_compare,
     dateParse = iso_dateParse,
     stringToNumber = (\<lambda>s. if s \<noteq> [] \<and> list_all digit_char s then Fin (of_nat (digits_val s)) else NaN),
     jsonParse = (\<lambda>s. if s \<noteq> [] \<and> list_all digit_char s then Some (Num (Fin (of_nat (digits_val s)))) else None),
     objectString = (\<lambda>_. ''[object Object]''),
     regexTest = (\<lambda>source flags text. Some (js_includes text source))\<rparr>"

lemma root_host_simps [simp]:
  "localeCompare root_host = root_compare" "numberToString root_host = ratio_str" "dateParse root_host = iso_dateParse"
  by (simp_all add: root_host_def)

lemma digits_val_snoc: "digits_val (s @ [c]) = 10 * digits_val s + (of_char c - 48)"
  by (simp add: digits_val_def)

lemma digits_val_nat_str: "digits_val (nat_str n) = n"
proof (induction n rule: nat_str.induct)
  case (1 n)
  then show ?case
    by (subst nat_str.simps) (auto simp: digits_val_snoc, simp add: digits_val_def)
qed

lemma digits_nat_str: "list_all digit_char (nat_str n) \<and> nat_str n \<noteq> []"
proof (induction n rule: nat_str.induct)
  case (1 n)
  have d: "m < 10 \<Longrightarrow> digit_char (char_of (48 + m))" for m :: nat by (simp add: digit_char_def)
  from 1 show ?case by (subst (1 2) nat_str.simps) (auto simp: d)
qed

lemma nat_str_inj: "nat_str m = nat_str n \<Longrightarrow> m = n"
  by (metis digits_val_nat_str)

lemma digit_char_not: "\<not> digit_char (CHR ''-'')" "\<not> digit_char (CHR ''e'')"
  by (simp_all add: digit_char_def)

lemma int_str_units: "list_all (\<lambda>c. digit_char c \<or> c = CHR ''-'') (int_str i) \<and> int_str i \<noteq> []"
  using digits_nat_str by (auto simp: int_str_def list_all_iff)

lemma int_str_inj: "int_str i = int_str j \<Longrightarrow> i = j"
proof -
  have "nat_str n \<noteq> CHR ''-'' # w" for n w
    using digits_nat_str[of n] digit_char_not by auto
  then show "int_str i = int_str j \<Longrightarrow> i = j"
    by (auto simp: int_str_def split: if_splits dest: nat_str_inj) (metis+)
qed

lemma ratio_str_split:
  "takeWhile (\<lambda>c. c \<noteq> CHR ''e'') (ratio_str r) = int_str (fst (quotient_of r))"
  "dropWhile (\<lambda>c. c \<noteq> CHR ''e'') (ratio_str r) =
     (if snd (quotient_of r) = 1 then [] else ''e'' @ nat_str (nat (snd (quotient_of r))))"
proof -
  have no: "\<forall>c \<in> set (int_str i). c \<noteq> CHR ''e''" for i
    using int_str_units[of i] digit_char_not by (auto simp: list_all_iff)
  show "takeWhile (\<lambda>c. c \<noteq> CHR ''e'') (ratio_str r) = int_str (fst (quotient_of r))"
    using no by (auto simp: ratio_str_def Let_def split: prod.splits)
  show "dropWhile (\<lambda>c. c \<noteq> CHR ''e'') (ratio_str r) =
     (if snd (quotient_of r) = 1 then [] else ''e'' @ nat_str (nat (snd (quotient_of r))))"
    using no by (auto simp: ratio_str_def Let_def dropWhile_append split: prod.splits)
qed

lemma ratio_str_inj: "ratio_str r = ratio_str q \<Longrightarrow> r = q"
proof -
  assume eq: "ratio_str r = ratio_str q"
  have "fst (quotient_of r) = fst (quotient_of q)"
    using ratio_str_split(1)[of r] ratio_str_split(1)[of q] eq by (intro int_str_inj) simp
  moreover have "snd (quotient_of r) = snd (quotient_of q)"
  proof -
    let ?r = "snd (quotient_of r)" and ?q = "snd (quotient_of q)"
    have "(if ?r = 1 then [] else ''e'' @ nat_str (nat ?r)) = (if ?q = 1 then [] else ''e'' @ nat_str (nat ?q))"
      using ratio_str_split(2)[of r] ratio_str_split(2)[of q] eq by simp
    moreover have "0 < ?r" "0 < ?q" by (rule quotient_of_denom_pos')+
    ultimately show ?thesis by (auto split: if_splits dest!: nat_str_inj)
  qed
  ultimately show ?thesis by (metis prod.collapse quotient_of_inject)
qed

lemma ratio_str_text: "num_text (ratio_str r)"
proof -
  have "list_all num_unit (int_str i)" for i
    using int_str_units[of i] by (auto simp: list_all_iff num_unit_def)
  moreover have "list_all num_unit (nat_str n)" for n
    using digits_nat_str[of n] by (auto simp: list_all_iff num_unit_def)
  moreover have "num_unit (CHR ''e'')" by (simp add: num_unit_def)
  ultimately show ?thesis
    using int_str_units by (simp add: num_text_def ratio_str_def split: prod.splits)
qed

interpretation root: js_host root_host
  by unfold_locales (auto simp: root_compare_def ratio_str_text dest: ratio_str_inj split: if_splits)

end
