(* ===== verification/Filters.thy ===== *)
theory Filters
  imports JsValues
begin

text \<open>
  The canonical filter language of \<open>packages/metadata/src/filter.ts\<close> and its operator list in
  \<open>query-schema.ts\<close>. A filter is a plain object: the keys \<open>AND\<close> and \<open>OR\<close> hold arrays of
  filters, \<open>NOT\<close> holds a filter, and any other key is a field whose value is a lookup, a
  non-empty table of operators and operands. The class \<open>Filter\<close> parses its input once and then
  works on the canonical table, so its methods are functions of that table here.

  The casts \<open>operand as readonly QueryFilter[]\<close> have no effect at run time; \<open>branches_of\<close> and
  \<open>entries_of\<close> read an array and an object, which the lemmas on \<open>canonical\<close> show is what every
  parsed filter has in those places.
\<close>

section \<open>Parsing\<close>

definition FILTER_OPERATORS :: "string list" where
  "FILTER_OPERATORS = [
    ''exact'', ''ne'', ''gt'', ''gte'', ''lt'', ''lte'', ''inList'', ''notInList'', ''isNull'',
    ''contains'', ''iContains'', ''startsWith'', ''iStartsWith'', ''endsWith'', ''iEndsWith'',
    ''like'', ''iLike'', ''notLike'', ''notILike'', ''similar'', ''notSimilar'',
    ''regex'', ''iRegex'', ''notRegex'', ''notIRegex'', ''jsonContains'', ''jsonContainedIn'',
    ''hasKey'', ''hasKeysAny'', ''hasKeysAll'']"

definition isFilterObject :: "jsval \<Rightarrow> bool" where
  "isFilterObject v = (case v of Obj _ \<Rightarrow> True | _ \<Rightarrow> False)"

abbreviation at_index :: "string \<Rightarrow> nat \<Rightarrow> string" where
  "at_index path i \<equiv> path @ ''['' @ nat_str i @ '']''"

function (sequential) filterValueFromUnknown :: "host \<Rightarrow> jsval \<Rightarrow> string \<Rightarrow> jsval result" where
  "filterValueFromUnknown h Null path = Inr Null"
| "filterValueFromUnknown h (Str s) path = Inr (Str s)"
| "filterValueFromUnknown h (Bool b) path = Inr (Bool b)"
| "filterValueFromUnknown h (Num (Fin r)) path = Inr (Num (Fin r))"
| "filterValueFromUnknown h (Arr xs) path =
     rbind (map_res (\<lambda>(i, item). filterValueFromUnknown h item (at_index path i)) (enumerate 0 xs)) (\<lambda>ys. Inr (Arr ys))"
| "filterValueFromUnknown h (Obj es) path =
     rbind (map_res (\<lambda>(key, item). rbind (filterValueFromUnknown h item (path @ ''.'' @ key)) (\<lambda>v. Inr (key, v)))
                    (sortEntries h es))
           (\<lambda>ps. Inr (Obj (obj_of ps)))"
| "filterValueFromUnknown h _ path = Inl (QueryParseError path ''expected a JSON value'')"
  by pat_completeness auto
termination
  by (relation "measure (\<lambda>(h, v, path). size v)")
    (auto simp: in_set_enumerate_eq dest: size_Obj_mem intro: size_Arr_mem[OF nth_mem])

text \<open>The comparisons of one field: a bare value is shorthand for one comparison.\<close>

definition lookupOf :: "jsval \<Rightarrow> jsval table" where
  "lookupOf value =
     (case value of
        Obj es \<Rightarrow> es
      | Null \<Rightarrow> [(''isNull'', Bool True)]
      | Arr xs \<Rightarrow> [(''inList'', value)]
      | _ \<Rightarrow> [(''exact'', value)])"

definition parseLookup :: "host \<Rightarrow> jsval \<Rightarrow> string \<Rightarrow> jsval table result" where
  "parseLookup h value current =
     (let lookup = lookupOf value
      in if lookup = [] then Inl (QueryParseError current ''expected at least one comparison'')
         else rbind
           (map_res (\<lambda>(operator, operand).
              if operator \<notin> set FILTER_OPERATORS
              then Inl (QueryParseError (current @ ''.'' @ operator) ''unknown comparison operator'')
              else rbind (filterValueFromUnknown h operand (current @ ''.'' @ operator)) (\<lambda>v. Inr (operator, v)))
            (sortEntries h lookup))
           (\<lambda>ps. Inr (obj_of ps)))"

definition branchList :: "jsval \<Rightarrow> jsval list" where
  "branchList value = (case value of Arr xs \<Rightarrow> xs | _ \<Rightarrow> [value])"

lemma size_branchList: "b \<in> set (branchList v) \<Longrightarrow> size b \<le> size v"
  by (auto simp: branchList_def split: jsval.splits dest: size_Arr_mem)

function (sequential) parseFilter :: "host \<Rightarrow> jsval \<Rightarrow> string \<Rightarrow> jsval table result" where
  "parseFilter h (Obj es) path =
     rbind (map_res (\<lambda>(field, value).
        let current = path @ ''.'' @ field
        in if field = ''AND'' \<or> field = ''OR'' then
             rbind (map_res (\<lambda>(i, branch). rbind (parseFilter h branch (at_index current i)) (\<lambda>f. Inr (Obj f)))
                            (enumerate 0 (branchList value)))
                   (\<lambda>bs. Inr (field, Arr bs))
           else if field = ''NOT'' then
             rbind (parseFilter h value current) (\<lambda>f. Inr (field, Obj f))
           else rbind (parseLookup h value current) (\<lambda>l. Inr (field, Obj l)))
       (sortEntries h es))
      (\<lambda>ps. Inr (obj_of ps))"
| "parseFilter h _ path = Inl (QueryParseError path ''expected a filter object'')"
  by pat_completeness auto
termination
proof (relation "measure (\<lambda>(h, v, path). size v)", goal_cases)
  case (2 h es path x fld val cur y i branch)
  then have "size branch \<le> size val"
    by (auto simp: in_set_enumerate_eq intro!: size_branchList)
  moreover have "size val < size (Obj es)"
    using 2 size_Obj_mem[of fld val es] by auto
  ultimately show ?case by simp
next
  case (3 h es path x fld val cur)
  then show ?case using size_Obj_mem[of fld val es] by auto
qed auto

definition Filter_from :: "host \<Rightarrow> jsval \<Rightarrow> jsval table result" where
  "Filter_from h value = parseFilter h value ''filter''"

text \<open>\<open>isQueryFilter\<close>: every error parsing throws is a \<open>QueryParseError\<close>.\<close>

definition isQueryFilter :: "host \<Rightarrow> jsval \<Rightarrow> bool" where
  "isQueryFilter h value = (case parseFilter h value ''filter'' of Inr _ \<Rightarrow> True | Inl _ \<Rightarrow> False)"

section \<open>The methods of Filter\<close>

definition branches_of :: "jsval \<Rightarrow> jsval list" where
  "branches_of operand = (case operand of Arr bs \<Rightarrow> bs | _ \<Rightarrow> [])"

definition entries_of :: "jsval \<Rightarrow> jsval table" where
  "entries_of v = (case v of Obj es \<Rightarrow> es | _ \<Rightarrow> [])"

text \<open>A property read, \<open>undefined\<close> when it is absent.\<close>

definition prop_of :: "jsval table \<Rightarrow> string \<Rightarrow> jsval" where
  "prop_of o' k = (case map_of o' k of None \<Rightarrow> Undefined | Some v \<Rightarrow> v)"

definition lookup_at :: "jsval table \<Rightarrow> string \<Rightarrow> jsval table option" where
  "lookup_at this field = (case map_of this field of Some (Obj l) \<Rightarrow> Some l | _ \<Rightarrow> None)"

text \<open>One iteration of the merge loop of \<open>and\<close>, over the result and the conflicting fields.\<close>

definition and_step :: "host \<Rightarrow> jsval table \<times> jsval table \<Rightarrow> string \<times> jsval \<Rightarrow> jsval table \<times> jsval table" where
  "and_step h acc e =
     (let (result, conflicts) = acc; (field, operand) = e
      in case map_of result field of
           None \<Rightarrow> (obj_put field operand result, conflicts)
         | Some current \<Rightarrow>
             if stringify h current \<noteq> stringify h operand
             then (result, obj_put field operand conflicts)
             else (result, conflicts))"

definition filter_and :: "host \<Rightarrow> jsval table \<Rightarrow> jsval \<Rightarrow> jsval table result" where
  "filter_and h this value =
     rbind (Filter_from h value) (\<lambda>right.
       if right = [] then Inr this
       else if this = [] then Inr right
       else if stringify h (Obj this) = stringify h (Obj right) then Inr this
       else let (result, conflicts) = foldl (and_step h) (this, []) right
            in if conflicts = [] then Inr result
               else Inr [(''AND'', Arr [Obj this, Obj right])])"

definition Filter_combine :: "host \<Rightarrow> jsval \<Rightarrow> jsval \<Rightarrow> jsval table result" where
  "Filter_combine h left right = rbind (Filter_from h left) (\<lambda>f. filter_and h f right)"

definition combineOptional :: "host \<Rightarrow> jsval \<Rightarrow> jsval \<Rightarrow> jsval table option result" where
  "combineOptional h left right =
     rbind (Filter_combine h left right) (\<lambda>value. Inr (if value \<noteq> [] then Some value else None))"

function removeFields :: "string set \<Rightarrow> jsval \<Rightarrow> jsval table" where
  "removeFields omitted flt =
     obj_of (concat (map (\<lambda>(field, operand).
       if field \<in> omitted then []
       else if field = ''OR'' then
         [(field, Arr (map (\<lambda>b. Obj (removeFields omitted b)) (branches_of operand)))]
       else if field = ''AND'' then
         (let branches = filter (\<lambda>b. b \<noteq> Obj []) (map (\<lambda>b. Obj (removeFields omitted b)) (branches_of operand))
          in if branches \<noteq> [] then [(field, Arr branches)] else [])
       else if field = ''NOT'' then
         (let child = removeFields omitted operand in if child \<noteq> [] then [(field, Obj child)] else [])
       else [(field, operand)]) (entries_of flt)))"
  by pat_completeness auto

lemma size_entries_of: "(k, v) \<in> set (entries_of flt) \<Longrightarrow> size v < size flt"
  by (auto simp: entries_of_def split: jsval.splits dest: size_Obj_mem)

lemma size_branches_of: "b \<in> set (branches_of v) \<Longrightarrow> size b < size v"
  by (auto simp: branches_of_def split: jsval.splits dest: size_Arr_mem)

termination removeFields
  by (relation "measure (\<lambda>(om, flt). size flt)") (auto dest!: size_entries_of size_branches_of)

declare removeFields.simps [simp del]

definition withoutFields :: "jsval table \<Rightarrow> string set \<Rightarrow> jsval table" where
  "withoutFields this names = removeFields names (Obj this)"

function fieldNames :: "jsval \<Rightarrow> string list" where
  "fieldNames flt =
     concat (map (\<lambda>(field, operand).
       if field = ''AND'' \<or> field = ''OR'' then concat (map fieldNames (branches_of operand))
       else if field = ''NOT'' then fieldNames operand
       else [field]) (entries_of flt))"
  by pat_completeness auto
termination
  by (relation "measure size") (auto dest!: size_entries_of size_branches_of)

declare fieldNames.simps [simp del]

definition onlyFields :: "jsval table \<Rightarrow> string set \<Rightarrow> jsval table" where
  "onlyFields this kept = withoutFields this (set (filter (\<lambda>field. field \<notin> kept) (fieldNames (Obj this))))"

definition hasPreset :: "host \<Rightarrow> jsval table \<Rightarrow> jsval table \<Rightarrow> bool result" where
  "hasPreset h this preset =
     rbind (Filter_from h (Obj preset)) (\<lambda>value.
       Inr (stringify h (Obj (onlyFields this (set (keys preset)))) = stringify h (Obj value)))"

definition togglePreset :: "host \<Rightarrow> jsval table \<Rightarrow> jsval table \<Rightarrow> jsval table result" where
  "togglePreset h this preset =
     rbind (Filter_from h (Obj preset)) (\<lambda>value.
       let remaining = withoutFields this (set (keys value))
       in rbind (hasPreset h this preset) (\<lambda>has.
            if has then Inr remaining else Filter_combine h (Obj remaining) (Obj preset)))"

record filter_facet =
  facet_field :: string
  facet_value :: string
  facet_lookup :: "string option"

definition facetFromFilter :: "host \<Rightarrow> jsval table \<Rightarrow> filter_facet option result" where
  "facetFromFilter h value =
     rbind (Filter_from h (Obj value)) (\<lambda>flt. Inr
       (case flt of
          [(field, _)] \<Rightarrow>
            (let lookup = (case lookup_at flt field of None \<Rightarrow> [] | Some l \<Rightarrow> l)
             in case prop_of lookup ''exact'' of
                  Str s \<Rightarrow> Some \<lparr>facet_field = field, facet_value = s, facet_lookup = Some ''exact''\<rparr>
                | _ \<Rightarrow> (case prop_of lookup ''inList'' of
                    Arr [Str s] \<Rightarrow> Some \<lparr>facet_field = field, facet_value = s, facet_lookup = Some ''inList''\<rparr>
                  | _ \<Rightarrow> None))
        | _ \<Rightarrow> None))"

text \<open>\<open>facetValues\<close> takes a facet, or a bare field name for the facet with no lookup.\<close>

definition facetValues :: "jsval table \<Rightarrow> string \<Rightarrow> string option \<Rightarrow> string list" where
  "facetValues this field lk =
     (let lookup = (case lookup_at this field of None \<Rightarrow> [] | Some l \<Rightarrow> l);
          operator = (case lk of None \<Rightarrow> ''exact'' | Some l \<Rightarrow> l);
          value = (if operator = ''exact''
                   then (if is_nullish (prop_of lookup ''exact'') then prop_of lookup ''inList'' else prop_of lookup ''exact'')
                   else prop_of lookup operator)
      in case value of
           Str s \<Rightarrow> [s]
         | Arr xs \<Rightarrow> concat (map (\<lambda>x. case x of Str s \<Rightarrow> [s] | _ \<Rightarrow> []) xs)
         | _ \<Rightarrow> [])"

text \<open>\<open>if (Object.keys(lookup).length) next[field] = lookup; else delete next[field];\<close>\<close>

definition put_lookup :: "jsval table \<Rightarrow> string \<Rightarrow> jsval table \<Rightarrow> jsval table" where
  "put_lookup next field lookup = (if lookup \<noteq> [] then obj_put field (Obj lookup) next else obj_del field next)"

text \<open>The comparisons of a membership facet after its values changed.\<close>

definition membershipLookup :: "string option \<Rightarrow> string list \<Rightarrow> jsval table \<Rightarrow> jsval table" where
  "membershipLookup lk values lookup =
     (let cleared = obj_del ''inList'' (obj_del ''exact'' lookup)
      in if values = [] then cleared
         else if length values = 1 \<and> lk \<noteq> Some ''inList'' then obj_put ''exact'' (Str (hd values)) cleared
         else obj_put ''inList'' (Arr (map Str values)) cleared)"

text \<open>An empty lookup string is falsy, as an absent one.\<close>

definition toggleFacet :: "jsval table \<Rightarrow> filter_facet \<Rightarrow> jsval table" where
  "toggleFacet this facet =
     (let field = facet_field facet; item = facet_value facet; lk = facet_lookup facet;
          current = facetValues this field lk;
          selected = (item \<in> set current);
          lookup = (case lookup_at this field of None \<Rightarrow> [] | Some l \<Rightarrow> l)
      in put_lookup this field
           (case lk of
              Some l \<Rightarrow>
                if l \<noteq> [] \<and> l \<noteq> ''exact'' \<and> l \<noteq> ''inList''
                then (if selected then obj_del l lookup else obj_put l (Str item) lookup)
                else membershipLookup lk (if selected then filter (\<lambda>x. x \<noteq> item) current else current @ [item]) lookup
            | None \<Rightarrow>
                membershipLookup lk (if selected then filter (\<lambda>x. x \<noteq> item) current else current @ [item]) lookup))"

definition textTerm :: "jsval table \<Rightarrow> string \<Rightarrow> string" where
  "textTerm this field =
     (case prop_of (case lookup_at this field of None \<Rightarrow> [] | Some l \<Rightarrow> l) ''iContains'' of Str s \<Rightarrow> s | _ \<Rightarrow> [])"

definition withTextTerm :: "jsval table \<Rightarrow> string \<Rightarrow> string \<Rightarrow> jsval table" where
  "withTextTerm this value field =
     (let lookup = (case lookup_at this field of None \<Rightarrow> [] | Some l \<Rightarrow> l);
          trimmed = js_trim value
      in put_lookup this field
           (if trimmed \<noteq> [] then obj_put ''iContains'' (Str trimmed) lookup else obj_del ''iContains'' lookup))"

end
