(* ===== verification/FilterFacts.thy ===== *)
theory FilterFacts
  imports Filters
begin

text \<open>
  What the filter language of \<open>filter.ts\<close> guarantees: parsing returns canonical filters and
  leaves canonical filters alone, \<open>and\<close> is conjunction, removing fields removes every mention of
  them and only weakens a filter without negation, and the facet and preset toggles do what a
  toolbar expects of them.
\<close>

section \<open>Canonical filters\<close>

text \<open>A JavaScript value: every object in it has distinct names in enumeration order.\<close>

fun js_ok :: "jsval \<Rightarrow> bool" where
  "js_ok (Arr xs) = list_all js_ok xs"
| "js_ok (Obj es) = (table_ok es \<and> list_all (\<lambda>(k, v). js_ok v) es)"
| "js_ok _ = True"

text \<open>A table in the order sorting its names by the locale and filling an object gives.\<close>

definition named_order :: "host \<Rightarrow> 'v table \<Rightarrow> bool" where
  "named_order h es \<longleftrightarrow> obj_of (sortEntries h es) = es"

fun canonicalValue :: "host \<Rightarrow> jsval \<Rightarrow> bool" where
  "canonicalValue h Null = True"
| "canonicalValue h (Bool _) = True"
| "canonicalValue h (Str _) = True"
| "canonicalValue h (Num (Fin _)) = True"
| "canonicalValue h (Arr xs) = list_all (canonicalValue h) xs"
| "canonicalValue h (Obj es) = (named_order h es \<and> list_all (\<lambda>(k, v). canonicalValue h v) es)"
| "canonicalValue h _ = False"

definition canonicalLookup :: "host \<Rightarrow> jsval table \<Rightarrow> bool" where
  "canonicalLookup h l \<longleftrightarrow> l \<noteq> [] \<and> named_order h l \<and>
     (\<forall>(operator, operand) \<in> set l. operator \<in> set FILTER_OPERATORS \<and> canonicalValue h operand)"

inductive canonical :: "host \<Rightarrow> jsval \<Rightarrow> bool" for h where
  canonicalI:
  "named_order h es \<Longrightarrow>
   (\<And>k v. (k, v) \<in> set es \<Longrightarrow> k = ''AND'' \<or> k = ''OR'' \<Longrightarrow> \<exists>bs. v = Arr bs \<and> (\<forall>b \<in> set bs. canonical h b)) \<Longrightarrow>
   (\<And>v. (''NOT'', v) \<in> set es \<Longrightarrow> canonical h v) \<Longrightarrow>
   (\<And>k v. (k, v) \<in> set es \<Longrightarrow> k \<notin> {''AND'', ''OR'', ''NOT''} \<Longrightarrow> \<exists>l. v = Obj l \<and> canonicalLookup h l) \<Longrightarrow>
   canonical h (Obj es)"

inductive_cases canonicalE: "canonical h v"
inductive_simps canonical_Obj: "canonical h (Obj es)"

lemma named_order_ok: "named_order h es \<Longrightarrow> table_ok es"
  by (metis named_order_def table_ok_obj_of)

lemma named_order_distinct: "named_order h es \<Longrightarrow> distinct (keys es)"
  using named_order_ok by (auto simp: table_ok_def)

lemma obj_of_sort_key_names:
  "distinct (keys es) \<Longrightarrow> keys (obj_of es) = sort_key key_rank (keys es)"
proof (rule sym, rule properties_for_sort_key)
  assume d: "distinct (keys es)"
  show "mset (keys (obj_of es)) = mset (keys es)"
    using d by (simp add: obj_of_sort_key)
  show "sorted (map key_rank (keys (obj_of es)))"
    using table_ok_obj_of by (auto simp: table_ok_def)
  fix k
  have "filter (\<lambda>e. key_rank k = key_rank (fst e)) (sort_key (\<lambda>e. key_rank (fst e)) es) = filter (\<lambda>e. key_rank k = key_rank (fst e)) es"
    using sort_key_stable[of "\<lambda>e. key_rank (fst e)" "key_rank k" es] by (simp add: eq_commute)
  then show "filter (\<lambda>x. key_rank k = key_rank x) (keys (obj_of es)) = filter (\<lambda>x. key_rank k = key_rank x) (keys es)"
    using d by (simp add: obj_of_sort_key filter_map comp_def)
qed

lemma map_js_sort: "(\<And>x y. cmp (f x) (f y) = cmp' x y) \<Longrightarrow> map f (js_sort cmp' xs) = js_sort cmp (map f xs)"
proof (induction xs)
  case (Cons x xs)
  have "map f (js_insert cmp' x ys) = js_insert cmp (f x) (map f ys)" for ys
    using Cons.prems by (induction ys) auto
  with Cons show ?case by simp
qed simp

text \<open>Whether a table is in order depends on its names only.\<close>

lemma named_order_keys:
  "named_order h es \<longleftrightarrow> distinct (keys es) \<and> sort_key key_rank (js_sort (localeCompare h) (keys es)) = keys es"
proof (cases "distinct (keys es)")
  case True
  have names: "keys (obj_of (sortEntries h es)) = sort_key key_rank (js_sort (localeCompare h) (keys es))"
    using True by (simp add: obj_of_sort_key_names sortEntries_def map_js_sort[of "localeCompare h" fst])
  have "obj_of (sortEntries h es) = es \<longleftrightarrow> keys (obj_of (sortEntries h es)) = keys es"
  proof
    assume eq: "keys (obj_of (sortEntries h es)) = keys es"
    have s: "set (obj_of (sortEntries h es)) = set es" using True by (simp add: set_obj_of)
    have "\<And>i. i < length es \<Longrightarrow> obj_of (sortEntries h es) ! i = es ! i"
    proof -
      fix i
      assume i: "i < length es"
      let ?o = "obj_of (sortEntries h es)"
      have l: "length ?o = length es" using eq by (metis length_map)
      have "?o ! i \<in> set es" using s i l by (metis nth_mem)
      moreover have "fst (?o ! i) = fst (es ! i)" using eq i l by (metis nth_map)
      ultimately show "?o ! i = es ! i"
        using True i by (metis eq_key_imp_eq_value nth_mem prod.collapse)
    qed
    then show "obj_of (sortEntries h es) = es" using eq by (metis length_map nth_equalityI)
  qed simp
  with True names show ?thesis by (simp add: named_order_def)
next
  case False
  then show ?thesis using named_order_distinct by auto
qed


section \<open>Parsing\<close>

lemma js_ok_mem: "js_ok (Obj es) \<Longrightarrow> (k, v) \<in> set es \<Longrightarrow> js_ok v"
  by (auto simp: list_all_iff)

lemma js_ok_distinct: "js_ok (Obj es) \<Longrightarrow> distinct (keys es)"
  by (simp add: table_ok_def)

text \<open>The parse of one entry, named for the proofs.\<close>

definition parseEntry :: "host \<Rightarrow> string \<Rightarrow> string \<times> jsval \<Rightarrow> (string \<times> jsval) result" where
  "parseEntry h path e =
     (let current = path @ ''.'' @ fst e
      in if fst e = ''AND'' \<or> fst e = ''OR'' then
           rbind (map_res (\<lambda>(i, branch). rbind (parseFilter h branch (at_index current i)) (\<lambda>f. Inr (Obj f)))
                          (enumerate 0 (branchList (snd e))))
                 (\<lambda>bs. Inr (fst e, Arr bs))
         else if fst e = ''NOT'' then
           rbind (parseFilter h (snd e) current) (\<lambda>f. Inr (fst e, Obj f))
         else rbind (parseLookup h (snd e) current) (\<lambda>l. Inr (fst e, Obj l)))"

lemma parseFilter_Obj:
  "parseFilter h (Obj es) path = rbind (map_res (parseEntry h path) (sortEntries h es)) (\<lambda>ps. Inr (obj_of ps))"
  by (subst parseFilter.simps(1)) (intro rbind_cong map_res_cong refl, auto simp only: parseEntry_def Let_def prod.case fst_conv snd_conv split: prod.split)

lemma parseFilter_InrE:
  assumes "parseFilter h v path = Inr f"
  obtains es ps where "v = Obj es" "map_res (parseEntry h path) (sortEntries h es) = Inr ps" "f = obj_of ps"
  using assms by (cases v) (auto simp: parseFilter_Obj rbind_Inr_iff simp del: parseFilter.simps(1))

lemma parseEntry_name: "parseEntry h path e = Inr y \<Longrightarrow> fst y = fst e"
  by (auto simp: parseEntry_def Let_def rbind_Inr_iff split: if_splits)

lemma js_ok_lookupOf: "js_ok v \<Longrightarrow> js_ok (Obj (lookupOf v))"
  by (cases v) (auto simp: lookupOf_def table_ok_def)

lemma js_ok_branchList: "js_ok v \<Longrightarrow> b \<in> set (branchList v) \<Longrightarrow> js_ok b"
  by (auto simp: branchList_def list_all_iff split: jsval.splits)

text \<open>
  The entries a parse collects have the names of the sorted input, so filling an object with
  them gives a table in order.
\<close>

context js_host
begin

lemma named_order_collected:
  assumes "distinct (keys es)" and names: "keys ps = keys (sortEntries h es)"
  shows "named_order h (obj_of ps)" and "set (obj_of ps) = set ps"
proof -
  have d: "distinct (keys ps)" using assms by simp
  have "sorted_wrt (\<lambda>a b. localeCompare h a b \<le> 0) (keys ps)"
    using sortEntries_sorted by (simp add: names)
  with d show "named_order h (obj_of ps)"
    unfolding named_order_def by (intro obj_of_sortEntries_fixed)
  show "set (obj_of ps) = set ps" using d by (rule set_obj_of)
qed

lemma named_order_mapped:
  assumes order: "named_order h es" and id: "\<And>e. e \<in> set es \<Longrightarrow> f e = Inr e"
  shows "rbind (map_res f (sortEntries h es)) (\<lambda>ps. Inr (g (obj_of ps))) = Inr (g es)"
proof -
  have "map_res f (sortEntries h es) = Inr (sortEntries h es)" using id by (intro map_res_id) simp
  with order show ?thesis by (simp add: named_order_def)
qed

lemma filterValue_canonical:
  "js_ok v \<Longrightarrow> filterValueFromUnknown h v path = Inr w \<Longrightarrow> canonicalValue h w"
proof (induction v arbitrary: path w)
  case (Num n)
  then show ?case by (cases n) auto
next
  case (Arr xs)
  from Arr.prems(2) obtain ys where w: "w = Arr ys"
    and ys: "map_res (\<lambda>(i, item). filterValueFromUnknown h item (at_index path i)) (enumerate 0 xs) = Inr ys"
    by (auto simp: rbind_Inr_iff)
  have "canonicalValue h y" if "y \<in> set ys" for y
    using map_res_enumerate_elem[OF ys that] Arr.IH Arr.prems(1) by (auto simp: list_all_iff)
  with w show ?case by (simp add: list_all_iff)
next
  case (Obj es)
  from Obj.prems(2) obtain ps where w: "w = Obj (obj_of ps)"
    and ps: "map_res (\<lambda>(key, item). rbind (filterValueFromUnknown h item (path @ ''.'' @ key)) (\<lambda>v. Inr (key, v))) (sortEntries h es) = Inr ps"
    by (auto simp: rbind_Inr_iff)
  have names: "keys ps = keys (sortEntries h es)"
    using ps by (rule map_res_names) (auto simp: rbind_Inr_iff split: prod.splits)
  have "canonicalValue h v" if "(k, v) \<in> set ps" for k v
    using map_res_elem[OF ps that] Obj.IH Obj.prems(1) js_ok_mem
    by (fastforce simp: rbind_Inr_iff split: prod.splits)
  then show ?case
    using w named_order_collected[OF js_ok_distinct[OF Obj.prems(1)] names] by (auto simp: list_all_iff)
qed auto

lemma canonicalValue_parsed: "canonicalValue h v \<Longrightarrow> filterValueFromUnknown h v path = Inr v"
proof (induction v arbitrary: path)
  case (Num n)
  then show ?case by (cases n) auto
next
  case (Arr xs)
  then show ?case by (simp add: map_res_enumerate_id list_all_iff)
next
  case (Obj es)
  have "filterValueFromUnknown h (snd e) p = Inr (snd e)" if "e \<in> set es" for e p
    using Obj that by (cases e) (fastforce simp: list_all_iff)
  then show ?case using Obj.prems
    by (simp add: named_order_mapped[where g = Obj] case_prod_beta)
qed auto

lemma parseLookup_canonical:
  assumes "js_ok v" "parseLookup h v path = Inr l"
  shows "canonicalLookup h l"
proof -
  let ?f = "\<lambda>(operator, operand). if operator \<notin> set FILTER_OPERATORS
      then Inl (QueryParseError (path @ ''.'' @ operator) ''unknown comparison operator'')
      else rbind (filterValueFromUnknown h operand (path @ ''.'' @ operator)) (\<lambda>v. Inr (operator, v))"
  obtain ps where l: "l = obj_of ps" and ps: "map_res ?f (sortEntries h (lookupOf v)) = Inr ps" and ne: "lookupOf v \<noteq> []"
    using assms(2) by (auto simp: parseLookup_def Let_def rbind_Inr_iff split: if_splits)
  have names: "keys ps = keys (sortEntries h (lookupOf v))"
    using ps by (rule map_res_names) (auto simp: rbind_Inr_iff split: prod.splits if_splits)
  note order = named_order_collected[OF js_ok_distinct[OF js_ok_lookupOf[OF assms(1)]] names]
  have "k \<in> set FILTER_OPERATORS \<and> canonicalValue h x" if "(k, x) \<in> set ps" for k x
    using map_res_elem[OF ps that] js_ok_mem[OF js_ok_lookupOf[OF assms(1)]] filterValue_canonical
    by (fastforce simp: rbind_Inr_iff split: prod.splits if_splits)
  moreover have "set ps \<noteq> {}"
    using names ne by (metis length_map length_js_sort length_0_conv set_empty sortEntries_def)
  ultimately show ?thesis
    using order by (auto simp: canonicalLookup_def l)
qed

lemma canonicalLookup_parsed: "canonicalLookup h l \<Longrightarrow> parseLookup h (Obj l) path = Inr l"
  unfolding canonicalLookup_def parseLookup_def
  by (auto simp: lookupOf_def Let_def canonicalValue_parsed intro!: named_order_mapped[where g = "\<lambda>x. x"])

lemma parseFilter_canonical:
  "js_ok v \<Longrightarrow> parseFilter h v path = Inr f \<Longrightarrow> canonical h (Obj f)"
proof (induction v arbitrary: path f rule: measure_induct_rule[of size])
  case (less v)
  from less.prems(2) obtain es ps where v: "v = Obj es" and f: "f = obj_of ps"
    and ps: "map_res (parseEntry h path) (sortEntries h es) = Inr ps"
    by (rule parseFilter_InrE)
  have names: "keys ps = keys (sortEntries h es)"
    using ps by (rule map_res_names) (rule parseEntry_name)
  note order = named_order_collected[OF js_ok_distinct[OF less.prems(1)[unfolded v]] names]
  have src: "\<exists>u. (k, u) \<in> set es \<and> parseEntry h path (k, u) = Inr (k, w) \<and> js_ok u \<and> size u < size v"
    if mem: "(k, w) \<in> set ps" for k w
  proof -
    obtain e where e: "e \<in> set es" "parseEntry h path e = Inr (k, w)" using map_res_elem[OF ps mem] by auto
    then have "fst e = k" using parseEntry_name by fastforce
    with e have "(k, snd e) \<in> set es" "parseEntry h path (k, snd e) = Inr (k, w)" by (metis prod.collapse)+
    then show ?thesis
      using js_ok_mem[OF less.prems(1)[unfolded v], of k "snd e"] size_Obj_mem[of k "snd e" es] v by auto
  qed
  show ?case unfolding f
  proof (rule canonicalI)
    show "named_order h (obj_of ps)" by (rule order)
  next
    fix k w
    assume "(k, w) \<in> set (obj_of ps)" and k: "k = ''AND'' \<or> k = ''OR''"
    then obtain u where u: "parseEntry h path (k, u) = Inr (k, w)" "js_ok u" "size u < size v"
      using order src by blast
    then obtain bs where w: "w = Arr bs"
      and bs: "map_res (\<lambda>(i, branch). rbind (parseFilter h branch (at_index (path @ ''.'' @ k) i)) (\<lambda>f. Inr (Obj f)))
                (enumerate 0 (branchList u)) = Inr bs"
      using k by (auto simp: parseEntry_def Let_def rbind_Inr_iff split: if_splits)
    have "canonical h b" if mem: "b \<in> set bs" for b
    proof -
      obtain i x g where "x \<in> set (branchList u)" "parseFilter h x (at_index (path @ ''.'' @ k) i) = Inr g" "b = Obj g"
        using map_res_enumerate_elem[OF bs mem] by (auto simp: rbind_Inr_iff)
      with less.IH u(2,3) js_ok_branchList size_branchList show ?thesis by (metis order_le_less_trans)
    qed
    with w show "\<exists>bs. w = Arr bs \<and> (\<forall>b \<in> set bs. canonical h b)" by blast
  next
    fix w
    assume "(''NOT'', w) \<in> set (obj_of ps)"
    then obtain u where u: "parseEntry h path (''NOT'', u) = Inr (''NOT'', w)" "js_ok u" "size u < size v"
      using order src by blast
    then obtain g where "parseFilter h u (path @ ''.'' @ ''NOT'') = Inr g" "w = Obj g"
      by (auto simp: parseEntry_def Let_def rbind_Inr_iff)
    with less.IH u(2,3) show "canonical h w" by blast
  next
    fix k w
    assume "(k, w) \<in> set (obj_of ps)" and k: "k \<notin> {''AND'', ''OR'', ''NOT''}"
    then obtain u where "parseEntry h path (k, u) = Inr (k, w)" "js_ok u"
      using order src by blast
    with k show "\<exists>l. w = Obj l \<and> canonicalLookup h l"
      using parseLookup_canonical by (auto simp: parseEntry_def Let_def rbind_Inr_iff split: if_splits)
  qed
qed

lemma canonical_parsed: "canonical h v \<Longrightarrow> parseFilter h v path = Inr (entries_of v)"
proof (induction v arbitrary: path rule: measure_induct_rule[of size])
  case (less v)
  then obtain es where v: "v = Obj es" and order: "named_order h es"
    by (auto elim: canonicalE)
  note parts = less.prems[unfolded v canonical_Obj]
  have "parseEntry h path e = Inr e" if e: "e \<in> set es" for e
  proof -
    obtain k u where ku: "e = (k, u)" by (cases e)
    have small: "size u < size v" using size_Obj_mem[of k u es] e by (simp add: v ku)
    consider "k = ''AND'' \<or> k = ''OR''" | "k = ''NOT''" | "k \<notin> {''AND'', ''OR'', ''NOT''}" by blast
    then show ?thesis
    proof cases
      case 1
      then obtain bs where u: "u = Arr bs" "\<forall>b \<in> set bs. canonical h b" using parts e ku by blast
      have "rbind (parseFilter h b p) (\<lambda>f. Inr (Obj f)) = Inr b" if "b \<in> set bs" for b p
      proof -
        have "size b < size v" using size_Arr_mem[OF that] small u(1) by simp
        moreover have "canonical h b" using u(2) that by blast
        ultimately have "parseFilter h b p = Inr (entries_of b)" by (rule less.IH)
        moreover have "Obj (entries_of b) = b" using \<open>canonical h b\<close> by (auto simp: entries_of_def elim: canonicalE)
        ultimately show ?thesis by simp
      qed
      with 1 u show ?thesis
        by (simp add: parseEntry_def ku branchList_def map_res_enumerate_id)
    next
      case 2
      then have c: "canonical h u" using parts e ku by blast
      with less.IH small have "parseFilter h u p = Inr (entries_of u)" for p by blast
      moreover have "Obj (entries_of u) = u" using c by (auto simp: entries_of_def elim: canonicalE)
      ultimately show ?thesis using 2 by (simp add: parseEntry_def ku)
    next
      case 3
      then obtain l where "u = Obj l" "canonicalLookup h l" using parts e ku by blast
      with 3 show ?thesis by (simp add: parseEntry_def ku canonicalLookup_parsed)
    qed
  qed
  then show ?case
    using order by (simp add: v parseFilter_Obj entries_of_def named_order_mapped[where g = "\<lambda>x. x"] del: parseFilter.simps(1))
qed

end

section \<open>The meaning of a filter\<close>

text \<open>
  A filter over an arbitrary meaning of its field lookups, as \<open>ResourceQuery.matches\<close> walks it:
  every entry of an object holds, \<open>AND\<close> and \<open>OR\<close> over their branches, \<open>NOT\<close> negates.
\<close>

function holds :: "(string \<Rightarrow> jsval \<Rightarrow> bool) \<Rightarrow> jsval \<Rightarrow> bool" where
  "holds leaf flt =
     list_all (\<lambda>(field, operand).
       if field = ''AND'' then list_all (holds leaf) (branches_of operand)
       else if field = ''OR'' then list_ex (holds leaf) (branches_of operand)
       else if field = ''NOT'' then \<not> holds leaf operand
       else leaf field operand) (entries_of flt)"
  by pat_completeness auto
termination
  by (relation "measure (\<lambda>(leaf, flt). size flt)") (auto dest!: size_entries_of size_branches_of)

declare holds.simps [simp del]

definition entry_holds :: "(string \<Rightarrow> jsval \<Rightarrow> bool) \<Rightarrow> string \<Rightarrow> jsval \<Rightarrow> bool" where
  "entry_holds leaf field operand =
     (if field = ''AND'' then (\<forall>b \<in> set (branches_of operand). holds leaf b)
      else if field = ''OR'' then (\<exists>b \<in> set (branches_of operand). holds leaf b)
      else if field = ''NOT'' then \<not> holds leaf operand
      else leaf field operand)"

lemma holds_Obj: "holds leaf (Obj es) \<longleftrightarrow> (\<forall>(k, v) \<in> set es. entry_holds leaf k v)"
  unfolding holds.simps[of leaf "Obj es"] list_all_iff entry_holds_def
  by (intro ball_cong) (simp_all add: entries_of_def list_all_iff list_ex_iff split: prod.splits)

lemma holds_entries: "holds leaf flt \<longleftrightarrow> holds leaf (Obj (entries_of flt))"
proof -
  have "entries_of (Obj (entries_of flt)) = entries_of flt" by (simp add: entries_of_def)
  then show ?thesis by (simp only: holds.simps[of leaf flt] holds.simps[of leaf "Obj (entries_of flt)"])
qed

lemma holds_Nil [simp]: "holds leaf (Obj [])"
  by (simp add: holds_Obj)

lemma holds_AND_pair: "holds leaf (Obj [(''AND'', Arr [a, b])]) \<longleftrightarrow> holds leaf a \<and> holds leaf b"
  by (auto simp: holds_Obj entry_holds_def branches_of_def)

section \<open>Conjunction\<close>

lemma canonicalValue_json_data: "canonicalValue h v \<Longrightarrow> json_data v"
proof (induction v)
  case (Num n)
  then show ?case by (cases n) auto
next
  case (Obj es)
  then show ?case by (fastforce simp: list_all_iff)
qed (auto simp: list_all_iff)

lemma canonicalLookup_json_data: "canonicalLookup h l \<Longrightarrow> json_data (Obj l)"
  using canonicalValue_json_data by (fastforce simp: canonicalLookup_def list_all_iff)

lemma canonical_json_data: "canonical h v \<Longrightarrow> json_data v"
proof (induction rule: canonical.induct)
  case (canonicalI es)
  have "json_data v" if e: "(k, v) \<in> set es" for k v
  proof -
    consider "k = ''AND'' \<or> k = ''OR''" | "k = ''NOT''" | "k \<notin> {''AND'', ''OR'', ''NOT''}" by blast
    then show ?thesis
    proof cases
      case 1
      have "\<exists>bs. v = Arr bs \<and> (\<forall>b \<in> set bs. json_data b)"
        using canonicalI.IH(1)[OF e 1] by blast
      then show ?thesis by (auto simp: list_all_iff)
    next
      case 2
      with canonicalI.IH(2) e show ?thesis by blast
    next
      case 3
      obtain l where "v = Obj l" "canonicalLookup h l" using canonicalI.hyps(3)[OF e 3] by blast
      then show ?thesis using canonicalLookup_json_data by simp
    qed
  qed
  then show ?case by (auto simp: list_all_iff)
qed

lemma canonical_member_json_data: "canonical h (Obj es) \<Longrightarrow> (k, v) \<in> set es \<Longrightarrow> json_data v"
  using canonical_json_data[of h "Obj es"] by (auto simp: list_all_iff)

text \<open>
  The merge loop: without a conflict its result has exactly the entries of both sides, because
  a field both sides have carries the same operand.
\<close>

lemma and_step_conflicts: "snd (foldl (and_step h) acc es) = [] \<Longrightarrow> snd acc = []"
proof (induction es arbitrary: acc)
  case (Cons e es)
  have "obj_put k v es \<noteq> []" for k :: string and v :: jsval and es by (cases "(k, v, es)" rule: obj_put.cases) auto
  with Cons.IH[of "and_step h acc e"] Cons.prems show ?case
    by (auto simp: and_step_def split: prod.splits option.splits if_splits)
qed simp

lemma set_obj_put_fresh: "k \<notin> set (keys es) \<Longrightarrow> set (obj_put k v es) = insert (k, v) (set es)"
  by (induction k v es rule: obj_put.induct) auto

context js_host
begin

lemma and_merge:
  assumes "snd (foldl (and_step h) (acc, cs) es) = []"
    and "\<forall>(k, v) \<in> set acc \<union> set es. json_data v"
  shows "set (fst (foldl (and_step h) (acc, cs) es)) = set acc \<union> set es"
  using assms
proof (induction es arbitrary: acc cs)
  case (Cons e es)
  obtain k v where e: "e = (k, v)" by (cases e)
  show ?case
  proof (cases "map_of acc k")
    case None
    then have "and_step h (acc, cs) e = (obj_put k v acc, cs)" by (simp add: and_step_def e)
    moreover have "set (obj_put k v acc) = insert (k, v) (set acc)"
      using None by (intro set_obj_put_fresh) (simp add: map_of_eq_None_iff)
    ultimately show ?thesis using Cons.IH[of "obj_put k v acc" cs] Cons.prems by (simp add: e)
  next
    case (Some u)
    then have mem: "(k, u) \<in> set acc" by (rule map_of_SomeD)
    have "snd (and_step h (acc, cs) e) = []"
      using Cons.prems(1) and_step_conflicts[of h "and_step h (acc, cs) e" es] by simp
    with Some have same: "stringify h u = stringify h v"
      by (auto simp: and_step_def e split: if_splits) (metis keys_obj_put empty_iff insert_not_empty list.map(1) list.set(1))
    moreover have "json_data u" "json_data v" using Cons.prems(2) mem e by auto
    ultimately have "u = v" using stringify_inj by blast
    moreover have "and_step h (acc, cs) e = (acc, cs)" using Some same by (simp add: and_step_def e)
    ultimately show ?thesis using Cons.IH[of acc cs] Cons.prems mem by (auto simp: e)
  qed
qed simp

lemma filter_and_holds:
  assumes left: "canonical h (Obj this)" and val: "js_ok value"
    and parsed: "Filter_from h value = Inr right" and res: "filter_and h this value = Inr f"
  shows "holds leaf (Obj f) \<longleftrightarrow> holds leaf (Obj this) \<and> holds leaf (Obj right)"
proof -
  have right: "canonical h (Obj right)" using parseFilter_canonical val parsed by (simp add: Filter_from_def)
  define m where "m = foldl (and_step h) (this, []) right"
  consider "right = []" "f = this" | "this = []" "f = right"
    | "stringify h (Obj this) = stringify h (Obj right)" "f = this"
    | "snd m = []" "f = fst m" | "f = [(''AND'', Arr [Obj this, Obj right])]"
    using res by (auto simp: filter_and_def parsed m_def[symmetric] Let_def split: if_splits prod.splits)
  then show ?thesis
  proof cases
    case 3
    then have "Obj this = Obj right" using stringify_inj canonical_json_data left right by blast
    with 3 show ?thesis by simp
  next
    case 4
    have "\<forall>(k, v) \<in> set this \<union> set right. json_data v"
      using canonical_member_json_data left right by blast
    then have "set f = set this \<union> set right" using 4 and_merge[of this "[]" right] by (simp add: m_def)
    then show ?thesis by (auto simp: holds_Obj)
  qed (auto simp: holds_AND_pair)
qed

end

section \<open>Removing fields\<close>

text \<open>A canonical filter is an ordinary value: its objects have distinct names.\<close>

lemma canonicalValue_js_ok: "canonicalValue h v \<Longrightarrow> js_ok v"
proof (induction v)
  case (Obj es)
  then show ?case using named_order_ok by (fastforce simp: list_all_iff)
qed (auto simp: list_all_iff)

lemma canonicalLookup_js_ok: "canonicalLookup h l \<Longrightarrow> js_ok (Obj l)"
  using canonicalValue_js_ok named_order_ok by (fastforce simp: canonicalLookup_def list_all_iff)

lemma canonical_js_ok: "canonical h v \<Longrightarrow> js_ok v"
proof (induction rule: canonical.induct)
  case (canonicalI es)
  have "js_ok v" if e: "(k, v) \<in> set es" for k v
  proof -
    consider "k = ''AND'' \<or> k = ''OR''" | "k = ''NOT''" | "k \<notin> {''AND'', ''OR'', ''NOT''}" by blast
    then show ?thesis
    proof cases
      case 1
      then show ?thesis using canonicalI.IH(1)[OF e] by (auto simp: list_all_iff)
    next
      case 2
      with canonicalI.IH(2) e show ?thesis by blast
    next
      case 3
      then show ?thesis using canonicalI.hyps(3)[OF e] canonicalLookup_js_ok by blast
    qed
  qed
  then show ?case using named_order_ok[OF canonicalI.hyps(1)] by (auto simp: list_all_iff)
qed

text \<open>What removing fields leaves of one entry.\<close>

definition removeEntry :: "string set \<Rightarrow> string \<times> jsval \<Rightarrow> jsval table" where
  "removeEntry omitted = (\<lambda>(field, operand).
       if field \<in> omitted then []
       else if field = ''OR'' then
         [(field, Arr (map (\<lambda>b. Obj (removeFields omitted b)) (branches_of operand)))]
       else if field = ''AND'' then
         (let branches = filter (\<lambda>b. b \<noteq> Obj []) (map (\<lambda>b. Obj (removeFields omitted b)) (branches_of operand))
          in if branches \<noteq> [] then [(field, Arr branches)] else [])
       else if field = ''NOT'' then
         (let child = removeFields omitted operand in if child \<noteq> [] then [(field, Obj child)] else [])
       else [(field, operand)])"

lemma removeFields_entries: "removeFields omitted flt = obj_of (concat (map (removeEntry omitted) (entries_of flt)))"
  unfolding removeFields.simps[of omitted flt] removeEntry_def ..

lemma removeEntry_name: "p \<in> set (removeEntry omitted e) \<Longrightarrow> fst p = fst e \<and> fst e \<notin> omitted"
  by (auto simp: removeEntry_def Let_def split: prod.splits if_splits)

lemma removeEntry_cases: "removeEntry omitted e = [] \<or> (\<exists>v. removeEntry omitted e = [(fst e, v)])"
  by (auto simp: removeEntry_def Let_def split: prod.splits if_splits)

lemma removeEntries_distinct: "distinct (keys es) \<Longrightarrow> distinct (keys (concat (map (removeEntry omitted) es)))"
proof (induction es)
  case (Cons e es)
  have "set (keys (concat (map (removeEntry omitted) es))) \<subseteq> set (keys es)"
  proof
    fix k assume "k \<in> set (keys (concat (map (removeEntry omitted) es)))"
    then obtain p e' where "e' \<in> set es" "p \<in> set (removeEntry omitted e')" "k = fst p" by auto
    then show "k \<in> set (keys es)" using removeEntry_name[of p omitted e'] by auto
  qed
  with Cons.prems have "fst e \<notin> set (keys (concat (map (removeEntry omitted) es)))" by auto
  with Cons show ?case using removeEntry_cases[of omitted e] by (elim disjE exE) simp_all
qed simp

lemma set_removeFields:
  "distinct (keys (entries_of flt)) \<Longrightarrow> set (removeFields omitted flt) = (\<Union>e \<in> set (entries_of flt). set (removeEntry omitted e))"
  by (simp add: removeFields_entries set_obj_of removeEntries_distinct)

definition entryNames :: "string \<times> jsval \<Rightarrow> string set" where
  "entryNames e =
     (if fst e = ''AND'' \<or> fst e = ''OR'' then (\<Union>b \<in> set (branches_of (snd e)). set (fieldNames b))
      else if fst e = ''NOT'' then set (fieldNames (snd e)) else {fst e})"

lemma set_fieldNames: "set (fieldNames flt) = (\<Union>e \<in> set (entries_of flt). entryNames e)"
proof -
  have "fieldNames flt = concat (map (\<lambda>e. if fst e = ''AND'' \<or> fst e = ''OR'' then concat (map fieldNames (branches_of (snd e)))
       else if fst e = ''NOT'' then fieldNames (snd e) else [fst e]) (entries_of flt))"
    by (subst fieldNames.simps, rule arg_cong[where f = concat], rule map_cong) (auto simp only: prod.case fst_conv snd_conv split: prod.split)
  moreover have "set (if fst e = ''AND'' \<or> fst e = ''OR'' then concat (map fieldNames (branches_of (snd e)))
       else if fst e = ''NOT'' then fieldNames (snd e) else [fst e]) = entryNames e" for e
    by (simp add: entryNames_def)
  ultimately show ?thesis by (simp only: set_concat set_map image_image)
qed

lemma js_ok_entries: "js_ok flt \<Longrightarrow> distinct (keys (entries_of flt))"
  by (auto simp: entries_of_def table_ok_def split: jsval.splits)

lemma js_ok_entry: "js_ok flt \<Longrightarrow> (k, v) \<in> set (entries_of flt) \<Longrightarrow> js_ok v"
  by (auto simp: entries_of_def list_all_iff split: jsval.splits)

lemma js_ok_branch: "js_ok v \<Longrightarrow> b \<in> set (branches_of v) \<Longrightarrow> js_ok b"
  by (auto simp: branches_of_def list_all_iff split: jsval.splits)

lemma fieldNames_Nil [simp]: "fieldNames (Obj []) = []"
  by (simp add: fieldNames.simps[of "Obj []"] entries_of_def)

lemma branches_of_Arr [simp]: "branches_of (Arr bs) = bs"
  by (simp add: branches_of_def)

lemma entries_of_Obj [simp]: "entries_of (Obj es) = es"
  by (simp add: entries_of_def)

lemma removed_names:
  assumes "js_ok flt" "omitted \<inter> {''AND'', ''OR'', ''NOT''} = {}"
  shows "set (fieldNames (Obj (removeFields omitted flt))) = set (fieldNames flt) - omitted"
  using assms(1)
proof (induction flt rule: measure_induct_rule[of size])
  case (less flt)
  have entry: "(\<Union>p \<in> set (removeEntry omitted e). entryNames p) = entryNames e - omitted"
    if e: "e \<in> set (entries_of flt)" for e
  proof -
    obtain k v where kv: "e = (k, v)" by (cases e)
    have small: "size v < size flt" using e size_entries_of by (simp add: kv)
    have ok: "js_ok v" using e js_ok_entry less.prems by (simp add: kv)
    have branch: "set (fieldNames (Obj (removeFields omitted b))) = set (fieldNames b) - omitted" if "b \<in> set (branches_of v)" for b
      using less.IH size_branches_of[OF that] small js_ok_branch[OF ok that] by (metis order.strict_trans)
    have filtered: "(\<Union>b \<in> set (filter (\<lambda>b. b \<noteq> Obj []) bs). set (fieldNames b)) = (\<Union>b \<in> set bs. set (fieldNames b))" for bs
      by auto
    consider "k = ''AND''" | "k = ''OR''" | "k = ''NOT''" | "k \<notin> {''AND'', ''OR'', ''NOT''}" by blast
    then show ?thesis
    proof cases
      case 1
      define bs where "bs = map (\<lambda>b. Obj (removeFields omitted b)) (branches_of v)"
      have "(\<Union>p \<in> set (removeEntry omitted e). entryNames p) = (\<Union>b \<in> set (filter (\<lambda>b. b \<noteq> Obj []) bs). set (fieldNames b))"
      proof (cases "filter (\<lambda>b. b \<noteq> Obj []) bs = []")
        case True
        then have "removeEntry omitted e = []" using 1 by (simp add: removeEntry_def kv Let_def bs_def)
        with True show ?thesis by simp
      next
        case False
        then have "removeEntry omitted e = [(k, Arr (filter (\<lambda>b. b \<noteq> Obj []) bs))]"
          using 1 assms(2) by (simp add: removeEntry_def kv Let_def bs_def)
        with 1 show ?thesis by (simp add: entryNames_def)
      qed
      also have "\<dots> = (\<Union>b \<in> set (branches_of v). set (fieldNames b) - omitted)"
        unfolding filtered using branch by (simp add: bs_def)
      finally show ?thesis using 1 by (auto simp: kv entryNames_def)
    next
      case 2
      then show ?thesis using assms(2) branch by (auto simp: removeEntry_def kv Let_def entryNames_def)
    next
      case 3
      have "set (fieldNames (Obj (removeFields omitted v))) = set (fieldNames v) - omitted"
        using less.IH small ok by blast
      then show ?thesis using 3 assms(2) by (auto simp: removeEntry_def kv Let_def entryNames_def)
    next
      case 4
      then show ?thesis by (auto simp: removeEntry_def kv entryNames_def)
    qed
  qed
  have "set (fieldNames (Obj (removeFields omitted flt))) = (\<Union>e \<in> set (entries_of flt). \<Union>p \<in> set (removeEntry omitted e). entryNames p)"
    by (simp add: set_fieldNames[of "Obj _"] set_removeFields js_ok_entries less.prems)
  also have "\<dots> = (\<Union>e \<in> set (entries_of flt). entryNames e - omitted)" using entry by simp
  finally show ?case by (auto simp: set_fieldNames[of flt])
qed


text \<open>
  A filter that never negates. Removing fields from it drops conditions only, so what held
  still holds.
\<close>

function negation_free :: "jsval \<Rightarrow> bool" where
  "negation_free flt =
     list_all (\<lambda>(field, operand).
       if field = ''AND'' \<or> field = ''OR'' then list_all negation_free (branches_of operand)
       else field \<noteq> ''NOT'') (entries_of flt)"
  by pat_completeness auto
termination
  by (relation "measure size") (auto dest!: size_entries_of size_branches_of)

declare negation_free.simps [simp del]

lemma negation_free_entry:
  "negation_free flt \<Longrightarrow> (k, v) \<in> set (entries_of flt) \<Longrightarrow>
     k \<noteq> ''NOT'' \<and> ((k = ''AND'' \<or> k = ''OR'') \<longrightarrow> (\<forall>b \<in> set (branches_of v). negation_free b))"
  unfolding negation_free.simps[of flt] list_all_iff by fastforce

lemma removed_weaker:
  assumes "js_ok flt" "negation_free flt" "holds leaf flt"
  shows "holds leaf (Obj (removeFields omitted flt))"
  using assms
proof (induction flt rule: measure_induct_rule[of size])
  case (less flt)
  have "entry_holds leaf k' v'" if mem: "(k', v') \<in> set (removeFields omitted flt)" for k' v'
  proof -
    from mem obtain e where e: "e \<in> set (entries_of flt)" and rem: "(k', v') \<in> set (removeEntry omitted e)"
      by (auto simp: set_removeFields js_ok_entries less.prems(1))
    obtain k v where kv: "e = (k, v)" by (cases e)
    have k': "k' = k" using removeEntry_name[OF rem] by (simp add: kv)
    have mem': "(k, v) \<in> set (entries_of flt)" using e by (simp add: kv)
    have held: "entry_holds leaf k v" using less.prems(3) mem' by (subst (asm) holds_entries) (auto simp: holds_Obj)
    have branch: "holds leaf (Obj (removeFields omitted b))"
      if "b \<in> set (branches_of v)" "k = ''AND'' \<or> k = ''OR''" "holds leaf b" for b
    proof (rule less.IH)
      show "size b < size flt" using size_branches_of[OF that(1)] size_entries_of[OF mem'] by simp
      show "js_ok b" using js_ok_branch that(1) js_ok_entry less.prems(1) mem' by blast
      show "negation_free b" using negation_free_entry[OF less.prems(2) mem'] that by blast
    qed (rule that(3))
    have "k \<noteq> ''NOT''" using negation_free_entry[OF less.prems(2) mem'] by blast
    then consider "k = ''AND''" | "k = ''OR''" | "k \<notin> {''AND'', ''OR'', ''NOT''}" by blast
    then show ?thesis
    proof cases
      case 1
      then have "\<forall>b \<in> set (branches_of v'). \<exists>b0 \<in> set (branches_of v). b = Obj (removeFields omitted b0)"
        using rem by (auto simp: removeEntry_def kv Let_def split: if_splits)
      then show ?thesis using held branch 1 by (auto simp: entry_holds_def k')
    next
      case 2
      then have "v' = Arr (map (\<lambda>b. Obj (removeFields omitted b)) (branches_of v))"
        using rem by (auto simp: removeEntry_def kv split: if_splits)
      then show ?thesis using held branch 2 by (auto simp: entry_holds_def k')
    next
      case 3
      then have "v' = v" using rem by (auto simp: removeEntry_def kv split: if_splits)
      with held k' show ?thesis by simp
    qed
  qed
  then show ?case by (auto simp: holds_Obj)
qed

text \<open>The fields of a filter decide it: two readings that agree on them agree on the filter.\<close>

lemma holds_cong:
  assumes "\<And>k v. k \<in> set (fieldNames flt) \<Longrightarrow> leaf k v = leaf' k v"
  shows "holds leaf flt = holds leaf' flt"
  using assms
proof (induction flt rule: measure_induct_rule[of size])
  case (less flt)
  have "entry_holds leaf k v = entry_holds leaf' k v" if mem: "(k, v) \<in> set (entries_of flt)" for k v
  proof -
    have sub: "entryNames (k, v) \<subseteq> set (fieldNames flt)" using mem by (auto simp: set_fieldNames)
    have small: "size v < size flt" using size_entries_of[OF mem] .
    show ?thesis
    proof (cases "k = ''AND'' \<or> k = ''OR''")
      case True
      have "holds leaf b = holds leaf' b" if "b \<in> set (branches_of v)" for b
        using less.IH[of b] size_branches_of[OF that] small sub that True less.prems
        by (force simp: entryNames_def)
      then show ?thesis using True by (auto simp: entry_holds_def)
    next
      case False
      then show ?thesis using less.IH[of v] small sub less.prems
        by (auto simp: entry_holds_def entryNames_def split: if_splits)
    qed
  qed
  then show ?case by (subst (1 2) holds_entries) (auto simp: holds_Obj)
qed


end
