(* ===== verification/FilterToggles.thy ===== *)
theory FilterToggles
  imports FilterFacts
begin

text \<open>
  The toolbar operations of \<open>filter.ts\<close>: facets, text terms and presets. Toggling a facet adds
  or removes its value and nothing else, a text term reads back as it was written, and toggling
  a preset of plain field conditions switches it on or off.
\<close>

declare parseFilter.simps(1) [simp del] stringify.simps [simp del]

section \<open>Facets and text terms\<close>

lemma lookup_at_put_lookup:
  "lookup_at (put_lookup next field lookup) f =
     (if f = field then (if lookup = [] then None else Some lookup) else lookup_at next f)"
  by (simp add: lookup_at_def put_lookup_def split: option.splits jsval.splits)

definition lookup_or_empty :: "jsval table \<Rightarrow> string \<Rightarrow> jsval table" where
  "lookup_or_empty this field = (case lookup_at this field of None \<Rightarrow> [] | Some l \<Rightarrow> l)"

lemma lookup_or_empty_put:
  "lookup_or_empty (put_lookup next field lookup) f = (if f = field then lookup else lookup_or_empty next f)"
  by (simp add: lookup_or_empty_def lookup_at_put_lookup)

lemma prop_of_put [simp]: "prop_of (obj_put k v o') x = (if x = k then v else prop_of o' x)"
  by (simp add: prop_of_def)

lemma prop_of_del [simp]: "prop_of (obj_del k o') x = (if x = k then Undefined else prop_of o' x)"
  by (simp add: prop_of_def)

lemma prop_of_Nil [simp]: "prop_of [] x = Undefined"
  by (simp add: prop_of_def)

definition strings_of :: "jsval \<Rightarrow> string list" where
  "strings_of v = (case v of Str s \<Rightarrow> [s] | Arr xs \<Rightarrow> concat (map (\<lambda>x. case x of Str s \<Rightarrow> [s] | _ \<Rightarrow> []) xs) | _ \<Rightarrow> [])"

lemma strings_of_simps [simp]:
  "strings_of (Str s) = [s]" "strings_of Undefined = []" "strings_of (Arr (map Str ss)) = ss"
  by (simp_all add: strings_of_def comp_def)

lemma facetValues_lookup:
  "facetValues this field lk =
     (let lookup = lookup_or_empty this field; operator = (case lk of None \<Rightarrow> ''exact'' | Some l \<Rightarrow> l)
      in strings_of (if operator = ''exact'' \<and> is_nullish (prop_of lookup ''exact'') then prop_of lookup ''inList''
                     else prop_of lookup operator))"
  by (simp add: facetValues_def lookup_or_empty_def strings_of_def Let_def)

text \<open>The values a toggle leaves selected.\<close>

definition toggled :: "string \<Rightarrow> string list \<Rightarrow> string list" where
  "toggled item current = (if item \<in> set current then filter (\<lambda>x. x \<noteq> item) current else current @ [item])"

lemma toggled_twice: "item \<notin> set current \<Longrightarrow> toggled item (toggled item current) = current"
  by (auto simp: toggled_def intro!: filter_True)

lemma toggleFacet_lookup:
  "toggleFacet this facet =
     (let field = facet_field facet; item = facet_value facet; lk = facet_lookup facet;
          current = facetValues this field lk; lookup = lookup_or_empty this field
      in put_lookup this field
           (case lk of
              Some l \<Rightarrow>
                if l \<noteq> [] \<and> l \<noteq> ''exact'' \<and> l \<noteq> ''inList''
                then (if item \<in> set current then obj_del l lookup else obj_put l (Str item) lookup)
                else membershipLookup lk (toggled item current) lookup
            | None \<Rightarrow> membershipLookup lk (toggled item current) lookup))"
  by (simp add: toggleFacet_def lookup_or_empty_def toggled_def Let_def split: option.split)

lemma facetValues_membership:
  assumes "lk \<in> {None, Some ''exact'', Some ''inList''}"
    and "lookup_or_empty this field = membershipLookup lk values lookup"
  shows "facetValues this field lk = values"
proof -
  consider "values = []" | s where "values = [s]" | s t ss where "values = s # t # ss"
    by (metis list.exhaust)
  then show ?thesis
    using assms(1) by cases (auto simp: facetValues_lookup assms(2) membershipLookup_def Let_def is_nullish_def simp flip: list.map(2))
qed

lemma toggleFacet_put:
  "facet_lookup facet \<in> {None, Some ''exact'', Some ''inList''} \<Longrightarrow>
   toggleFacet this facet = put_lookup this (facet_field facet)
     (membershipLookup (facet_lookup facet)
        (toggled (facet_value facet) (facetValues this (facet_field facet) (facet_lookup facet)))
        (lookup_or_empty this (facet_field facet)))"
  by (auto simp: toggleFacet_lookup Let_def)

text \<open>
  Toggling a membership facet adds its value when it was not selected and removes it when it
  was; the facets of every other field, and the comparisons of the same field other than
  \<open>exact\<close> and \<open>inList\<close>, stay as they were.
\<close>

theorem toggleFacet_membership:
  assumes "facet_lookup facet \<in> {None, Some ''exact'', Some ''inList''}"
  shows "facetValues (toggleFacet this facet) (facet_field facet) (facet_lookup facet)
           = toggled (facet_value facet) (facetValues this (facet_field facet) (facet_lookup facet)) \<and>
         (\<forall>f lk. f \<noteq> facet_field facet \<longrightarrow> facetValues (toggleFacet this facet) f lk = facetValues this f lk) \<and>
         (\<forall>operator. operator \<notin> {''exact'', ''inList''} \<longrightarrow>
           prop_of (lookup_or_empty (toggleFacet this facet) (facet_field facet)) operator
             = prop_of (lookup_or_empty this (facet_field facet)) operator)"
proof (intro conjI allI impI)
  show "facetValues (toggleFacet this facet) (facet_field facet) (facet_lookup facet)
           = toggled (facet_value facet) (facetValues this (facet_field facet) (facet_lookup facet))"
    by (rule facetValues_membership[OF assms]) (simp add: toggleFacet_put[OF assms] lookup_or_empty_put)
next
  fix f lk assume "f \<noteq> facet_field facet"
  then show "facetValues (toggleFacet this facet) f lk = facetValues this f lk"
    by (simp add: toggleFacet_put[OF assms] facetValues_lookup lookup_or_empty_put)
next
  fix operator assume "operator \<notin> {''exact'', ''inList''}"
  then show "prop_of (lookup_or_empty (toggleFacet this facet) (facet_field facet)) operator
      = prop_of (lookup_or_empty this (facet_field facet)) operator"
    by (simp add: toggleFacet_put[OF assms] lookup_or_empty_put membershipLookup_def Let_def)
qed

theorem toggleFacet_membership_witness:
  "facetValues (toggleFacet [(''status'', Obj [(''exact'', Str ''open'')])]
      \<lparr>facet_field = ''status'', facet_value = ''done'', facet_lookup = None\<rparr>) ''status'' None = [''open'', ''done'']"
  using toggleFacet_membership[of "\<lparr>facet_field = ''status'', facet_value = ''done'', facet_lookup = None\<rparr>"
      "[(''status'', Obj [(''exact'', Str ''open'')])]"]
  by (simp add: facetValues_def lookup_at_def prop_of_def is_nullish_def toggled_def)

text \<open>
  A facet on any other comparison operator is a switch: toggling it selects exactly its
  value when it was not selected, and clears that comparison when it was.
\<close>

lemma toggleFacet_operator:
  assumes "facet_lookup facet = Some l" "l \<notin> {[], ''exact'', ''inList''}"
  shows "facetValues (toggleFacet this facet) (facet_field facet) (Some l)
           = (if facet_value facet \<in> set (facetValues this (facet_field facet) (Some l)) then [] else [facet_value facet])"
  using assms by (simp add: toggleFacet_lookup Let_def facetValues_lookup lookup_or_empty_put)

text \<open>
  The text term written for a field reads back trimmed, the text terms of the other fields
  are untouched, and writing what is already there changes nothing of what reads back.
\<close>

lemma withTextTerm_textTerm:
  "textTerm (withTextTerm this value field) f = (if f = field then js_trim value else textTerm this f)"
proof -
  have read: "textTerm t g = (case prop_of (lookup_or_empty t g) ''iContains'' of Str s \<Rightarrow> s | _ \<Rightarrow> [])" for t g
    by (simp add: textTerm_def lookup_or_empty_def)
  have "withTextTerm this value field = put_lookup this field
      (if js_trim value \<noteq> [] then obj_put ''iContains'' (Str (js_trim value)) (lookup_or_empty this field)
       else obj_del ''iContains'' (lookup_or_empty this field))"
    by (simp add: withTextTerm_def lookup_or_empty_def Let_def)
  then show ?thesis by (simp add: read lookup_or_empty_put)
qed

text \<open>A facet read off a filter is a facet the filter has selected.\<close>

lemma facetFromFilter_selected:
  assumes "facetFromFilter h value = Inr (Some facet)" "Filter_from h (Obj value) = Inr flt"
  shows "facetValues flt (facet_field facet) (facet_lookup facet) = [facet_value facet]"
proof -
  have read: "facetFromFilter h value = Inr
      (case flt of
         [(field, _)] \<Rightarrow>
           (case prop_of (lookup_or_empty flt field) ''exact'' of
              Str s \<Rightarrow> Some \<lparr>facet_field = field, facet_value = s, facet_lookup = Some ''exact''\<rparr>
            | _ \<Rightarrow> (case prop_of (lookup_or_empty flt field) ''inList'' of
                Arr [Str s] \<Rightarrow> Some \<lparr>facet_field = field, facet_value = s, facet_lookup = Some ''inList''\<rparr>
              | _ \<Rightarrow> None))
       | _ \<Rightarrow> None)"
    by (simp only: facetFromFilter_def assms(2) rbind_simps Let_def lookup_or_empty_def)
  obtain field x where flt: "flt = [(field, x)]"
    using assms(1) unfolding read by (auto split: list.splits)
  define l where "l = lookup_or_empty flt field"
  have "(\<exists>s. prop_of l ''exact'' = Str s \<and> facet = \<lparr>facet_field = field, facet_value = s, facet_lookup = Some ''exact''\<rparr>) \<or>
      (\<exists>s. prop_of l ''inList'' = Arr [Str s] \<and> facet = \<lparr>facet_field = field, facet_value = s, facet_lookup = Some ''inList''\<rparr>)"
    using assms(1) unfolding read l_def flt by (simp split: jsval.splits list.splits)
  then show ?thesis by (auto simp: facetValues_lookup l_def is_nullish_def strings_of_def)
qed

section \<open>Presets\<close>

text \<open>A filter of plain field conditions.\<close>

definition plain :: "jsval table \<Rightarrow> bool" where
  "plain es \<longleftrightarrow> (\<forall>k \<in> set (keys es). k \<notin> {''AND'', ''OR'', ''NOT''})"

lemma removeFields_plain:
  assumes "plain es" "table_ok es"
  shows "removeFields omitted (Obj es) = filter (\<lambda>(k, v). k \<notin> omitted) es"
proof -
  have "concat (map (removeEntry omitted) es) = filter (\<lambda>(k, v). k \<notin> omitted) es"
    using assms(1) by (induction es) (auto simp: plain_def removeEntry_def)
  then show ?thesis by (simp add: removeFields_entries obj_of_id table_ok_filter assms(2))
qed

lemma fieldNames_plain: "plain es \<Longrightarrow> set (fieldNames (Obj es)) = set (keys es)"
  by (auto simp: set_fieldNames[of "Obj es"] entryNames_def plain_def image_iff split: if_splits)

lemma onlyFields_plain:
  assumes "plain es" "table_ok es"
  shows "onlyFields es kept = filter (\<lambda>(k, v). k \<in> kept) es"
proof -
  have "onlyFields es kept = filter (\<lambda>(k, v). k \<notin> set (filter (\<lambda>f. f \<notin> kept) (fieldNames (Obj es)))) es"
    unfolding onlyFields_def withoutFields_def using assms by (rule removeFields_plain)
  also have "\<dots> = filter (\<lambda>(k, v). k \<in> kept) es"
    using fieldNames_plain[OF assms(1)] by (intro filter_cong) (auto simp: rev_image_eqI)
  finally show ?thesis .
qed

lemma plain_filter: "plain es \<Longrightarrow> plain (filter P es)"
  by (auto simp: plain_def)

text \<open>The order a parse gives a table of parsed entries.\<close>

definition in_order :: "host \<Rightarrow> 'v table \<Rightarrow> 'v table" where
  "in_order h es = obj_of (sortEntries h es)"

context js_host
begin

lemma in_order_filter: "distinct (keys es) \<Longrightarrow> filter P (in_order h es) = in_order h (filter P es)"
  by (simp add: in_order_def obj_of_sort_key sortEntries_def distinct_map_filter filter_sort entries.filter_js_sort)

lemma in_order_fixed: "named_order h es \<longleftrightarrow> in_order h es = es"
  by (simp add: in_order_def named_order_def)

lemma named_order_filter: "named_order h es \<Longrightarrow> named_order h (filter P es)"
  using in_order_filter[OF named_order_distinct] by (metis in_order_fixed)

lemma canonical_plain:
  "plain es \<Longrightarrow> canonical h (Obj es) \<longleftrightarrow> named_order h es \<and> (\<forall>(k, v) \<in> set es. \<exists>l. v = Obj l \<and> canonicalLookup h l)"
  by (fastforce simp: canonical_Obj plain_def)

lemma plain_parsed:
  assumes "plain es" "\<forall>(k, v) \<in> set es. \<exists>l. v = Obj l \<and> canonicalLookup h l"
  shows "parseFilter h (Obj es) path = Inr (in_order h es)"
proof -
  have "parseEntry h path e = Inr e" if "e \<in> set es" for e
    using assms that by (fastforce simp: parseEntry_def plain_def Let_def canonicalLookup_parsed)
  then have "map_res (parseEntry h path) (sortEntries h es) = Inr (sortEntries h es)"
    by (intro map_res_id) simp
  then show ?thesis by (simp add: parseFilter_Obj in_order_def del: parseFilter.simps(1))
qed

lemma stringify_canonical: "canonical h (Obj a) \<Longrightarrow> canonical h (Obj b) \<Longrightarrow> stringify h (Obj a) = stringify h (Obj b) \<longleftrightarrow> a = b"
  using stringify_inj canonical_json_data by blast

lemma hasPreset_plain:
  assumes "canonical h (Obj this)" "plain this" "canonical h (Obj preset)" "plain preset"
  shows "hasPreset h this preset = Inr (filter (\<lambda>(k, v). k \<in> set (keys preset)) this = preset)"
proof -
  have ok: "table_ok this" using assms(1) named_order_ok by (auto simp: canonical_Obj)
  have "canonical h (Obj (filter (\<lambda>(k, v). k \<in> set (keys preset)) this))"
    using assms(1,2) by (auto simp: canonical_plain plain_filter named_order_filter)
  then show ?thesis
    using canonical_parsed[OF assms(3)] assms(3)
    by (simp add: hasPreset_def Filter_from_def onlyFields_plain[OF assms(2) ok] stringify_canonical)
qed

lemma and_step_disjoint:
  "table_ok acc \<Longrightarrow> distinct (keys (acc @ es)) \<Longrightarrow> foldl (and_step h) (acc, []) es = (foldl (\<lambda>acc (k, v). obj_put k v acc) acc es, [])"
proof (induction es arbitrary: acc)
  case (Cons e es)
  obtain k v where e: "e = (k, v)" by (cases e)
  have new: "map_of acc k = None" using Cons.prems by (auto simp: e map_of_eq_None_iff)
  have ok: "table_ok (obj_put k v acc)" using Cons.prems(1) by (rule table_ok_put)
  have "set (keys (obj_put k v acc)) = insert k (set (keys acc))" by (rule keys_obj_put)
  with ok have "distinct (keys (obj_put k v acc @ es))" using Cons.prems by (auto simp: e table_ok_def)
  with Cons.IH[OF ok] new show ?case by (simp add: and_step_def e)
qed simp

end


lemma foldl_put_obj_of:
  "table_ok acc \<Longrightarrow> foldl (\<lambda>acc (k, v). obj_put k v acc) acc es = obj_of (acc @ es)"
  using obj_of_id[of acc] by (simp add: obj_of_def)

lemma filter_obj_of: "distinct (keys es) \<Longrightarrow> filter P (obj_of es) = obj_of (filter P es)"
  by (simp add: obj_of_sort_key distinct_map_filter filter_sort)

context js_host
begin

lemma in_order_obj_of:
  assumes "distinct (keys es)"
  shows "in_order h (obj_of es) = in_order h es"
proof -
  let ?r = "\<lambda>e :: string \<times> 'a. key_rank (fst e)"
  have "sort_key ?r (sortEntries h es) = sort_key ?r (sortEntries h (sort_key ?r es))"
  proof (rule properties_for_sort_key)
    show "mset (sort_key ?r (sortEntries h (sort_key ?r es))) = mset (sortEntries h es)"
      by (simp add: sortEntries_def)
    fix x :: "string \<times> 'a"
    have stable: "filter (\<lambda>y. ?r x = ?r y) (sort_key ?r zs) = filter (\<lambda>y. ?r x = ?r y) zs" for zs :: "(string \<times> 'a) list"
      using sort_key_stable[of ?r "?r x" zs] by (simp add: eq_commute)
    show "filter (\<lambda>y. ?r x = ?r y) (sort_key ?r (sortEntries h (sort_key ?r es))) = filter (\<lambda>y. ?r x = ?r y) (sortEntries h es)"
      by (simp only: stable sortEntries_def entries.filter_js_sort)
  qed simp
  moreover have "distinct (keys (sortEntries h (obj_of es)))" "distinct (keys (sortEntries h es))"
    using assms table_ok_obj_of[of es] by (simp_all add: table_ok_def sortEntries_def)
  ultimately show ?thesis using assms by (metis in_order_def obj_of_sort_key)
qed

lemma combine_disjoint:
  assumes "canonical h (Obj a)" "plain a" "canonical h (Obj b)" "plain b" "b \<noteq> []"
    and dis: "set (keys a) \<inter> set (keys b) = {}"
  shows "\<exists>f. Filter_combine h (Obj a) (Obj b) = Inr f \<and> Filter_from h (Obj f) = Inr (in_order h (a @ b))"
proof -
  note parsed = canonical_parsed[OF assms(1)] canonical_parsed[OF assms(3)]
  have parts: "named_order h a" "named_order h b" "\<forall>(k, v) \<in> set a \<union> set b. \<exists>l. v = Obj l \<and> canonicalLookup h l"
    using assms(1-4) canonical_plain by auto
  then have ok: "table_ok a" and da: "distinct (keys a)" and db: "distinct (keys b)"
    using named_order_ok named_order_distinct by blast+
  have d: "distinct (keys (a @ b))" using da db dis by auto
  show ?thesis
  proof (cases "a = []")
    case True
    then show ?thesis using parsed parts(2) assms(5)
      by (simp add: Filter_combine_def filter_and_def Filter_from_def in_order_fixed)
  next
    case False
    then have "a \<noteq> b" using dis by (metis Int_absorb assms(5) list.map_disc_iff set_empty)
    then have "Filter_combine h (Obj a) (Obj b) = Inr (obj_of (a @ b))"
      using False assms(1,3,5) parsed and_step_disjoint[OF ok d]
      by (simp add: Filter_combine_def filter_and_def Filter_from_def stringify_canonical foldl_put_obj_of[OF ok])
    moreover have "Filter_from h (Obj (obj_of (a @ b))) = Inr (in_order h (obj_of (a @ b)))"
      unfolding Filter_from_def using assms(2,4) parts(3) d
      by (intro plain_parsed) (auto simp: plain_def set_obj_of)
    moreover have "in_order h (obj_of (a @ b)) = in_order h (a @ b)"
      using d by (rule in_order_obj_of)
    ultimately show ?thesis by simp
  qed
qed

end


context js_host
begin

lemma togglePreset_switch:
  assumes "canonical h (Obj this)" "plain this" "canonical h (Obj preset)" "plain preset" "preset \<noteq> []"
  shows "\<exists>f f' has. togglePreset h this preset = Inr f \<and> Filter_from h (Obj f) = Inr f' \<and>
           hasPreset h this preset = Inr has \<and> hasPreset h f' preset = Inr (\<not> has) \<and>
           withoutFields f' (set (keys preset)) = withoutFields this (set (keys preset))"
proof -
  define outside where "outside = (\<lambda>(k, v :: jsval). k \<notin> set (keys preset))"
  define inside where "inside = (\<lambda>(k, v :: jsval). k \<in> set (keys preset))"
  have ok: "table_ok this" using assms(1) named_order_ok by (auto simp: canonical_Obj)
  have rest: "canonical h (Obj (filter outside this))" "plain (filter outside this)"
    using assms(1,2) by (auto simp: canonical_plain plain_filter named_order_filter)
  have removed: "withoutFields t (set (keys preset)) = filter outside t" if "plain t" "table_ok t" for t
    using removeFields_plain[OF that] by (simp add: withoutFields_def outside_def)
  have has: "hasPreset h this preset = Inr (filter inside this = preset)"
    using hasPreset_plain[OF assms(1-4)] by (simp add: inside_def)
  have toggle: "togglePreset h this preset =
      (if filter inside this = preset then Inr (filter outside this) else Filter_combine h (Obj (filter outside this)) (Obj preset))"
    using canonical_parsed[OF assms(3)] has by (simp only: togglePreset_def Filter_from_def removed[OF assms(2) ok] rbind_simps entries_of_Obj Let_def)
  have none: "filter inside (filter outside this) = []" "filter outside preset = []" "filter inside preset = preset"
    by (auto simp: inside_def outside_def filter_empty_conv filter_id_conv rev_image_eqI)
  show ?thesis
  proof (cases "filter inside this = preset")
    case True
    have "hasPreset h (filter outside this) preset = Inr False"
      using hasPreset_plain[OF rest assms(3,4)] assms(5) none by (simp add: inside_def)
    moreover have "withoutFields (filter outside this) (set (keys preset)) = withoutFields this (set (keys preset))"
      unfolding removed[OF rest(2) table_ok_filter[OF ok]] removed[OF assms(2) ok] by simp
    ultimately show ?thesis
      using True has toggle canonical_parsed[OF rest(1)]
      by (intro exI[of _ "filter outside this"] exI[of _ True]) (simp add: Filter_from_def)
  next
    case False
    have dis: "set (keys (filter outside this)) \<inter> set (keys preset) = {}"
      by (auto simp: outside_def dest: image_eqI[where f = fst, rotated])
    from combine_disjoint[OF rest assms(3,4,5) dis] obtain f where
      f: "Filter_combine h (Obj (filter outside this)) (Obj preset) = Inr f"
      and f': "Filter_from h (Obj f) = Inr (in_order h (filter outside this @ preset))" by blast
    let ?f' = "in_order h (filter outside this @ preset)"
    have parts: "named_order h (filter outside this)" "named_order h preset"
      using assms rest canonical_plain by auto
    have d: "distinct (keys (filter outside this @ preset))"
      using dis named_order_distinct[OF parts(1)] named_order_distinct[OF parts(2)] by auto
    have all: "canonical h (Obj ?f')" "plain ?f'"
    proof -
      have s: "set ?f' = set (filter outside this) \<union> set preset" using d by (simp add: in_order_def set_obj_of)
      show p: "plain ?f'" using rest(2) assms(4) s by (auto simp: plain_def)
      have "named_order h ?f'"
        unfolding in_order_def by (rule named_order_collected(1)[OF d refl])
      then show "canonical h (Obj ?f')" using rest assms(3,4) s by (auto simp: canonical_plain[OF p] canonical_plain)
    qed
    have "filter inside ?f' = preset" "filter outside ?f' = filter outside this"
      using d none parts by (simp_all add: in_order_filter in_order_fixed)
    moreover have "withoutFields ?f' (set (keys preset)) = filter outside ?f'"
      by (rule removed[OF all(2)]) (simp add: in_order_def)
    moreover have "hasPreset h ?f' preset = Inr (filter inside ?f' = preset)"
      using hasPreset_plain[OF all assms(3,4)] by (simp add: inside_def)
    ultimately show ?thesis
      using False has toggle f f' removed[OF assms(2) ok]
      by (intro exI[of _ f] exI[of _ ?f'] exI[of _ False]) simp
  qed
qed

end

text \<open>
  On filters of plain field conditions, toggling a preset succeeds, switches the preset on
  when it was off and off when it was on, and leaves the conditions on other fields as they
  were. The result is read back through a new \<open>Filter\<close>, as the toolbar does.
\<close>

theorem togglePreset_flips:
  assumes "js_host h" "canonical h (Obj this)" "plain this" "canonical h (Obj preset)" "plain preset" "preset \<noteq> []"
  shows "\<exists>f f' has. togglePreset h this preset = Inr f \<and> Filter_from h (Obj f) = Inr f' \<and>
           hasPreset h this preset = Inr has \<and> hasPreset h f' preset = Inr (\<not> has) \<and>
           withoutFields f' (set (keys preset)) = withoutFields this (set (keys preset))"
  using assms by (rule js_host.togglePreset_switch)


end
