(* ===== verification/FilterProjection.thy ===== *)
theory FilterProjection
  imports FilterFacts
begin

text \<open>
  \<open>Filter.conjunctions\<close> of \<open>filter.ts\<close>: the list of comparisons of a filter that uses \<open>AND\<close> only,
  for transports with a narrower Boolean syntax, which must reject \<open>OR\<close> and \<open>NOT\<close> rather than
  drop them. The code parses every branch of an \<open>AND\<close> again; the nesting of \<open>AND\<close> groups, which
  parsing keeps, bounds the recursion.
\<close>

declare parseFilter.simps(1) [simp del]

section \<open>The projection\<close>

function and_depth :: "jsval \<Rightarrow> nat" where
  "and_depth (Obj es) = Suc (Max (insert 0 (set (concat (map (\<lambda>(k, v).
     if k = ''AND'' then map and_depth (branchList v) else []) es)))))"
| "and_depth Undefined = 0" | "and_depth Null = 0" | "and_depth (Bool b) = 0" | "and_depth (Num n) = 0"
| "and_depth (Str s) = 0" | "and_depth (Arr xs) = 0" | "and_depth (JsDate d) = 0" | "and_depth (Opaque n) = 0"
  by pat_completeness auto
termination
proof (relation "measure size", goal_cases)
  case (2 es e k v b)
  then show ?case using size_branchList[of b v] size_Obj_mem[of k v es] by simp
qed simp

declare and_depth.simps(1) [simp del]

lemma and_depth_le:
  "and_depth (Obj es) \<le> Suc n \<longleftrightarrow> (\<forall>v. (''AND'', v) \<in> set es \<longrightarrow> (\<forall>b \<in> set (branchList v). and_depth b \<le> n))"
proof -
  let ?S = "set (concat (map (\<lambda>(k, v). if k = ''AND'' then map and_depth (branchList v) else []) es))"
  have S: "?S = {and_depth b | b v. (''AND'', v) \<in> set es \<and> b \<in> set (branchList v)}"
    by (auto split: if_splits)
  have "Max (insert 0 ?S) \<le> n \<longleftrightarrow> (\<forall>x \<in> ?S. x \<le> n)" by (subst Max_le_iff) auto
  then have "and_depth (Obj es) \<le> Suc n \<longleftrightarrow> (\<forall>x \<in> ?S. x \<le> n)" by (simp only: and_depth.simps(1) Suc_le_mono)
  then show ?thesis unfolding S by auto
qed

lemma and_depth_branch:
  assumes "(''AND'', v) \<in> set es" "b \<in> set (branchList v)"
  shows "and_depth b < and_depth (Obj es)"
proof -
  obtain n where "and_depth (Obj es) = Suc n" by (simp add: and_depth.simps(1))
  then show ?thesis using and_depth_le[of es n] assms by (metis le_imp_less_Suc le_refl)
qed

lemma parse_and_depth: "parseFilter h v path = Inr f \<Longrightarrow> and_depth (Obj f) \<le> and_depth v"
proof (induction v arbitrary: path f rule: measure_induct_rule[of size])
  case (less v)
  from less.prems obtain es ps where v: "v = Obj es" and f: "f = obj_of ps"
    and ps: "map_res (parseEntry h path) (sortEntries h es) = Inr ps"
    by (rule parseFilter_InrE)
  obtain n where n: "and_depth v = Suc n" by (simp add: and_depth.simps(1) v)
  have "and_depth b \<le> n" if w: "(''AND'', w) \<in> set f" and b: "b \<in> set (branchList w)" for w b
  proof -
    have "(''AND'', w) \<in> set ps" using w f set_obj_of_subset by blast
    from map_res_elem[OF ps this] obtain e where e: "e \<in> set es" "parseEntry h path e = Inr (''AND'', w)" by auto
    then have "fst e = ''AND''" using parseEntry_name by fastforce
    then obtain u where u: "e = (''AND'', u)" by (cases e) simp
    obtain bs where bs: "w = Arr bs"
      "map_res (\<lambda>(i, branch). rbind (parseFilter h branch (at_index (path @ ''.'' @ ''AND'') i)) (\<lambda>f. Inr (Obj f)))
        (enumerate 0 (branchList u)) = Inr bs"
      using e(2) by (auto simp: parseEntry_def Let_def u rbind_Inr_iff)
    have mem: "b \<in> set bs" using b by (simp add: bs(1) branchList_def)
    obtain i x g where x: "x \<in> set (branchList u)" "parseFilter h x (at_index (path @ ''.'' @ ''AND'') i) = Inr g" "b = Obj g"
      using map_res_enumerate_elem[OF bs(2) mem] by (auto simp: rbind_Inr_iff)
    have "size x < size v" using size_branchList[OF x(1)] size_Obj_mem[of _ u es] e(1) u v by fastforce
    from less.IH[OF this x(2)] have "and_depth b \<le> and_depth x" by (simp add: x(3))
    also have "\<dots> \<le> n" using and_depth_branch[of u es x] e(1) u x(1) n v by simp
    finally show ?thesis .
  qed
  then show ?case using and_depth_le[of f n] n by auto
qed

record conjunct =
  conj_field :: string
  conj_operator :: string
  conj_value :: jsval

function conjunctions :: "host \<Rightarrow> jsval table \<Rightarrow> conjunct list result" where
  "conjunctions h this =
     rbind (map_res (\<lambda>(field, operand).
       if field = ''AND'' then
         rbind (map_res (\<lambda>branch.
             case Filter_from h branch of Inl e \<Rightarrow> Inl e | Inr f \<Rightarrow> conjunctions h f) (branches_of operand))
           (\<lambda>ls. Inr (concat ls))
       else if field = ''OR'' \<or> field = ''NOT'' then
         Inl (QueryParseError (''filter.'' @ field) ''this projection requires AND predicates'')
       else Inr (map (\<lambda>(operator, v). \<lparr>conj_field = field, conj_operator = operator, conj_value = v\<rparr>)
                     (case lookup_at this field of None \<Rightarrow> [] | Some l \<Rightarrow> l)))
       this)
      (\<lambda>ls. Inr (concat ls))"
  by pat_completeness auto
termination
proof (relation "measure (\<lambda>(h, this). and_depth (Obj this))", goal_cases)
  case (2 h this e k operand branch f)
  have "branch \<in> set (branchList operand)"
    using 2 by (auto simp: branches_of_def branchList_def split: jsval.splits)
  then have "and_depth branch < and_depth (Obj this)"
    using 2 and_depth_branch by auto
  with 2 parse_and_depth[of h branch "''filter''" f] show ?case by (simp add: Filter_from_def)
qed simp

declare conjunctions.simps [simp del]

section \<open>Nothing is dropped\<close>

text \<open>The comparisons of one entry, named for the proofs.\<close>

definition entryConjunctions :: "host \<Rightarrow> jsval table \<Rightarrow> string \<times> jsval \<Rightarrow> conjunct list result" where
  "entryConjunctions h this = (\<lambda>(field, operand).
       if field = ''AND'' then
         rbind (map_res (\<lambda>branch.
             case Filter_from h branch of Inl e \<Rightarrow> Inl e | Inr f \<Rightarrow> conjunctions h f) (branches_of operand))
           (\<lambda>ls. Inr (concat ls))
       else if field = ''OR'' \<or> field = ''NOT'' then
         Inl (QueryParseError (''filter.'' @ field) ''this projection requires AND predicates'')
       else Inr (map (\<lambda>(operator, v). \<lparr>conj_field = field, conj_operator = operator, conj_value = v\<rparr>)
                     (case lookup_at this field of None \<Rightarrow> [] | Some l \<Rightarrow> l)))"

lemma conjunctions_entries:
  "conjunctions h this = rbind (map_res (entryConjunctions h this) this) (\<lambda>ls. Inr (concat ls))"
  unfolding conjunctions.simps[of h this] entryConjunctions_def ..

lemma entryConjunctions_cases:
  "k = ''AND'' \<Longrightarrow> entryConjunctions h this (k, v) =
     rbind (map_res (\<lambda>b. case Filter_from h b of Inl e \<Rightarrow> Inl e | Inr f \<Rightarrow> conjunctions h f) (branches_of v)) (\<lambda>ls. Inr (concat ls))"
  "k = ''OR'' \<or> k = ''NOT'' \<Longrightarrow> \<exists>e. entryConjunctions h this (k, v) = Inl e"
  "k \<notin> {''AND'', ''OR'', ''NOT''} \<Longrightarrow> entryConjunctions h this (k, v) =
     Inr (map (\<lambda>(operator, x). \<lparr>conj_field = k, conj_operator = operator, conj_value = x\<rparr>)
              (case lookup_at this k of None \<Rightarrow> [] | Some l \<Rightarrow> l))"
  by (auto simp: entryConjunctions_def)

text \<open>A reading of field lookups that is the conjunction of their comparisons.\<close>

definition lookup_leaf :: "(string \<Rightarrow> string \<Rightarrow> jsval \<Rightarrow> bool) \<Rightarrow> string \<Rightarrow> jsval \<Rightarrow> bool" where
  "lookup_leaf cmp field operand = (\<forall>(operator, v) \<in> set (entries_of operand). cmp field operator v)"

definition conjunct_holds :: "(string \<Rightarrow> string \<Rightarrow> jsval \<Rightarrow> bool) \<Rightarrow> conjunct \<Rightarrow> bool" where
  "conjunct_holds cmp c = cmp (conj_field c) (conj_operator c) (conj_value c)"

lemma filter_branches:
  "canonical h (Obj es) \<Longrightarrow> (''AND'', v) \<in> set es \<Longrightarrow> b \<in> set (branches_of v) \<Longrightarrow> canonical h b"
  unfolding canonical_Obj by fastforce

context js_host
begin

lemma conjunctions_exact:
  assumes "canonical h (Obj this)" "conjunctions h this = Inr cs"
  shows "(\<forall>c \<in> set cs. conjunct_holds cmp c) \<longleftrightarrow> holds (lookup_leaf cmp) (Obj this)"
  using assms
proof (induction "size (Obj this)" arbitrary: this cs rule: less_induct)
  case less
  obtain ls where ls: "map_res (entryConjunctions h this) this = Inr ls" and cs: "cs = concat ls"
    using less.prems(2) by (auto simp: conjunctions_entries rbind_Inr_iff)
  have d: "distinct (keys this)"
    using less.prems(1) named_order_distinct by (auto simp: canonical_Obj)
  have part: "(\<forall>c \<in> set l. conjunct_holds cmp c) \<longleftrightarrow> entry_holds (lookup_leaf cmp) (fst e) (snd e)"
    if e: "e \<in> set this" and l: "entryConjunctions h this e = Inr l" for e l
  proof -
    obtain k v where kv: "e = (k, v)" by (cases e)
    consider "k = ''AND''" | "k = ''OR'' \<or> k = ''NOT''" | "k \<notin> {''AND'', ''OR'', ''NOT''}" by blast
    then show ?thesis
    proof cases
      case 1
      obtain bs where bs: "map_res (\<lambda>branch. case Filter_from h branch of Inl e \<Rightarrow> Inl e | Inr f \<Rightarrow> conjunctions h f)
           (branches_of v) = Inr bs" and l': "l = concat bs"
        using l entryConjunctions_cases(1)[OF 1, of h this v] by (auto simp: kv rbind_Inr_iff)
      have one: "(\<forall>c \<in> set g. conjunct_holds cmp c) \<longleftrightarrow> holds (lookup_leaf cmp) b"
        if b: "b \<in> set (branches_of v)"
          and g: "(case Filter_from h b of Inl e \<Rightarrow> Inl e | Inr f \<Rightarrow> conjunctions h f) = Inr g" for b g
      proof -
        have c: "canonical h b" using filter_branches less.prems(1) e b 1 by (simp add: kv)
        then obtain fs where fs: "b = Obj fs" by (auto elim: canonicalE)
        have "size b < size (Obj this)"
          using size_branches_of[OF b] size_Obj_mem[of k v this] e by (simp add: kv)
        moreover have "conjunctions h fs = Inr g" using g canonical_parsed[OF c] by (simp add: Filter_from_def fs)
        ultimately show ?thesis using less.hyps[of fs g] c by (simp add: fs)
      qed
      have "(\<forall>c \<in> set l. conjunct_holds cmp c) \<longleftrightarrow> (\<forall>g \<in> set bs. \<forall>c \<in> set g. conjunct_holds cmp c)"
        by (simp add: l')
      also have "\<dots> \<longleftrightarrow> (\<forall>b \<in> set (branches_of v). holds (lookup_leaf cmp) b)"
        using one map_res_elem[OF bs] map_res_elem_src[OF bs] by meson
      finally show ?thesis using 1 by (simp add: kv entry_holds_def)
    next
      case 2
      then show ?thesis using l entryConjunctions_cases(2) by (metis Inl_Inr_False kv)
    next
      case 3
      then obtain t where "v = Obj t" using less.prems(1) e by (fastforce simp: canonical_Obj kv)
      moreover have "map_of this k = Some v" using d e by (simp add: kv)
      ultimately have "l = map (\<lambda>(operator, x). \<lparr>conj_field = k, conj_operator = operator, conj_value = x\<rparr>) t"
        using l entryConjunctions_cases(3)[OF 3, of h this v] by (simp add: kv lookup_at_def)
      then show ?thesis
        using 3 \<open>v = Obj t\<close> by (simp add: kv entry_holds_def lookup_leaf_def conjunct_holds_def case_prod_beta)
    qed
  qed
  have "(\<forall>c \<in> set cs. conjunct_holds cmp c) \<longleftrightarrow> (\<forall>l \<in> set ls. \<forall>c \<in> set l. conjunct_holds cmp c)"
    by (simp add: cs)
  also have "\<dots> \<longleftrightarrow> (\<forall>e \<in> set this. entry_holds (lookup_leaf cmp) (fst e) (snd e))"
    using part map_res_elem[OF ls] map_res_elem_src[OF ls] by meson
  finally show ?case by (simp add: holds_Obj case_prod_beta)
qed

end

text \<open>The filters the projection accepts: only \<open>AND\<close> groups around field conditions.\<close>

function and_only :: "jsval \<Rightarrow> bool" where
  "and_only flt =
     list_all (\<lambda>(field, operand).
       if field = ''AND'' then list_all and_only (branches_of operand) else field \<noteq> ''OR'' \<and> field \<noteq> ''NOT'')
     (entries_of flt)"
  by pat_completeness auto
termination
  by (relation "measure size") (auto dest!: size_entries_of size_branches_of)

declare and_only.simps [simp del]

lemma and_only_Obj:
  "and_only (Obj es) \<longleftrightarrow> (\<forall>(k, v) \<in> set es. if k = ''AND'' then (\<forall>b \<in> set (branches_of v). and_only b) else k \<noteq> ''OR'' \<and> k \<noteq> ''NOT'')"
  unfolding and_only.simps[of "Obj es"] by (simp add: list_all_iff)

lemma map_res_returns: "(\<exists>ys. map_res f xs = Inr ys) \<longleftrightarrow> (\<forall>x \<in> set xs. \<exists>y. f x = Inr y)"
  using map_res_total[of xs f] map_res_elem_src[of f xs] by metis

context js_host
begin

lemma conjunctions_returns:
  assumes "canonical h (Obj this)"
  shows "(\<exists>cs. conjunctions h this = Inr cs) \<longleftrightarrow> and_only (Obj this)"
  using assms
proof (induction "size (Obj this)" arbitrary: this rule: less_induct)
  case less
  have branch: "(\<exists>g. (case Filter_from h b of Inl e \<Rightarrow> Inl e | Inr f \<Rightarrow> conjunctions h f) = Inr g) \<longleftrightarrow> and_only b"
    if e: "(''AND'', v) \<in> set this" and b: "b \<in> set (branches_of v)" for v b
  proof -
    have c: "canonical h b" using filter_branches less.prems e b by blast
    then obtain fs where fs: "b = Obj fs" by (auto elim: canonicalE)
    have "size b < size (Obj this)" using size_branches_of[OF b] size_Obj_mem[OF e] by simp
    with less.hyps[of fs] c canonical_parsed[OF c] show ?thesis by (simp add: Filter_from_def fs)
  qed
  have "(\<exists>l. entryConjunctions h this (k, v) = Inr l) \<longleftrightarrow>
      (if k = ''AND'' then (\<forall>b \<in> set (branches_of v). and_only b) else k \<noteq> ''OR'' \<and> k \<noteq> ''NOT'')"
    if e: "(k, v) \<in> set this" for k v
  proof -
    consider "k = ''AND''" | "k = ''OR'' \<or> k = ''NOT''" | "k \<notin> {''AND'', ''OR'', ''NOT''}" by blast
    then show ?thesis
    proof cases
      case 1
      let ?g = "\<lambda>b. case Filter_from h b of Inl e \<Rightarrow> Inl e | Inr f \<Rightarrow> conjunctions h f"
      have "(\<exists>l. entryConjunctions h this (k, v) = Inr l) \<longleftrightarrow> (\<exists>ls. map_res ?g (branches_of v) = Inr ls)"
        unfolding entryConjunctions_cases(1)[OF 1] rbind_Inr_iff by blast
      also have "\<dots> \<longleftrightarrow> (\<forall>b \<in> set (branches_of v). and_only b)"
        unfolding map_res_returns using branch e 1 by blast
      finally show ?thesis using 1 by simp
    next
      case 2
      then show ?thesis using entryConjunctions_cases(2)[OF 2, of h this v] by auto
    next
      case 3
      then show ?thesis using entryConjunctions_cases(3)[OF 3, of h this v] by auto
    qed
  qed
  then have "(\<exists>ls. map_res (entryConjunctions h this) this = Inr ls) \<longleftrightarrow> and_only (Obj this)"
    unfolding map_res_returns and_only_Obj by (intro ball_cong) (simp_all only: split_paired_all prod.case)
  then show ?case by (auto simp: conjunctions_entries rbind_Inr_iff)
qed

end

text \<open>
  C4: the projection of a canonical filter returns exactly when the filter has \<open>AND\<close> groups only,
  and then its comparisons hold together exactly when the filter holds, whatever the comparisons
  mean: no predicate is dropped or added.
\<close>

theorem conjunctions_hold:
  assumes "js_host h" "canonical h (Obj this)"
  shows "(\<exists>cs. conjunctions h this = Inr cs) = and_only (Obj this) \<and>
         (\<forall>cs. conjunctions h this = Inr cs \<longrightarrow>
            (\<forall>c \<in> set cs. conjunct_holds cmp c) = holds (lookup_leaf cmp) (Obj this))"
  using js_host.conjunctions_returns[OF assms] js_host.conjunctions_exact[OF assms] by blast


end
