(* ===== verification/FilterClaims.thy ===== *)
theory FilterClaims
  imports FilterToggles FilterProjection
begin

text \<open>
  The properties of the filter language that the toolbars, views and transports rely on, with
  their instances on a concrete host, and the corners where field removal and presets do not
  keep the meaning their documentation gives them.
\<close>

section \<open>Sample filters\<close>

definition open_filter :: "jsval table" where
  "open_filter = [(''status'', Obj [(''exact'', Str ''open'')])]"

definition owner_filter :: "jsval table" where
  "owner_filter = [(''owner'', Obj [(''exact'', Str ''me'')])]"

lemma open_filter_parsed: "Filter_from root_host (Obj [(''status'', Str ''open'')]) = Inr open_filter"
  by code_simp

lemma owner_filter_parsed: "Filter_from root_host (Obj [(''owner'', Str ''me'')]) = Inr owner_filter"
  by code_simp

lemma sample_canonical:
  "canonical root_host (Obj open_filter)" "canonical root_host (Obj owner_filter)" "canonical root_host (Obj [])"
  using root.parseFilter_canonical[OF _ open_filter_parsed[unfolded Filter_from_def]]
    root.parseFilter_canonical[OF _ owner_filter_parsed[unfolded Filter_from_def]]
    root.parseFilter_canonical[of "Obj []" "''filter''" "[]"]
  by (simp_all add: table_ok_def parseFilter_Obj sortEntries_def obj_of_def)

lemma sample_plain: "plain open_filter" "plain owner_filter" "plain []"
  by (simp_all add: plain_def open_filter_def owner_filter_def)

section \<open>Parsing and conjunction\<close>

text \<open>
  C1: what parsing accepts it returns in canonical form, and parsing a canonical filter again
  returns it unchanged: \<open>new Filter(new Filter(x).value).value\<close> is \<open>new Filter(x).value\<close>.
\<close>

theorem Filter_from_idempotent:
  assumes "js_host h" "js_ok v" "Filter_from h v = Inr f"
  shows "canonical h (Obj f) \<and> Filter_from h (Obj f) = Inr f"
proof -
  have "canonical h (Obj f)" using js_host.parseFilter_canonical assms by (simp add: Filter_from_def)
  with js_host.canonical_parsed[OF assms(1), of "Obj f"] show ?thesis by (simp add: Filter_from_def)
qed

theorem Filter_from_idempotent_witness:
  "canonical root_host (Obj open_filter) \<and> Filter_from root_host (Obj open_filter) = Inr open_filter"
  using Filter_from_idempotent[OF root.js_host_axioms _ open_filter_parsed] by (simp add: table_ok_def)



theorem conjunctions_hold_witness:
  "(\<exists>cs. conjunctions root_host open_filter = Inr cs) \<and> and_only (Obj open_filter)"
  using conjunctions_hold[OF root.js_host_axioms sample_canonical(1)]
  by (simp add: and_only_Obj open_filter_def)

section \<open>Removing fields and presets\<close>

text \<open>
  C3: removing fields from a canonical filter removes exactly those fields, at every depth of the
  Boolean groups: the fields the result mentions are the others the filter mentions, the result
  does not depend on what the removed fields compare to, and for a filter without negation it is
  a weakening.
\<close>

theorem withoutFields_removes:
  assumes "canonical h (Obj this)" "names \<inter> {''AND'', ''OR'', ''NOT''} = {}"
  shows "set (fieldNames (Obj (withoutFields this names))) = set (fieldNames (Obj this)) - names \<and>
         (\<forall>leaf leaf'. (\<forall>k. k \<notin> names \<longrightarrow> leaf k = leaf' k) \<longrightarrow>
            holds leaf (Obj (withoutFields this names)) = holds leaf' (Obj (withoutFields this names))) \<and>
         (\<forall>leaf. negation_free (Obj this) \<longrightarrow> holds leaf (Obj this) \<longrightarrow> holds leaf (Obj (withoutFields this names)))"
proof -
  note ok = canonical_js_ok[OF assms(1)]
  have n: "set (fieldNames (Obj (withoutFields this names))) = set (fieldNames (Obj this)) - names"
    using removed_names[OF ok assms(2)] by (simp add: withoutFields_def)
  moreover have "holds leaf (Obj (withoutFields this names)) = holds leaf' (Obj (withoutFields this names))"
    if "\<forall>k. k \<notin> names \<longrightarrow> leaf k = leaf' k" for leaf leaf'
    using n that by (intro holds_cong) auto
  moreover have "negation_free (Obj this) \<longrightarrow> holds leaf (Obj this) \<longrightarrow> holds leaf (Obj (withoutFields this names))" for leaf
    using removed_weaker[OF ok] by (simp add: withoutFields_def)
  ultimately show ?thesis by blast
qed

theorem withoutFields_removes_witness:
  "set (fieldNames (Obj (withoutFields open_filter {''owner''}))) = {''status''}"
  using withoutFields_removes[OF sample_canonical(1), of "{''owner''}"] fieldNames_plain[OF sample_plain(1)]
  by (simp add: open_filter_def)

theorem togglePreset_flips_witness:
  "\<exists>f. togglePreset root_host open_filter owner_filter = Inr f"
  using togglePreset_flips[OF root.js_host_axioms sample_canonical(1) sample_plain(1) sample_canonical(2) sample_plain(2)]
  by (auto simp: owner_filter_def)

text \<open>
  Corners. Removing no field at all from \<open>{ NOT: {} }\<close>, which never holds, gives the filter that
  always holds. A preset made of one Boolean group is never recognised as active, also right
  after it was switched on, because its key \<open>OR\<close> is not a field name.
\<close>

lemma removing_nothing_changes_meaning:
  "withoutFields [(''NOT'', Obj [])] {} = [] \<and> \<not> holds leaf (Obj [(''NOT'', Obj [])]) \<and> holds leaf (Obj [])"
  by (simp add: withoutFields_def removeFields.simps obj_of_def holds_Obj entry_holds_def)

definition group_preset :: "jsval table" where
  "group_preset = [(''OR'', Arr [Obj [(''status'', Obj [(''exact'', Str ''open'')])], Obj [(''owner'', Obj [(''exact'', Str ''me'')])]])]"

lemma group_preset_never_active:
  "togglePreset root_host [] group_preset = Inr group_preset \<and> hasPreset root_host group_preset group_preset = Inr False"
  by code_simp

end
