(* ===== verification/Temporal.thy ===== *)
theory Temporal
  imports Filters
begin

text \<open>
  The dates and decimals of \<open>packages/metadata/src/query.ts\<close>: the checks of ISO dates and times, the
  canonical text of a date value, date buckets, and the exact comparison of decimal texts.
\<close>

abbreviation fail_at :: "string \<Rightarrow> string \<Rightarrow> 'a result" where
  "fail_at path message \<equiv> Inl (QueryParseError path message)"

section \<open>Dates\<close>

text \<open>A date, four digits, two and two with hyphens, at the start of a text.\<close>

definition date_prefix :: "string \<Rightarrow> (string \<times> string \<times> string \<times> string) option" where
  "date_prefix s =
     Option.bind (take_digits 4 s) (\<lambda>(y, r1). Option.bind (expect (CHR ''-'') r1) (\<lambda>r2.
       Option.bind (take_digits 2 r2) (\<lambda>(m, r3). Option.bind (expect (CHR ''-'') r3) (\<lambda>r4.
         Option.bind (take_digits 2 r4) (\<lambda>(d, r5). Some (y, m, d, r5))))))"

text \<open>Whether a text ends in \<open>Z\<close> or in an offset with or without the colon.\<close>

definition ends_in_zone :: "string \<Rightarrow> bool" where
  "ends_in_zone s =
     (case rev s of
        m2 # m1 # CHR '':'' # h2 # h1 # c # _ \<Rightarrow>
          m2 = CHR ''Z'' \<or> (list_all digit_char [m2, m1, h2, h1] \<and> (c = CHR ''+'' \<or> c = CHR ''-''))
      | m2 # m1 # h2 # h1 # c # _ \<Rightarrow>
          m2 = CHR ''Z'' \<or> (list_all digit_char [m2, m1, h2, h1] \<and> (c = CHR ''+'' \<or> c = CHR ''-''))
      | c # _ \<Rightarrow> c = CHR ''Z''
      | [] \<Rightarrow> False)"

definition normalizeDate :: "string \<Rightarrow> string" where
  "normalizeDate s =
     (let normalized =
        (case date_prefix s of
           Some (y, m, d, r) \<Rightarrow>
             (let spaces = takeWhile js_space r; rest = dropWhile js_space r
              in if spaces \<noteq> [] \<and> rest \<noteq> [] \<and> digit_char (hd rest)
                 then y @ ''-'' @ m @ ''-'' @ d @ ''T'' @ rest else s)
         | None \<Rightarrow> s)
      in case date_prefix normalized of
           Some (_, _, _, CHR ''T'' # _) \<Rightarrow> if ends_in_zone normalized then normalized else normalized @ ''Z''
         | _ \<Rightarrow> normalized)"

definition line_free :: "string \<Rightarrow> bool" where
  "line_free s = list_all (\<lambda>c. (of_char c :: nat) \<notin> {10, 13}) s"

definition leap_year :: "nat \<Rightarrow> bool" where
  "leap_year y \<longleftrightarrow> y mod 4 = 0 \<and> (y mod 100 \<noteq> 0 \<or> y mod 400 = 0)"

definition month_days :: "nat \<Rightarrow> nat list" where
  "month_days y = [31, if leap_year y then 29 else 28, 31, 30, 31, 30, 31, 31, 30, 31, 30, 31]"

definition validCalendarDate :: "host \<Rightarrow> string \<Rightarrow> string \<Rightarrow> bool" where
  "validCalendarDate h value scalar =
     (case date_prefix value of
        None \<Rightarrow> False
      | Some (y, m, d, rest) \<Rightarrow>
          if \<not> line_free rest \<or> (if scalar = ''Date'' then rest \<noteq> [] else rest \<noteq> [] \<and> \<not> startsWith rest ''T'') then False
          else (let year = digits_val y; month = digits_val m; day = digits_val d
                in year \<ge> 1 \<and> month \<ge> 1 \<and> month \<le> 12 \<and> day \<ge> 1 \<and> day \<le> month_days year ! (month - 1) \<and>
                   dateParse h (normalizeDate value) \<noteq> None))"

text \<open>The optional parts of a clock time: seconds with a fraction, and an offset.\<close>

definition time_fraction :: "string \<Rightarrow> (string \<times> string) option" where
  "time_fraction s =
     (case s of
        c # r \<Rightarrow> if c = CHR ''.'' \<or> c = CHR '','' then (let (f, r') = span_digits r in if f = [] then None else Some (f, r'))
                 else Some ([], s)
      | [] \<Rightarrow> Some ([], s))"

definition time_seconds :: "string \<Rightarrow> (string \<times> string \<times> string) option" where
  "time_seconds s =
     (case expect (CHR '':'') s of
        None \<Rightarrow> Some ([], [], s)
      | Some r \<Rightarrow> Option.bind (take_digits 2 r) (\<lambda>(ss, r1).
          Option.bind (time_fraction r1) (\<lambda>(f, r2). Some (ss, f, r2))))"

definition time_zone :: "string \<Rightarrow> (string \<times> string \<times> string) option" where
  "time_zone s =
     (if s = [] \<or> s = ''Z'' then Some ([], [], [])
      else if hd s = CHR ''+'' \<or> hd s = CHR ''-'' then
        Option.bind (take_digits 2 (tl s)) (\<lambda>(hh, r1). Option.bind (expect (CHR '':'') r1) (\<lambda>r2.
          Option.bind (take_digits 2 r2) (\<lambda>(mm, r3). Option.bind (time_seconds r3) (\<lambda>(ss, _, r4).
            if r4 = [] then Some (hh, mm, ss) else None))))
      else None)"

definition validTime :: "string \<Rightarrow> bool" where
  "validTime value =
     (case Option.bind (take_digits 2 value) (\<lambda>(hh, r1). Option.bind (expect (CHR '':'') r1) (\<lambda>r2.
        Option.bind (take_digits 2 r2) (\<lambda>(mm, r3). Option.bind (time_seconds r3) (\<lambda>(ss, f, r4).
          Option.bind (time_zone r4) (\<lambda>(zh, zm, zs). Some (hh, mm, ss, f, zh, zm, zs)))))) of
        None \<Rightarrow> False
      | Some (hh, mm, ss, f, zh, zm, zs) \<Rightarrow>
          (let hour = digits_val hh; minute = digits_val mm; second = digits_val ss;
               midnight = (hour = 24 \<and> minute = 0 \<and> second = 0 \<and> digits_val (take 6 f) = 0)
           in (hour < 24 \<or> midnight) \<and> minute < 60 \<and> second < 60 \<and>
              digits_val zh < 24 \<and> digits_val zm < 60 \<and> digits_val zs < 60))"

text \<open>
  The time value of a string, number or \<open>Date\<close>, as \<open>dateBoundary\<close>, \<open>dateGroup\<close> and \<open>temporalValue\<close>
  read it: a string is normalised and checked first. \<open>new Date(n)\<close> truncates, and is invalid
  beyond 8.64e15 milliseconds.
\<close>

definition date_of_number :: "jsnum \<Rightarrow> int option" where
  "date_of_number n =
     (case n of
        Fin r \<Rightarrow> (let t = (if r < 0 then - floor (- r) else floor r) in if \<bar>t\<bar> \<le> 8640000000000000 then Some t else None)
      | _ \<Rightarrow> None)"

definition date_from :: "host \<Rightarrow> jsval \<Rightarrow> string \<Rightarrow> string \<Rightarrow> string \<Rightarrow> string \<Rightarrow> int result" where
  "date_from h value scalar path expected invalid =
     (case value of
        Str s \<Rightarrow>
          (let normalized = normalizeDate s
           in if \<not> validCalendarDate h normalized scalar then fail_at path invalid
              else (case dateParse h normalized of None \<Rightarrow> fail_at path invalid | Some t \<Rightarrow> Inr t))
      | Num n \<Rightarrow> (case date_of_number n of None \<Rightarrow> fail_at path invalid | Some t \<Rightarrow> Inr t)
      | JsDate d \<Rightarrow> (case d of None \<Rightarrow> fail_at path invalid | Some t \<Rightarrow> Inr t)
      | _ \<Rightarrow> fail_at path expected)"

definition dateBoundary :: "host \<Rightarrow> jsval \<Rightarrow> string option \<Rightarrow> string result" where
  "dateBoundary h value scalar =
     rbind (date_from h value ''DateTime'' ''bucket.range'' ''expected a date boundary'' ''invalid date boundary'')
       (\<lambda>t. Inr (if scalar = Some ''Date'' then take 10 (toISOString t) else toISOString t))"

definition date_parts :: "int \<Rightarrow> (string \<times> int) list" where
  "date_parts t =
     [(''year_number'', getUTCFullYear t), (''quarter_number'', getUTCMonth t div 3 + 1),
      (''month_number'', getUTCMonth t + 1),
      (''day_of_year'', (t - date_UTC (getUTCFullYear t) 1 1) div ms_per_day + 1),
      (''day_of_month'', getUTCDate t), (''day_of_week'', getUTCDay t), (''hour_number'', getUTCHours t),
      (''minute_number'', getUTCMinutes t), (''second_number'', getUTCSeconds t)]"

definition iso_week :: "int \<Rightarrow> int" where
  "iso_week t =
     (let midnight = date_UTC (getUTCFullYear t) (getUTCMonth t + 1) (getUTCDate t);
          thursday = add_days midnight (3 - (getUTCDay midnight + 6) mod 7)
      in 1 + (thursday - date_UTC (getUTCFullYear thursday) 1 1) div (7 * ms_per_day))"

text \<open>\<open>String(n)\<close> of an integer.\<close>

definition int_text :: "int \<Rightarrow> string" where
  "int_text i = (if i < 0 then ''-'' @ nat_str (nat (- i)) else nat_str (nat i))"

definition dateGroup :: "host \<Rightarrow> jsval \<Rightarrow> string \<Rightarrow> string \<Rightarrow> jsval result" where
  "dateGroup h value extraction path =
     rbind (date_from h value ''DateTime'' path ''expected a date group value'' ''invalid date group value'') (\<lambda>t.
       case map_of (date_parts t) extraction of
         Some n \<Rightarrow> Inr (Num (Fin (of_int n)))
       | None \<Rightarrow>
           (let year = int_text (getUTCFullYear t); month = pad_num 2 (getUTCMonth t + 1)
            in if extraction = ''iso_week_number'' then Inr (Num (Fin (of_int (iso_week t))))
               else if extraction = ''year'' then Inr (Str year)
               else if extraction = ''quarter'' then Inr (Str (year @ ''-Q'' @ int_text (getUTCMonth t div 3 + 1)))
               else if extraction = ''month'' then Inr (Str (year @ ''-'' @ month))
               else if extraction = ''week'' then Inr (Str (take 10 (toISOString (monday t))))
               else if extraction = ''day'' then Inr (Str (take 10 (toISOString t)))
               else if extraction = ''hour'' then Inr (Str (take 13 (toISOString t)))
               else if extraction = ''minute'' then Inr (Str (take 16 (toISOString t)))
               else if extraction = ''second'' then Inr (Str (take 19 (toISOString t)))
               else fail_at path (''client extraction \"'' @ extraction @ ''\" is unsupported'')))"

text \<open>
  The fraction of a date-time text: the digits after the first \<open>T\<close> clock time with seconds and
  a point, anywhere in the text.
\<close>

fun clock_fraction :: "string \<Rightarrow> string" where
  "clock_fraction [] = []"
| "clock_fraction (c # s) =
     (case (if c = CHR ''T'' then
              Option.bind (take_digits 2 s) (\<lambda>(_, r1). Option.bind (expect (CHR '':'') r1) (\<lambda>r2.
                Option.bind (take_digits 2 r2) (\<lambda>(_, r3). Option.bind (expect (CHR '':'') r3) (\<lambda>r4.
                  Option.bind (take_digits 2 r4) (\<lambda>(_, r5). Option.bind (expect (CHR ''.'') r5) (\<lambda>r6.
                    if takeWhile digit_char r6 = [] then None else Some (takeWhile digit_char r6)))))))
            else None) of
        Some f \<Rightarrow> f
      | None \<Rightarrow> clock_fraction s)"

definition temporalValue :: "host \<Rightarrow> jsval \<Rightarrow> string \<Rightarrow> string result" where
  "temporalValue h value scalar =
     rbind (date_from h value scalar ''date'' ''expected a date value'' ''invalid date value'') (\<lambda>t.
       let iso = toISOString t
       in if scalar = ''Date'' then Inr (take 10 iso)
          else (let fraction = (case value of Str s \<Rightarrow> clock_fraction (normalizeDate s) | _ \<Rightarrow> take 3 (drop 20 iso))
                in Inr (take 19 iso @ ''.'' @ padEnd 9 (CHR ''0'') (take 6 fraction) @ ''Z'')))"

section \<open>Decimals\<close>

record decimal_text =
  dec_neg :: bool
  dec_int :: string
  dec_frac :: string
  dec_exp :: int

text \<open>
  The shape both decimal patterns accept: an optional sign, digits with an optional point and
  fraction, or a point and a fraction, and an optional exponent.
\<close>

definition take_sign :: "string \<Rightarrow> bool \<times> string" where
  "take_sign s = (case s of CHR ''-'' # r \<Rightarrow> (True, r) | CHR ''+'' # r \<Rightarrow> (False, r) | _ \<Rightarrow> (False, s))"

definition take_exponent :: "string \<Rightarrow> int option" where
  "take_exponent s =
     (case s of
        [] \<Rightarrow> Some 0
      | c # r \<Rightarrow>
          if c = CHR ''e'' \<or> c = CHR ''E'' then
            (let (neg, ds) = take_sign r
             in if ds \<noteq> [] \<and> list_all digit_char ds
                then Some ((if neg then -1 else 1) * int (digits_val ds)) else None)
          else None)"

definition parse_decimal :: "string \<Rightarrow> decimal_text option" where
  "parse_decimal s =
     (let (neg, r) = take_sign s; (i, r1) = span_digits r
      in case expect (CHR ''.'') r1 of
           None \<Rightarrow>
             if i = [] then None
             else (case take_exponent r1 of
                     None \<Rightarrow> None | Some e \<Rightarrow> Some \<lparr>dec_neg = neg, dec_int = i, dec_frac = [], dec_exp = e\<rparr>)
         | Some r2 \<Rightarrow>
             (let (f, r3) = span_digits r2
              in if i = [] \<and> f = [] then None
                 else (case take_exponent r3 of
                         None \<Rightarrow> None | Some e \<Rightarrow> Some \<lparr>dec_neg = neg, dec_int = i, dec_frac = f, dec_exp = e\<rparr>)))"

definition dec_digits :: "decimal_text \<Rightarrow> string" where
  "dec_digits d =
     (let ds = dropWhile (\<lambda>c. c = CHR ''0'') (dec_int d @ dec_frac d) in if ds = [] then ''0'' else ds)"

definition dec_order :: "decimal_text \<Rightarrow> int" where
  "dec_order d = int (length (dec_digits d)) + dec_exp d - int (length (dec_frac d))"

definition dec_sign :: "decimal_text \<Rightarrow> int" where
  "dec_sign d = (if dec_digits d = ''0'' then 0 else if dec_neg d then -1 else 1)"

definition compare_parts :: "decimal_text \<Rightarrow> decimal_text \<Rightarrow> int" where
  "compare_parts a b =
     (if dec_sign a \<noteq> dec_sign b then (if dec_sign a < dec_sign b then -1 else 1)
      else if dec_sign a = 0 then 0
      else if dec_order a \<noteq> dec_order b then (if dec_order a < dec_order b then -1 else 1) * dec_sign a
      else (let n = max (length (dec_digits a)) (length (dec_digits b));
                x = padEnd n (CHR ''0'') (dec_digits a); y = padEnd n (CHR ''0'') (dec_digits b)
            in (if x < y then -1 else if x > y then 1 else 0) * dec_sign a))"

text \<open>\<open>String(n)\<close> of a number.\<close>

definition num_string :: "host \<Rightarrow> jsnum \<Rightarrow> string" where
  "num_string h n = (case n of Fin r \<Rightarrow> numberToString h r | PosInf \<Rightarrow> ''Infinity'' | NegInf \<Rightarrow> ''-Infinity'' | NaN \<Rightarrow> ''NaN'')"

definition decimal_parts :: "host \<Rightarrow> jsval \<Rightarrow> string \<Rightarrow> decimal_text result" where
  "decimal_parts h value path =
     (case (case value of Str s \<Rightarrow> parse_decimal s | Num n \<Rightarrow> parse_decimal (num_string h n) | _ \<Rightarrow> None) of
        None \<Rightarrow> fail_at path ''expected a decimal''
      | Some d \<Rightarrow> Inr d)"

definition compareDecimal :: "host \<Rightarrow> jsval \<Rightarrow> jsval \<Rightarrow> string \<Rightarrow> int result" where
  "compareDecimal h left right path =
     rbind (decimal_parts h left path) (\<lambda>a. rbind (decimal_parts h right path) (\<lambda>b. Inr (compare_parts a b)))"

end
