(* ===== verification/Queries.thy ===== *)
theory Queries
  imports Temporal
begin

text \<open>
  The resource query language: the contract types of \<open>packages/metadata/src/query-schema.ts\<close> and the
  class \<open>ResourceQuery\<close> of \<open>query.ts\<close>, which checks a filter against the declared fields and
  operators, compiles it to a Hasura condition, reads conditions back, orders and matches rows
  on the client. A resource query is the record of its contract; its methods are functions of it.
  Names are assumed not to be properties of \<open>Object.prototype\<close> where the code reads a declaration
  by name.
\<close>

section \<open>The contract\<close>

record enum_value =
  ev_value :: string
  ev_description :: "string option"

type_synonym value_map = "(jsval \<times> jsval) list"

datatype drill_kind = DrillValue | DrillIdentity | DrillRange | DrillJson

datatype null_mode = NullIsNull | NullValue | NullUnavailable

record query_drill =
  dr_kind :: drill_kind
  dr_field :: string
  dr_valueKey :: string
  dr_rangeKey :: "string option"
  dr_jsonPath :: "string option"
  dr_json :: bool
  dr_valueMap :: value_map
  dr_nullMode :: null_mode

record query_extraction =
  ex_name :: string
  ex_input :: string
  ex_key :: string
  ex_rangeKey :: "string option"
  ex_drill :: "query_drill option"

record filter_decl =
  fd_field :: string
  fd_scalar :: string
  fd_values :: "enum_value list"
  fd_valueMap :: "value_map option"
  fd_operators :: "string list"

datatype field_kind = KScalar | KEnum | KRelation | KJson | KList | KObject

record relation_decl =
  rel_model :: string
  rel_identityPath :: "string option"
  rel_labelPath :: "string option"

record row_decl =
  row_path :: string
  row_paths :: "string list"

record query_field =
  qf_kind :: field_kind
  qf_scalar :: "string option"
  qf_values :: "enum_value list"
  qf_nullable :: bool
  qf_row :: "row_decl option"
  qf_filter :: "filter_decl option"
  qf_sort :: "string option"
  qf_relation :: "relation_decl option"

datatype axis_kind = AxisColumn | AxisRelation | AxisJson | AxisDate

record server_decl =
  sv_input :: string
  sv_key :: string
  sv_labelInput :: "string option"
  sv_labelKey :: "string option"
  sv_valueMap :: "value_map option"

record query_axis =
  ax_field :: string
  ax_kind :: axis_kind
  ax_identityPath :: "string option"
  ax_paths :: "string list"
  ax_labelPath :: "string option"
  ax_server :: "server_decl option"
  ax_extractions :: "query_extraction list"
  ax_drill :: "query_drill option"

datatype direction = Asc | Desc

record resource_query =
  rq_identity :: string
  rq_fields :: "query_field table"
  rq_axes :: "query_axis table"
  rq_sort :: "(string \<times> direction) list"
  rq_textSearch :: "string list"

definition field_of :: "resource_query \<Rightarrow> string \<Rightarrow> query_field option" where
  "field_of q name = map_of (rq_fields q) name"

definition filter_of :: "resource_query \<Rightarrow> string \<Rightarrow> filter_decl option" where
  "filter_of q name = Option.bind (field_of q name) qf_filter"

definition TEXT_OPERATORS :: "string list" where
  "TEXT_OPERATORS = [''contains'', ''iContains'', ''startsWith'', ''iStartsWith'', ''endsWith'', ''iEndsWith'',
     ''like'', ''iLike'', ''notLike'', ''notILike'', ''similar'', ''notSimilar'', ''regex'', ''iRegex'', ''notRegex'', ''notIRegex'']"

definition BASIC_OPERATORS :: "string list" where
  "BASIC_OPERATORS = [''exact'', ''ne'', ''inList'', ''notInList'', ''isNull'']"

definition ORDER_OPERATORS :: "string list" where
  "ORDER_OPERATORS = [''gt'', ''gte'', ''lt'', ''lte'']"

definition WIRE_OPERATORS :: "(string \<times> string) list" where
  "WIRE_OPERATORS = [(''exact'', ''_eq''), (''ne'', ''_neq''), (''gt'', ''_gt''), (''gte'', ''_gte''), (''lt'', ''_lt''), (''lte'', ''_lte''),
     (''inList'', ''_in''), (''notInList'', ''_nin''), (''isNull'', ''_is_null''),
     (''contains'', ''_like''), (''iContains'', ''_ilike''), (''startsWith'', ''_like''), (''iStartsWith'', ''_ilike''),
     (''endsWith'', ''_like''), (''iEndsWith'', ''_ilike''), (''like'', ''_like''), (''iLike'', ''_ilike''),
     (''notLike'', ''_nlike''), (''notILike'', ''_nilike''), (''similar'', ''_similar''), (''notSimilar'', ''_nsimilar''),
     (''regex'', ''_regex''), (''iRegex'', ''_iregex''), (''notRegex'', ''_nregex''), (''notIRegex'', ''_niregex''),
     (''jsonContains'', ''_contains''), (''jsonContainedIn'', ''_contained_in''), (''hasKey'', ''_has_key''),
     (''hasKeysAny'', ''_has_keys_any''), (''hasKeysAll'', ''_has_keys_all'')]"

definition wire_operator :: "string \<Rightarrow> string" where
  "wire_operator operator = (case map_of WIRE_OPERATORS operator of Some w \<Rightarrow> w | None \<Rightarrow> ''undefined'')"

definition SUBSTRING_OPERATORS :: "string list" where
  "SUBSTRING_OPERATORS = [''contains'', ''iContains'', ''startsWith'', ''iStartsWith'', ''endsWith'', ''iEndsWith'']"

section \<open>Operands\<close>

text \<open>\<open>String(v)\<close>.\<close>

fun js_string :: "host \<Rightarrow> jsval \<Rightarrow> string" where
  "js_string h Undefined = ''undefined''"
| "js_string h Null = ''null''"
| "js_string h (Bool b) = (if b then ''true'' else ''false'')"
| "js_string h (Num n) = num_string h n"
| "js_string h (Str s) = s"
| "js_string h (Arr xs) = js_join '','' (map (\<lambda>x. if is_nullish x then [] else js_string h x) xs)"
| "js_string h v = objectString h v"

fun is_finite_num :: "jsval \<Rightarrow> bool" where
  "is_finite_num (Num (Fin _)) = True"
| "is_finite_num _ = False"

fun is_string :: "jsval \<Rightarrow> bool" where
  "is_string (Str _) = True"
| "is_string _ = False"

fun is_bool :: "jsval \<Rightarrow> bool" where
  "is_bool (Bool _) = True"
| "is_bool _ = False"

definition int_operand :: "rat \<Rightarrow> string \<Rightarrow> jsval result" where
  "int_operand r path =
     (if of_int (floor r) \<noteq> r then fail_at path ''expected an integer''
      else if r < - (2 ^ 31) \<or> r > 2 ^ 31 - 1 then fail_at path ''expected a signed 32-bit integer''
      else Inr (Num (Fin r)))"

definition scalarOperand :: "host \<Rightarrow> query_field \<Rightarrow> jsval \<Rightarrow> string \<Rightarrow> jsval result" where
  "scalarOperand h field value path =
     (let scalar = (case qf_filter field of Some d \<Rightarrow> fd_scalar d | None \<Rightarrow> []);
          values = (case qf_filter field of Some d \<Rightarrow> fd_values d | None \<Rightarrow> [])
      in if value = Null then fail_at path ''use isNull for a null comparison''
         else if scalar = ''JSON'' then filterValueFromUnknown h value path
         else if scalar = ''ID'' then
           (if is_string value \<or> is_finite_num value then Inr (Str (js_string h value))
            else fail_at path ''expected a public identity'')
         else if scalar = ''Enum'' then
           (case value of
              Str s \<Rightarrow> if values \<noteq> [] \<and> \<not> list_ex (\<lambda>item. ev_value item = s) values
                        then fail_at path ''expected a declared enum value'' else Inr value
            | _ \<Rightarrow> fail_at path ''expected a declared enum value'')
         else if scalar = ''Boolean'' then (if is_bool value then Inr value else fail_at path ''expected a boolean'')
         else if scalar = ''Int'' then
           (case value of Num (Fin r) \<Rightarrow> int_operand r path | _ \<Rightarrow> fail_at path ''expected an integer'')
         else if scalar = ''Float'' then
           (if is_finite_num value then Inr value else fail_at path ''expected a finite number'')
         else if scalar = ''Decimal'' then
           (if is_finite_num value \<or> (case value of Str s \<Rightarrow> parse_decimal s \<noteq> None | _ \<Rightarrow> False)
            then Inr (Str (js_string h value)) else fail_at path ''expected a decimal'')
         else if scalar = ''Date'' \<or> scalar = ''DateTime'' then
           (case value of Str s \<Rightarrow> if validCalendarDate h s scalar then Inr value else fail_at path ''expected an ISO date''
            | _ \<Rightarrow> fail_at path ''expected an ISO date'')
         else if scalar = ''Time'' then
           (case value of Str s \<Rightarrow> if validTime s then Inr value else fail_at path ''expected an ISO time''
            | _ \<Rightarrow> fail_at path ''expected an ISO time'')
         else if scalar \<noteq> [] \<and> scalar \<noteq> ''Unknown'' then
           (if is_string value then Inr value else fail_at path ''expected a string'')
         else if is_string value \<or> is_bool value \<or> is_finite_num value then Inr value
         else fail_at path ''expected a scalar value'')"

definition operandOf :: "host \<Rightarrow> query_field \<Rightarrow> string \<Rightarrow> jsval \<Rightarrow> string \<Rightarrow> jsval result" where
  "operandOf h field operator value path =
     (if operator = ''isNull'' then (if is_bool value then Inr value else fail_at path ''expected a boolean'')
      else if operator = ''inList'' \<or> operator = ''notInList'' then
        (case value of
           Arr xs \<Rightarrow> rbind (map_res (\<lambda>(i, item). scalarOperand h field item (at_index path i)) (enumerate 0 xs)) (\<lambda>ys. Inr (Arr ys))
         | _ \<Rightarrow> fail_at path ''expected an array'')
      else if operator \<in> set TEXT_OPERATORS \<or> operator = ''hasKey'' then
        (if is_string value then Inr value else fail_at path ''expected a string'')
      else if operator = ''hasKeysAny'' \<or> operator = ''hasKeysAll'' then
        (case value of Arr xs \<Rightarrow> if list_all is_string xs then Inr value else fail_at path ''expected an array of strings''
         | _ \<Rightarrow> fail_at path ''expected an array of strings'')
      else if operator = ''jsonContains'' \<or> operator = ''jsonContainedIn'' then filterValueFromUnknown h value path
      else scalarOperand h field value path)"

section \<open>Filters of a resource\<close>

text \<open>The comparisons of one declared field.\<close>

definition checkLookup :: "host \<Rightarrow> query_field \<Rightarrow> filter_decl \<Rightarrow> jsval table \<Rightarrow> string \<Rightarrow> jsval table result" where
  "checkLookup h field decl comparisons fieldPath =
     (if comparisons = [] then fail_at fieldPath ''expected at least one comparison''
      else rbind (map_res (\<lambda>(operator, v).
              if operator \<notin> set FILTER_OPERATORS \<or> operator \<notin> set (fd_operators decl)
              then fail_at (fieldPath @ ''.'' @ operator) ''operator is not supported by this field''
              else rbind (operandOf h field operator v (fieldPath @ ''.'' @ operator)) (\<lambda>w. Inr (operator, w)))
            (sortEntries h comparisons))
         (\<lambda>ps. Inr (obj_of ps)))"

function (sequential) checkFilter :: "host \<Rightarrow> resource_query \<Rightarrow> jsval \<Rightarrow> string \<Rightarrow> jsval table result" where
  "checkFilter h q (Obj es) path =
     rbind (map_res (\<lambda>(name, operand).
        let fieldPath = path @ ''.'' @ name
        in if name = ''AND'' \<or> name = ''OR'' then
             rbind (map_res (\<lambda>(i, branch). rbind (checkFilter h q branch (at_index fieldPath i)) (\<lambda>f. Inr (Obj f)))
                            (enumerate 0 (branchList operand)))
                   (\<lambda>bs. Inr (name, Arr bs))
           else if name = ''NOT'' then
             rbind (checkFilter h q operand fieldPath) (\<lambda>f. Inr (name, Obj f))
           else (case (field_of q name, filter_of q name) of
                   (Some field, Some decl) \<Rightarrow>
                     rbind (checkLookup h field decl (entries_of operand) fieldPath) (\<lambda>l. Inr (name, Obj l))
                 | _ \<Rightarrow> fail_at fieldPath ''unknown or non-filterable field''))
       (sortEntries h es))
      (\<lambda>ps. Inr (obj_of ps))"
| "checkFilter h q _ path = fail_at path ''expected a filter object''"
  by pat_completeness auto
termination
proof (relation "measure (\<lambda>(h, q, v, path). size v)", goal_cases)
  case (2 h q es path x nm val fp y i branch)
  then have "size branch \<le> size val"
    by (auto simp: in_set_enumerate_eq intro!: size_branchList)
  moreover have "size val < size (Obj es)"
    using 2 size_Obj_mem[of nm val es] by auto
  ultimately show ?case by simp
next
  case (3 h q es path x nm val fp)
  then show ?case using size_Obj_mem[of nm val es] by auto
qed auto

definition filterFrom :: "host \<Rightarrow> resource_query \<Rightarrow> jsval \<Rightarrow> jsval table result" where
  "filterFrom h q value = rbind (Filter_from h value) (\<lambda>f. checkFilter h q (Obj f) ''filter'')"

definition query_withoutFields :: "host \<Rightarrow> resource_query \<Rightarrow> jsval \<Rightarrow> string set \<Rightarrow> jsval table result" where
  "query_withoutFields h q value names =
     rbind (filterFrom h q value) (\<lambda>f. rbind (Filter_from h (Obj f)) (\<lambda>g. Inr (withoutFields g names)))"

section \<open>Conditions\<close>

text \<open>
  \<open>writePath\<close> on a new object: nested one-entry objects along the path. Every segment but the
  last gets a fresh child.
\<close>

fun write_path :: "string list \<Rightarrow> jsval \<Rightarrow> jsval" where
  "write_path [] v = v"
| "write_path (key # path) v = Obj [(key, write_path path v)]"

definition PROTOTYPE_NAMES :: "string list" where
  "PROTOTYPE_NAMES = [''constructor'', ''__defineGetter__'', ''__defineSetter__'', ''hasOwnProperty'', ''__lookupGetter__'',
     ''__lookupSetter__'', ''isPrototypeOf'', ''propertyIsEnumerable'', ''toString'', ''valueOf'', ''toLocaleString'']"

text \<open>\<open>key in object\<close> for an ordinary object.\<close>

definition obj_in :: "string \<Rightarrow> 'v table \<Rightarrow> bool" where
  "obj_in key o' \<longleftrightarrow> obj_has o' key \<or> key \<in> set PROTOTYPE_NAMES"

text \<open>One entry of the merge; \<open>None\<close> is the early return with an explicit conjunction.\<close>

definition merge_entry :: "string \<times> jsval \<Rightarrow> jsval table \<Rightarrow> jsval table option" where
  "merge_entry e merged =
     (let (key, value) = e
      in if \<not> obj_in key merged then Some (obj_put key value merged)
         else (case (map_of merged key, value) of
                 (Some (Obj current), Obj new) \<Rightarrow>
                   if list_all (\<lambda>child. \<not> obj_in child current) (keys new)
                   then Some (obj_put key (Obj (obj_spread current new)) merged) else None
               | _ \<Rightarrow> None))"

fun merge_loop :: "(string \<times> jsval) list \<Rightarrow> jsval table \<Rightarrow> jsval table option" where
  "merge_loop [] merged = Some merged"
| "merge_loop (e # es) merged = Option.bind (merge_entry e merged) (merge_loop es)"

definition mergeConditions :: "jsval list \<Rightarrow> jsval table" where
  "mergeConditions conditions =
     (case merge_loop (concat (map entries_of conditions)) [] of
        Some merged \<Rightarrow> merged
      | None \<Rightarrow> [(''_and'', Arr conditions)])"

definition escape_like :: "string \<Rightarrow> string" where
  "escape_like s = concat (map (\<lambda>c. if c = CHR 0x5C \<or> c = CHR ''%'' \<or> c = CHR ''_'' then [CHR 0x5C, c] else [c]) s)"

definition wireOperand :: "host \<Rightarrow> string \<Rightarrow> jsval \<Rightarrow> jsval" where
  "wireOperand h operator value =
     (if operator \<in> set SUBSTRING_OPERATORS then
        (let escaped = escape_like (js_string h value)
         in if operator = ''contains'' \<or> operator = ''iContains'' then Str (''%'' @ escaped @ ''%'')
            else if operator = ''startsWith'' \<or> operator = ''iStartsWith'' then Str (escaped @ ''%'')
            else Str (''%'' @ escaped))
      else value)"

fun unescape_like :: "string \<Rightarrow> string" where
  "unescape_like [] = []"
| "unescape_like [c] = [c]"
| "unescape_like (c # d # s) =
     (if c = CHR 0x5C \<and> (d = CHR 0x5C \<or> d = CHR ''%'' \<or> d = CHR ''_'') then d # unescape_like s
      else c # unescape_like (d # s))"

text \<open>\<open>undefined\<close> when the operand is not in the image of the operator.\<close>

definition fromWireOperand :: "host \<Rightarrow> string \<Rightarrow> jsval \<Rightarrow> jsval" where
  "fromWireOperand h operator value =
     (if operator \<notin> set SUBSTRING_OPERATORS then value
      else case value of
        Str s \<Rightarrow>
          (let start = (operator \<in> {''contains'', ''iContains'', ''endsWith'', ''iEndsWith''});
               fin = (operator \<in> {''contains'', ''iContains'', ''startsWith'', ''iStartsWith''});
               inner = drop (if start then 1 else 0) (if fin then butlast s else s);
               text = unescape_like inner
           in if wireOperand h operator (Str text) = Str s then Str text else Undefined)
      | _ \<Rightarrow> Undefined)"

text \<open>The condition of one comparison of a field.\<close>

definition comparison_clause :: "host \<Rightarrow> resource_query \<Rightarrow> string \<Rightarrow> string \<times> jsval \<Rightarrow> jsval" where
  "comparison_clause h q field = (\<lambda>(operator, v).
     write_path (js_split (CHR ''.'') (case filter_of q field of Some d \<Rightarrow> fd_field d | None \<Rightarrow> []))
       (Obj [(wire_operator operator, wireOperand h operator v)]))"

function whereOf :: "host \<Rightarrow> resource_query \<Rightarrow> jsval \<Rightarrow> jsval table" where
  "whereOf h q flt =
     mergeConditions (concat (map (\<lambda>(field, operand).
       if field = ''AND'' \<or> field = ''OR'' then
         [Obj [(if field = ''AND'' then ''_and'' else ''_or'', Arr (map (\<lambda>branch. Obj (whereOf h q branch)) (branches_of operand)))]]
       else if field = ''NOT'' then [Obj [(''_not'', Obj (whereOf h q operand))]]
       else map (comparison_clause h q field) (entries_of operand)) (entries_of flt)))"
  by pat_completeness auto
termination
  by (relation "measure (\<lambda>(h, q, flt). size flt)") (auto dest!: size_entries_of size_branches_of)

declare whereOf.simps [simp del]

definition hasuraWhereRoot :: "jsval table \<Rightarrow> jsval table" where
  "hasuraWhereRoot condition =
     (if length condition \<le> 1 then condition
      else [(''_and'', Arr (map (\<lambda>(field, value). Obj [(field, value)]) condition))])"

definition toWhere :: "host \<Rightarrow> resource_query \<Rightarrow> jsval list \<Rightarrow> jsval table result" where
  "toWhere h q values =
     rbind (map_res (\<lambda>value. rbind (filterFrom h q value) (\<lambda>f. Inr (whereOf h q (Obj f)))) values) (\<lambda>ws.
       let parts = filter (\<lambda>w. w \<noteq> []) ws;
           combined = (case parts of [] \<Rightarrow> [] | [w] \<Rightarrow> w | _ \<Rightarrow> [(''_and'', Arr (map Obj parts))])
       in Inr (hasuraWhereRoot combined))"

end
