(* ===== verification/QueryFacts.thy ===== *)
theory QueryFacts
  imports Queries FilterFacts
begin

text \<open>
  The compiler of \<open>query.ts\<close> from filters to Hasura conditions is correct: a condition holds
  exactly when the filter it came from does, for every reading of the single comparisons. The
  merge of conditions into one object and the explicit conjunction at the root keep the meaning.
\<close>

declare parseFilter.simps(1) [simp del] stringify.simps [simp del]

section \<open>The meaning of a condition\<close>

definition wire_names :: "string set" where
  "wire_names = set (map snd WIRE_OPERATORS)"

definition plain_key :: "string \<Rightarrow> bool" where
  "plain_key k \<longleftrightarrow> k \<notin> {''_and'', ''_or'', ''_not''} \<and> k \<notin> wire_names"

function wire_holds :: "(string list \<Rightarrow> string \<Rightarrow> jsval \<Rightarrow> bool) \<Rightarrow> string list \<Rightarrow> jsval \<Rightarrow> bool" where
  "wire_holds leaf path cond =
     list_all (\<lambda>(k, v).
       if k = ''_and'' then list_all (wire_holds leaf path) (branches_of v)
       else if k = ''_or'' then list_ex (wire_holds leaf path) (branches_of v)
       else if k = ''_not'' then \<not> wire_holds leaf path v
       else if k \<in> wire_names then leaf path k v
       else wire_holds leaf (path @ [k]) v) (entries_of cond)"
  by pat_completeness auto
termination
  by (relation "measure (\<lambda>(leaf, path, cond). size cond)") (auto dest!: size_entries_of size_branches_of)

declare wire_holds.simps [simp del]

definition wire_entry :: "(string list \<Rightarrow> string \<Rightarrow> jsval \<Rightarrow> bool) \<Rightarrow> string list \<Rightarrow> string \<times> jsval \<Rightarrow> bool" where
  "wire_entry leaf path e =
     (if fst e = ''_and'' then (\<forall>b \<in> set (branches_of (snd e)). wire_holds leaf path b)
      else if fst e = ''_or'' then (\<exists>b \<in> set (branches_of (snd e)). wire_holds leaf path b)
      else if fst e = ''_not'' then \<not> wire_holds leaf path (snd e)
      else if fst e \<in> wire_names then leaf path (fst e) (snd e)
      else wire_holds leaf (path @ [fst e]) (snd e))"

lemma wire_holds_entries: "wire_holds leaf path cond \<longleftrightarrow> (\<forall>e \<in> set (entries_of cond). wire_entry leaf path e)"
  unfolding wire_holds.simps[of leaf path cond] list_all_iff wire_entry_def
  by (intro ball_cong) (auto simp only: list_all_iff list_ex_iff split_paired_all prod.case fst_conv snd_conv)

lemma wire_holds_Obj: "wire_holds leaf path (Obj es) \<longleftrightarrow> (\<forall>e \<in> set es. wire_entry leaf path e)"
  by (simp add: wire_holds_entries)

lemma wire_names_not_groups: "''_and'' \<notin> wire_names" "''_or'' \<notin> wire_names" "''_not'' \<notin> wire_names"
  by (simp_all add: wire_names_def WIRE_OPERATORS_def)

lemma plain_entry: "plain_key k \<Longrightarrow> wire_entry leaf path (k, v) \<longleftrightarrow> wire_holds leaf (path @ [k]) v"
  by (simp add: wire_entry_def plain_key_def)

lemma wire_holds_path:
  "list_all plain_key ks \<Longrightarrow> w \<in> wire_names \<Longrightarrow> wire_holds leaf path (write_path ks (Obj [(w, x)])) \<longleftrightarrow> leaf (path @ ks) w x"
proof (induction ks arbitrary: path)
  case Nil
  then show ?case using wire_names_not_groups by (auto simp: wire_holds_Obj wire_entry_def)
next
  case (Cons k ks)
  then show ?case by (simp add: wire_holds_Obj plain_entry)
qed

section \<open>Merging\<close>

lemma obj_spread_disjoint:
  "list_all (\<lambda>child. \<not> obj_in child current) (keys new) \<Longrightarrow> distinct (keys new) \<Longrightarrow>
   set (obj_spread current new) = set current \<union> set new"
proof (induction new arbitrary: current)
  case (Cons e new)
  obtain k v where e: "e = (k, v)" by (cases e)
  have fresh: "k \<notin> set (keys current)" using Cons.prems by (simp add: e obj_in_def obj_has_iff)
  have "list_all (\<lambda>child. \<not> obj_in child (obj_put k v current)) (keys new)"
    using Cons.prems by (auto simp: e list_all_iff obj_in_def obj_has_def)
  with Cons set_obj_put_fresh[OF fresh, of v] show ?case by (simp add: obj_spread_def e)
qed (simp add: obj_spread_def)

text \<open>The entries that may be merged: fields any number of times, Boolean groups once each.\<close>

definition shallow_ok :: "jsval \<Rightarrow> bool" where
  "shallow_ok v = (case v of Obj es \<Rightarrow> table_ok es | _ \<Rightarrow> True)"

definition mergeable :: "(string \<times> jsval) list \<Rightarrow> jsval table \<Rightarrow> bool" where
  "mergeable es merged \<longleftrightarrow>
     distinct (filter (\<lambda>k. \<not> plain_key k) (keys es)) \<and>
     (\<forall>k \<in> set (keys es). \<not> plain_key k \<longrightarrow> k \<notin> set (keys merged) \<and> k \<notin> set PROTOTYPE_NAMES) \<and>
     (\<forall>(k, v) \<in> set es. shallow_ok v)"

lemma set_obj_put_replace: "table_ok es \<Longrightarrow> set (obj_put k v es) = insert (k, v) {e \<in> set es. fst e \<noteq> k}"
proof (induction k v es rule: obj_put.induct)
  case (2 k v k' v' es)
  have tail: "table_ok es" and k': "k' \<notin> set (keys es)" and ranks: "\<forall>x \<in> set (keys es). key_rank k' \<le> key_rank x"
    using "2.prems" by (auto simp: table_ok_def)
  consider "k = k'" | "k \<noteq> k'" "key_rank k < key_rank k'" | "k \<noteq> k'" "\<not> key_rank k < key_rank k'" by blast
  then show ?case
  proof cases
    case 1
    then show ?thesis using k' by (auto simp: rev_image_eqI)
  next
    case b: 2
    then have "k \<notin> set (keys es)" using ranks by force
    with b show ?thesis by (auto simp: rev_image_eqI)
  next
    case c: 3
    then have "set (obj_put k v es) = insert (k, v) {e \<in> set es. fst e \<noteq> k}" using "2.IH" tail by blast
    with c show ?thesis by auto
  qed
qed simp

lemma merge_entry_cases:
  assumes "merge_entry (k, v) merged = Some m"
  obtains (fresh) "k \<notin> set (keys merged)" "m = obj_put k v merged"
    | (both) current new where "map_of merged k = Some (Obj current)" "v = Obj new"
        "list_all (\<lambda>child. \<not> obj_in child current) (keys new)" "m = obj_put k (Obj (obj_spread current new)) merged"
  using assms by (auto simp: merge_entry_def obj_in_def obj_has_iff split: if_splits option.splits jsval.splits)

lemma merge_entry_keys: "merge_entry (k, v) merged = Some m \<Longrightarrow> set (keys m) = insert k (set (keys merged))"
  by (erule merge_entry_cases) (simp_all only: keys_obj_put)

lemma merge_entry_ok: "merge_entry (k, v) merged = Some m \<Longrightarrow> table_ok merged \<Longrightarrow> table_ok m"
  by (erule merge_entry_cases) (simp_all add: table_ok_put)

lemma ball_insert_iff: "(\<forall>x \<in> insert a B. P x) \<longleftrightarrow> P a \<and> (\<forall>x \<in> B. P x)"
  by simp

lemma merge_entry_holds:
  assumes "merge_entry (k, v) merged = Some m" "table_ok merged" "shallow_ok v"
    and "plain_key k \<or> k \<notin> set (keys merged)"
  shows "(\<forall>e \<in> set m. wire_entry leaf path e) \<longleftrightarrow> (\<forall>e \<in> set merged. wire_entry leaf path e) \<and> wire_entry leaf path (k, v)"
  using assms(1)
proof (cases rule: merge_entry_cases)
  case fresh
  then show ?thesis by (auto simp only: set_obj_put_fresh[OF fresh(1)] ball_simps)
next
  case (both current new)
  then have mem: "(k, Obj current) \<in> set merged" by (simp add: map_of_SomeD)
  then have plain: "plain_key k" using assms(4) by (auto simp: rev_image_eqI)
  have "distinct (keys new)" using assms(3) both(2) by (simp add: shallow_ok_def table_ok_def)
  then have s: "set (obj_spread current new) = set current \<union> set new" using both(3) by (intro obj_spread_disjoint)
  have "wire_entry leaf path (k, Obj (obj_spread current new)) \<longleftrightarrow>
      wire_entry leaf path (k, Obj current) \<and> wire_entry leaf path (k, v)"
    using plain s by (auto simp: plain_entry wire_holds_Obj both(2))
  moreover have m: "set m = insert (k, Obj (obj_spread current new)) {e \<in> set merged. fst e \<noteq> k}"
    using both(4) set_obj_put_replace[OF assms(2)] by simp
  moreover have "e = (k, Obj current)" if "e \<in> set merged" "fst e = k" for e
    using that mem assms(2) by (metis eq_key_imp_eq_value prod.collapse table_ok_def)
  then have merged: "set merged = insert (k, Obj current) {e \<in> set merged. fst e \<noteq> k}" using mem by blast
  have "(\<forall>e \<in> set merged. wire_entry leaf path e) \<longleftrightarrow>
      wire_entry leaf path (k, Obj current) \<and> (\<forall>e \<in> {e \<in> set merged. fst e \<noteq> k}. wire_entry leaf path e)"
    by (rule arg_cong[OF merged, where f = "\<lambda>S. \<forall>e \<in> S. wire_entry leaf path e", unfolded ball_insert_iff])
  ultimately show ?thesis unfolding m ball_insert_iff by blast
qed

lemma merge_loop_holds:
  assumes "merge_loop es merged = Some m" "table_ok merged" "mergeable es merged"
  shows "(\<forall>e \<in> set m. wire_entry leaf path e) \<longleftrightarrow> (\<forall>e \<in> set merged. wire_entry leaf path e) \<and> (\<forall>e \<in> set es. wire_entry leaf path e)"
  using assms
proof (induction es arbitrary: merged)
  case (Cons e es)
  obtain k v where e: "e = (k, v)" by (cases e)
  obtain m1 where m1: "merge_entry (k, v) merged = Some m1" "merge_loop es m1 = Some m"
    using Cons.prems(1) by (auto simp: e bind_eq_Some_conv)
  have "mergeable es m1"
    using Cons.prems(3) merge_entry_keys[OF m1(1)] by (auto simp: mergeable_def e split: if_splits)
  with Cons.IH[OF m1(2) merge_entry_ok[OF m1(1) Cons.prems(2)]]
  have "(\<forall>e \<in> set m. wire_entry leaf path e) \<longleftrightarrow> (\<forall>e \<in> set m1. wire_entry leaf path e) \<and> (\<forall>e \<in> set es. wire_entry leaf path e)" .
  moreover have "(\<forall>e \<in> set m1. wire_entry leaf path e) \<longleftrightarrow> (\<forall>e \<in> set merged. wire_entry leaf path e) \<and> wire_entry leaf path (k, v)"
    using Cons.prems(3) by (intro merge_entry_holds[OF m1(1) Cons.prems(2)]) (auto simp: mergeable_def e)
  ultimately show ?case by (auto simp: e)
qed simp

lemma merge_holds:
  assumes "mergeable (concat (map entries_of cs)) []"
  shows "wire_holds leaf path (Obj (mergeConditions cs)) \<longleftrightarrow> (\<forall>c \<in> set cs. wire_holds leaf path c)"
proof (cases "merge_loop (concat (map entries_of cs)) []")
  case None
  then show ?thesis by (simp add: mergeConditions_def wire_holds_Obj wire_entry_def branches_of_def)
next
  case (Some m)
  then show ?thesis
    using merge_loop_holds[OF Some table_ok_Nil assms, of leaf path]
    by (auto simp: mergeConditions_def wire_holds_Obj wire_holds_entries)
qed

lemma root_holds: "wire_holds leaf path (Obj (hasuraWhereRoot w)) \<longleftrightarrow> wire_holds leaf path (Obj w)"
  by (auto simp: hasuraWhereRoot_def wire_holds_Obj wire_entry_def branches_of_def)

section \<open>Compilation\<close>

text \<open>The fields of a resource compile to paths of ordinary names.\<close>

definition paths_ok :: "resource_query \<Rightarrow> bool" where
  "paths_ok q \<longleftrightarrow> (\<forall>(name, f) \<in> set (rq_fields q).
     case qf_filter f of Some d \<Rightarrow> list_all plain_key (js_split (CHR ''.'') (fd_field d)) | None \<Rightarrow> True)"

definition field_path :: "resource_query \<Rightarrow> string \<Rightarrow> string list" where
  "field_path q field = js_split (CHR ''.'') (case filter_of q field of Some d \<Rightarrow> fd_field d | None \<Rightarrow> [])"

lemma field_path_plain: "paths_ok q \<Longrightarrow> list_all plain_key (field_path q field)"
proof -
  assume ok: "paths_ok q"
  have empty: "plain_key []" by (simp add: plain_key_def wire_names_def WIRE_OPERATORS_def)
  show ?thesis
  proof (cases "filter_of q field")
    case None
    then show ?thesis using empty by (simp add: field_path_def)
  next
    case (Some d)
    then obtain f where "(field, f) \<in> set (rq_fields q)" "qf_filter f = Some d"
      by (auto simp: filter_of_def field_of_def bind_eq_Some_conv dest: map_of_SomeD)
    with ok Some show ?thesis by (fastforce simp: paths_ok_def field_path_def)
  qed
qed

text \<open>A comparison of a field, read through the operator and operand it compiles to.\<close>

definition compiled_leaf ::
  "host \<Rightarrow> resource_query \<Rightarrow> (string list \<Rightarrow> string \<Rightarrow> jsval \<Rightarrow> bool) \<Rightarrow> string \<Rightarrow> jsval \<Rightarrow> bool" where
  "compiled_leaf h q leaf field operand \<longleftrightarrow>
     (\<forall>(operator, v) \<in> set (entries_of operand). leaf (field_path q field) (wire_operator operator) (wireOperand h operator v))"

text \<open>The conditions one entry of a filter compiles to.\<close>

definition entry_conditions :: "host \<Rightarrow> resource_query \<Rightarrow> string \<times> jsval \<Rightarrow> jsval list" where
  "entry_conditions h q = (\<lambda>(field, operand).
     if field = ''AND'' \<or> field = ''OR'' then
       [Obj [(if field = ''AND'' then ''_and'' else ''_or'', Arr (map (\<lambda>branch. Obj (whereOf h q branch)) (branches_of operand)))]]
     else if field = ''NOT'' then [Obj [(''_not'', Obj (whereOf h q operand))]]
     else map (comparison_clause h q field) (entries_of operand))"

lemma whereOf_entries: "whereOf h q flt = mergeConditions (concat (map (entry_conditions h q) (entries_of flt)))"
  unfolding whereOf.simps[of h q flt] entry_conditions_def ..

lemma merge_loop_ok: "merge_loop es merged = Some m \<Longrightarrow> table_ok merged \<Longrightarrow> table_ok m"
proof (induction es arbitrary: merged)
  case (Cons e es)
  then show ?case using merge_entry_ok[of "fst e" "snd e"] by (auto simp: bind_eq_Some_conv)
qed simp

lemma table_ok_merge: "table_ok (mergeConditions cs)"
  using merge_loop_ok[OF _ table_ok_Nil] by (auto simp: mergeConditions_def table_ok_def split: option.splits)

lemma wire_operator_name: "operator \<in> set FILTER_OPERATORS \<Longrightarrow> wire_operator operator \<in> wire_names"
proof -
  have "list_all (\<lambda>o'. wire_operator o' \<in> set (map snd WIRE_OPERATORS)) FILTER_OPERATORS" by code_simp
  then show "operator \<in> set FILTER_OPERATORS \<Longrightarrow> ?thesis" by (auto simp: list_all_iff wire_names_def)
qed

text \<open>The Boolean keys of the conditions of one entry.\<close>

definition group_key :: "string \<Rightarrow> string list" where
  "group_key k = (if k = ''AND'' then [''_and''] else if k = ''OR'' then [''_or''] else if k = ''NOT'' then [''_not''] else [])"

lemma field_path_Cons: "\<exists>k ks. field_path q field = k # ks"
  using js_split_nonempty by (metis field_path_def list.exhaust)

lemma clause_entries:
  assumes "paths_ok q"
  shows "\<exists>k v. entries_of (comparison_clause h q field e) = [(k, v)] \<and> plain_key k \<and> shallow_ok v"
proof -
  obtain k ks where k: "field_path q field = k # ks" using field_path_Cons by blast
  have "plain_key k" using field_path_plain[OF assms, of field] k by simp
  moreover have "shallow_ok (write_path ks (Obj [(wire_operator (fst e), wireOperand h (fst e) (snd e))]))"
    by (cases ks) (simp_all add: shallow_ok_def table_ok_def)
  ultimately show ?thesis
    using k by (simp add: comparison_clause_def field_path_def[symmetric] case_prod_beta)
qed

lemma entry_conditions_keys:
  assumes "paths_ok q"
  shows "filter (\<lambda>k. \<not> plain_key k) (keys (concat (map entries_of (entry_conditions h q e)))) = group_key (fst e)"
    and "\<forall>(k, v) \<in> set (concat (map entries_of (entry_conditions h q e))). shallow_ok v"
proof -
  obtain k v where e: "e = (k, v)" by (cases e)
  have groups: "\<not> plain_key ''_and''" "\<not> plain_key ''_or''" "\<not> plain_key ''_not''" by (simp_all add: plain_key_def)
  have clauses: "filter (\<lambda>k. \<not> plain_key k) (keys (concat (map entries_of (map (comparison_clause h q k) ls)))) = [] \<and>
      (\<forall>(k, v) \<in> set (concat (map entries_of (map (comparison_clause h q k) ls))). shallow_ok v)" for ls
  proof (induction ls)
    case (Cons l ls)
    then show ?case using clause_entries[OF assms, of h k l] by auto
  qed simp
  have split: "k = ''AND'' \<or> k = ''OR'' \<or> k = ''NOT'' \<or> k \<notin> {''AND'', ''OR'', ''NOT''}" by blast
  from split show "filter (\<lambda>k. \<not> plain_key k) (keys (concat (map entries_of (entry_conditions h q e)))) = group_key (fst e)"
    using groups clauses[of "entries_of v"] by (elim disjE) (simp_all add: e entry_conditions_def group_key_def)
  from split show "\<forall>(k, v) \<in> set (concat (map entries_of (entry_conditions h q e))). shallow_ok v"
    using clauses[of "entries_of v"]
    by (elim disjE) (simp_all add: e entry_conditions_def shallow_ok_def whereOf_entries table_ok_merge)
qed

lemma conditions_mergeable:
  assumes "paths_ok q" "distinct (keys es)"
  shows "mergeable (concat (map entries_of (concat (map (entry_conditions h q) es)))) []"
proof -
  let ?all = "concat (map entries_of (concat (map (entry_conditions h q) es)))"
  have "filter (\<lambda>k. \<not> plain_key k) (keys ?all) = concat (map (\<lambda>e. group_key (fst e)) es)"
  proof (induction es)
    case (Cons e es)
    then show ?case using entry_conditions_keys(1)[OF assms(1), of h e] by simp
  qed simp
  moreover have "distinct (concat (map (\<lambda>e. group_key (fst e)) es))"
    using assms(2)
  proof (induction es)
    case (Cons e es)
    have "set (group_key (fst e)) \<inter> set (group_key (fst e')) = {}" if "e' \<in> set es" for e'
    proof -
      have "fst e' \<noteq> fst e" using Cons.prems that by (auto simp: image_iff)
      then show ?thesis by (auto simp: group_key_def split: if_splits)
    qed
    then have "set (group_key (fst e)) \<inter> set (concat (map (\<lambda>e. group_key (fst e)) es)) = {}" by fastforce
    moreover have "distinct (group_key (fst e))" by (simp add: group_key_def)
    ultimately show ?case using Cons by (simp only: list.map concat.simps distinct_append distinct.simps)
  qed simp
  moreover have "k \<notin> set PROTOTYPE_NAMES" if "k \<in> set (keys ?all)" "\<not> plain_key k" for k
  proof -
    have "k \<in> set (filter (\<lambda>k. \<not> plain_key k) (keys ?all))" using that by simp
    then have "k \<in> {''_and'', ''_or'', ''_not''}"
      unfolding calculation(1) by (auto simp: group_key_def split: if_splits)
    then show ?thesis by (auto simp: PROTOTYPE_NAMES_def)
  qed
  moreover have "\<forall>(k, v) \<in> set ?all. shallow_ok v"
    using entry_conditions_keys(2)[OF assms(1), of h] by fastforce
  ultimately show ?thesis by (auto simp: mergeable_def)
qed

text \<open>Compiling a canonical filter keeps its meaning.\<close>

lemma whereOf_holds:
  assumes "canonical h flt" "paths_ok q"
  shows "wire_holds leaf [] (Obj (whereOf h q flt)) \<longleftrightarrow> holds (compiled_leaf h q leaf) flt"
  using assms(1)
proof (induction flt rule: measure_induct_rule[of size])
  case (less flt)
  then obtain es where flt: "flt = Obj es" and order: "named_order h es" by (auto elim: canonicalE)
  note parts = less.prems[unfolded flt canonical_Obj]
  have entry: "(\<forall>c \<in> set (entry_conditions h q e). wire_holds leaf [] c) \<longleftrightarrow> entry_holds (compiled_leaf h q leaf) (fst e) (snd e)"
    if e: "e \<in> set es" for e
  proof -
    obtain k v where kv: "e = (k, v)" by (cases e)
    have small: "size v < size flt" using size_Obj_mem[of k v es] e by (simp add: flt kv)
    consider "k = ''AND'' \<or> k = ''OR''" | "k = ''NOT''" | "k \<notin> {''AND'', ''OR'', ''NOT''}" by blast
    then show ?thesis
    proof cases
      case 1
      then obtain bs where v: "v = Arr bs" "\<forall>b \<in> set bs. canonical h b" using parts e kv by blast
      have "wire_holds leaf [] (Obj (whereOf h q b)) \<longleftrightarrow> holds (compiled_leaf h q leaf) b" if "b \<in> set bs" for b
        using less.IH[of b] v that size_Arr_mem[OF that] small by simp
      then show ?thesis using 1 v
        by (auto simp: kv entry_conditions_def wire_holds_Obj wire_entry_def entry_holds_def)
    next
      case 2
      then have "canonical h v" using parts e kv by blast
      then have "wire_holds leaf [] (Obj (whereOf h q v)) \<longleftrightarrow> holds (compiled_leaf h q leaf) v" using less.IH small by blast
      then show ?thesis using 2 by (simp add: kv entry_conditions_def wire_holds_Obj[of _ _ "[(_, _)]"] wire_entry_def entry_holds_def)
    next
      case 3
      then obtain l where v: "v = Obj l" "canonicalLookup h l" using parts e kv by blast
      have "wire_holds leaf [] (comparison_clause h q k c) \<longleftrightarrow>
          leaf (field_path q k) (wire_operator (fst c)) (wireOperand h (fst c) (snd c))" if "c \<in> set l" for c
      proof -
        have "fst c \<in> set FILTER_OPERATORS" using v(2) that by (auto simp: canonicalLookup_def)
        then show ?thesis
          using wire_holds_path[OF field_path_plain[OF assms(2)] wire_operator_name, of "fst c" leaf "[]" k]
          by (simp add: comparison_clause_def field_path_def case_prod_beta)
      qed
      then show ?thesis using 3 v
        by (simp add: kv entry_conditions_def entry_holds_def compiled_leaf_def case_prod_beta)
    qed
  qed
  have "wire_holds leaf [] (Obj (whereOf h q flt)) \<longleftrightarrow> (\<forall>e \<in> set es. \<forall>c \<in> set (entry_conditions h q e). wire_holds leaf [] c)"
    using merge_holds[OF conditions_mergeable[OF assms(2) named_order_distinct[OF order]], of leaf "[]" h]
    by (simp add: whereOf_entries flt)
  also have "\<dots> \<longleftrightarrow> holds (compiled_leaf h q leaf) flt"
    using entry by (simp add: flt holds_Obj case_prod_beta)
  finally show ?case .
qed

section \<open>Checked filters\<close>

declare checkFilter.simps(1) [simp del]

text \<open>The check of one entry, named for the proofs.\<close>

definition checkEntry :: "host \<Rightarrow> resource_query \<Rightarrow> string \<Rightarrow> string \<times> jsval \<Rightarrow> (string \<times> jsval) result" where
  "checkEntry h q path e =
     (let fieldPath = path @ ''.'' @ fst e
      in if fst e = ''AND'' \<or> fst e = ''OR'' then
           rbind (map_res (\<lambda>(i, branch). rbind (checkFilter h q branch (at_index fieldPath i)) (\<lambda>f. Inr (Obj f)))
                          (enumerate 0 (branchList (snd e))))
                 (\<lambda>bs. Inr (fst e, Arr bs))
         else if fst e = ''NOT'' then
           rbind (checkFilter h q (snd e) fieldPath) (\<lambda>f. Inr (fst e, Obj f))
         else (case (field_of q (fst e), filter_of q (fst e)) of
                 (Some field, Some decl) \<Rightarrow>
                   rbind (checkLookup h field decl (entries_of (snd e)) fieldPath) (\<lambda>l. Inr (fst e, Obj l))
               | _ \<Rightarrow> fail_at fieldPath ''unknown or non-filterable field''))"

lemma checkFilter_Obj:
  "checkFilter h q (Obj es) path = rbind (map_res (checkEntry h q path) (sortEntries h es)) (\<lambda>ps. Inr (obj_of ps))"
  by (subst checkFilter.simps(1)) (intro rbind_cong map_res_cong refl, auto simp only: checkEntry_def Let_def prod.case fst_conv snd_conv split: prod.split)

lemma checkFilter_InrE:
  assumes "checkFilter h q v path = Inr f"
  obtains es ps where "v = Obj es" "map_res (checkEntry h q path) (sortEntries h es) = Inr ps" "f = obj_of ps"
  using assms by (cases v) (auto simp: checkFilter_Obj rbind_Inr_iff)

lemma checkEntry_name: "checkEntry h q path e = Inr y \<Longrightarrow> fst y = fst e"
  by (auto simp: checkEntry_def Let_def rbind_Inr_iff split: if_splits option.splits)

lemma scalar_simple:
  assumes "is_string v \<or> is_bool v \<or> is_finite_num v"
  shows "canonicalValue h v"
proof (cases v)
  case (Num n)
  with assms show ?thesis by (cases n) auto
qed (use assms in auto)

text \<open>The value of a chain of conditionals is the value of one of its branches.\<close>

lemma if_chain6:
  "(if c1 then a1 else if c2 then a2 else if c3 then a3 else if c4 then a4 else if c5 then a5 else a6) = r \<Longrightarrow>
   a1 = r \<or> a2 = r \<or> a3 = r \<or> a4 = r \<or> a5 = r \<or> a6 = r"
  by (simp split: if_splits)

context js_host
begin

lemma scalarOperand_canonical:
  assumes "js_ok v" "scalarOperand h field v path = Inr w"
  shows "canonicalValue h w"
proof -
  have "(w = v \<and> (is_string v \<or> is_bool v \<or> is_finite_num v)) \<or> (\<exists>s. w = Str s) \<or> filterValueFromUnknown h v path = Inr w"
    using assms(2) unfolding scalarOperand_def Let_def int_operand_def
    by (auto split: if_splits jsval.splits jsnum.splits)
  then show ?thesis using assms(1) scalar_simple filterValue_canonical by auto
qed

lemma operandOf_canonical:
  assumes "js_ok v" "operandOf h field operator v path = Inr w"
  shows "canonicalValue h w"
proof -
  have items: "canonicalValue h (Arr ys)"
    if "map_res (\<lambda>(i, item). scalarOperand h field item (at_index path i)) (enumerate 0 xs) = Inr ys" "v = Arr xs" for xs ys
    using map_res_enumerate_elem[OF that(1)] scalarOperand_canonical assms(1) that(2) by (fastforce simp: list_all_iff)
  have strings: "list_all is_string xs \<Longrightarrow> canonicalValue h (Arr xs)" for xs
    using scalar_simple by (auto simp: list_all_iff)
  from if_chain6[OF assms(2)[unfolded operandOf_def]] show ?thesis
  proof (elim disjE)
    assume "(case v of
           Arr xs \<Rightarrow> rbind (map_res (\<lambda>(i, item). scalarOperand h field item (at_index path i)) (enumerate 0 xs)) (\<lambda>ys. Inr (Arr ys))
         | _ \<Rightarrow> fail_at path ''expected an array'') = Inr w"
    then obtain xs ys where "v = Arr xs" "w = Arr ys"
      "map_res (\<lambda>(i, item). scalarOperand h field item (at_index path i)) (enumerate 0 xs) = Inr ys"
      by (auto simp: rbind_Inr_iff split: jsval.splits)
    with items show ?thesis by blast
  next
    assume "(case v of Arr xs \<Rightarrow> if list_all is_string xs then Inr v else fail_at path ''expected an array of strings''
         | _ \<Rightarrow> fail_at path ''expected an array of strings'') = Inr w"
    then show ?thesis using strings by (auto split: jsval.splits if_splits)
  next
    assume "filterValueFromUnknown h v path = Inr w"
    then show ?thesis by (rule filterValue_canonical[OF assms(1)])
  next
    assume "scalarOperand h field v path = Inr w"
    then show ?thesis by (rule scalarOperand_canonical[OF assms(1)])
  qed (auto intro: scalar_simple split: if_splits)
qed

lemma checkLookup_canonical:
  assumes "js_ok (Obj comparisons)" "checkLookup h field decl comparisons path = Inr l"
  shows "canonicalLookup h l"
proof -
  let ?f = "\<lambda>(operator, v). if operator \<notin> set FILTER_OPERATORS \<or> operator \<notin> set (fd_operators decl)
      then fail_at (path @ ''.'' @ operator) ''operator is not supported by this field''
      else rbind (operandOf h field operator v (path @ ''.'' @ operator)) (\<lambda>w. Inr (operator, w))"
  obtain ps where l: "l = obj_of ps" and ps: "map_res ?f (sortEntries h comparisons) = Inr ps" and ne: "comparisons \<noteq> []"
    using assms(2) by (auto simp: checkLookup_def rbind_Inr_iff split: if_splits)
  have names: "keys ps = keys (sortEntries h comparisons)"
    using ps by (rule map_res_names) (auto simp: rbind_Inr_iff split: prod.splits if_splits)
  note order = named_order_collected[OF js_ok_distinct[OF assms(1)] names]
  have "k \<in> set FILTER_OPERATORS \<and> canonicalValue h x" if "(k, x) \<in> set ps" for k x
    using map_res_elem[OF ps that] js_ok_mem[OF assms(1)] operandOf_canonical
    by (fastforce simp: rbind_Inr_iff split: prod.splits if_splits)
  moreover have "set ps \<noteq> {}"
    using names ne by (metis length_map length_js_sort length_0_conv set_empty sortEntries_def)
  ultimately show ?thesis
    using order by (auto simp: canonicalLookup_def l)
qed

lemma checkFilter_canonical: "js_ok v \<Longrightarrow> checkFilter h q v path = Inr f \<Longrightarrow> canonical h (Obj f)"
proof (induction v arbitrary: path f rule: measure_induct_rule[of size])
  case (less v)
  from less.prems(2) obtain es ps where v: "v = Obj es" and f: "f = obj_of ps"
    and ps: "map_res (checkEntry h q path) (sortEntries h es) = Inr ps"
    by (rule checkFilter_InrE)
  have names: "keys ps = keys (sortEntries h es)"
    using ps by (rule map_res_names) (rule checkEntry_name)
  note order = named_order_collected[OF js_ok_distinct[OF less.prems(1)[unfolded v]] names]
  have src: "\<exists>u. checkEntry h q path (k, u) = Inr (k, w) \<and> js_ok u \<and> size u < size v" if mem: "(k, w) \<in> set (obj_of ps)" for k w
  proof -
    have "(k, w) \<in> set ps" using mem order(2) by blast
    from map_res_elem[OF ps this] obtain e where e: "e \<in> set es" "checkEntry h q path e = Inr (k, w)" by auto
    then have "fst e = k" using checkEntry_name by fastforce
    with e have "(k, snd e) \<in> set es" "checkEntry h q path (k, snd e) = Inr (k, w)" by (metis prod.collapse)+
    then show ?thesis
      using js_ok_mem[OF less.prems(1)[unfolded v], of k "snd e"] size_Obj_mem[of k "snd e" es] v by auto
  qed
  show ?case unfolding f
  proof (rule canonicalI)
    show "named_order h (obj_of ps)" by (rule order)
  next
    fix k w
    assume "(k, w) \<in> set (obj_of ps)" and k: "k = ''AND'' \<or> k = ''OR''"
    then obtain u where u: "checkEntry h q path (k, u) = Inr (k, w)" "js_ok u" "size u < size v" using src by blast
    then obtain bs where w: "w = Arr bs"
      and bs: "map_res (\<lambda>(i, branch). rbind (checkFilter h q branch (at_index (path @ ''.'' @ k) i)) (\<lambda>f. Inr (Obj f)))
                (enumerate 0 (branchList u)) = Inr bs"
      using k by (auto simp: checkEntry_def Let_def rbind_Inr_iff split: if_splits)
    have "canonical h b" if mem: "b \<in> set bs" for b
    proof -
      obtain i x g where "x \<in> set (branchList u)" "checkFilter h q x (at_index (path @ ''.'' @ k) i) = Inr g" "b = Obj g"
        using map_res_enumerate_elem[OF bs mem] by (auto simp: rbind_Inr_iff)
      with less.IH u(2,3) js_ok_branchList size_branchList show ?thesis by (metis order_le_less_trans)
    qed
    with w show "\<exists>bs. w = Arr bs \<and> (\<forall>b \<in> set bs. canonical h b)" by blast
  next
    fix w
    assume "(''NOT'', w) \<in> set (obj_of ps)"
    then obtain u where u: "checkEntry h q path (''NOT'', u) = Inr (''NOT'', w)" "js_ok u" "size u < size v" using src by blast
    then obtain g where "checkFilter h q u (path @ ''.'' @ ''NOT'') = Inr g" "w = Obj g"
      by (auto simp: checkEntry_def Let_def rbind_Inr_iff)
    with less.IH u(2,3) show "canonical h w" by blast
  next
    fix k w
    assume "(k, w) \<in> set (obj_of ps)" and k: "k \<notin> {''AND'', ''OR'', ''NOT''}"
    then obtain u where u: "checkEntry h q path (k, u) = Inr (k, w)" "js_ok u" using src by blast
    moreover have "js_ok (Obj (entries_of u))" using u(2) by (cases u) (auto simp: entries_of_def)
    ultimately show "\<exists>l. w = Obj l \<and> canonicalLookup h l"
      using k checkLookup_canonical by (auto simp: checkEntry_def Let_def rbind_Inr_iff split: if_splits option.splits)
  qed
qed

lemma filterFrom_canonical:
  assumes "js_ok v" "filterFrom h q v = Inr f"
  shows "canonical h (Obj f)"
proof -
  obtain g where "parseFilter h v ''filter'' = Inr g" "checkFilter h q (Obj g) ''filter'' = Inr f"
    using assms(2) by (auto simp: filterFrom_def Filter_from_def rbind_Inr_iff)
  with parseFilter_canonical assms(1) canonical_js_ok checkFilter_canonical show ?thesis by blast
qed

end


end
