(* ===== verification/Positions.thy ===== *)
theory Positions
  imports Prelude
begin

text \<open>
  Ordering of sibling contributions, \<open>packages/ui/src/lib/position.ts\<close>, and \<open>lib/dedupe.ts\<close>: siblings
  sort by their sequence and then move next to the sibling they name with \<open>before\<close> or \<open>after\<close>.
  Menus, pages and containers of composed add-ons are put in order with it.
\<close>

section \<open>Definitions\<close>

record positioned =
  pos_id :: string
  pos_sequence :: "rat option"
  pos_before :: "string option"
  pos_after :: "string option"

text \<open>
  The comparison of two sequences, a missing one counting as infinity: the sign of the
  difference, and 0 where the difference is 0 or \<open>NaN\<close> (infinity less infinity), which fall
  through to the index.
\<close>

definition compareSequence :: "rat option \<Rightarrow> rat option \<Rightarrow> int" where
  "compareSequence a b =
     (case (a, b) of
        (None, None) \<Rightarrow> 0
      | (None, Some _) \<Rightarrow> 1
      | (Some _, None) \<Rightarrow> -1
      | (Some x, Some y) \<Rightarrow> (if x < y then -1 else if x > y then 1 else 0))"

definition siblingCompare :: "'a positioned_scheme \<times> nat \<Rightarrow> 'a positioned_scheme \<times> nat \<Rightarrow> int" where
  "siblingCompare left right =
     (let c = compareSequence (pos_sequence (fst left)) (pos_sequence (fst right))
      in if c \<noteq> 0 then c else int (snd left) - int (snd right))"

definition sortedSiblings :: "'a positioned_scheme list \<Rightarrow> 'a positioned_scheme list" where
  "sortedSiblings siblings = map fst (js_sort siblingCompare (zip siblings [0..<length siblings]))"

text \<open>The anchor of an item among the ids present, with the side: \<open>True\<close> is before.\<close>

definition anchorOf :: "string set \<Rightarrow> 'a positioned_scheme \<Rightarrow> (string \<times> bool) option" where
  "anchorOf present item =
     (case (case pos_before item of Some b \<Rightarrow> Some b | None \<Rightarrow> pos_after item) of
        Some i \<Rightarrow> if i \<in> present then Some (i, pos_before item \<noteq> None) else None
      | None \<Rightarrow> None)"

text \<open>\<open>findIndex\<close> (-1 when absent) and \<open>splice(start, 0, item)\<close>, whose negative start counts from the end.\<close>

fun findIndex :: "('a \<Rightarrow> bool) \<Rightarrow> 'a list \<Rightarrow> int" where
  "findIndex P [] = -1"
| "findIndex P (x # xs) = (if P x then 0 else let i = findIndex P xs in if i < 0 then -1 else i + 1)"

definition splice_in :: "int \<Rightarrow> 'a \<Rightarrow> 'a list \<Rightarrow> 'a list" where
  "splice_in start item xs =
     (let n = int (length xs); k = nat (if start < 0 then max 0 (n + start) else min start n)
      in take k xs @ item # drop k xs)"

text \<open>The body of the \<open>for\<close> loop over the placeable items, on the result and the last item put after each anchor.\<close>

definition place_item ::
  "string set \<Rightarrow> 'a positioned_scheme list \<times> (string \<rightharpoonup> string) \<Rightarrow> 'a positioned_scheme \<Rightarrow>
   'a positioned_scheme list \<times> (string \<rightharpoonup> string)" where
  "place_item present acc item =
     (let (result, lastAfter) = acc
      in case anchorOf present item of
           None \<Rightarrow> acc
         | Some (anchor, before) \<Rightarrow>
             if before then (splice_in (findIndex (\<lambda>placed. pos_id placed = anchor) result) item result, lastAfter)
             else (let last = (case lastAfter anchor of Some l \<Rightarrow> l | None \<Rightarrow> anchor)
                   in (splice_in (findIndex (\<lambda>placed. pos_id placed = last) result + 1) item result,
                       lastAfter(anchor \<mapsto> pos_id item))))"

definition is_placeable :: "string set \<Rightarrow> 'a positioned_scheme list \<Rightarrow> 'a positioned_scheme \<Rightarrow> bool" where
  "is_placeable present result item =
     (case anchorOf present item of None \<Rightarrow> False | Some (anchor, _) \<Rightarrow> list_ex (\<lambda>placed. pos_id placed = anchor) result)"

function place_all ::
  "string \<Rightarrow> string set \<Rightarrow> 'a positioned_scheme list \<Rightarrow> (string \<rightharpoonup> string) \<Rightarrow> 'a positioned_scheme list \<Rightarrow>
   'a positioned_scheme list result" where
  "place_all describe present result lastAfter pending =
     (if pending = [] then Inr result
      else let placeable = filter (is_placeable present result) pending
           in if placeable = []
              then Inl (JsError (describe @ '' '' @ js_join '', '' (map (\<lambda>item. ''\"'' @ pos_id item @ ''\"'') pending)
                                 @ '' position themselves in a before/after cycle.''))
              else let (result', lastAfter') = foldl (place_item present) (result, lastAfter) placeable
                   in place_all describe present result' lastAfter' (filter (\<lambda>item. item \<notin> set placeable) pending))"
  by pat_completeness auto
termination
proof (relation "measure (\<lambda>(d, p, r, l, pending). length pending)", goal_cases)
  case (2 describe present result lastAfter pending placeable x result' lastAfter')
  then have "hd placeable \<in> set placeable" by (intro hd_in_set)
  moreover from this 2 have "hd placeable \<in> set pending" by (metis filter_is_subset subsetD)
  ultimately have "length (filter (\<lambda>item. item \<notin> set placeable) pending) < length pending"
    by (intro length_filter_less) auto
  then show ?case by simp
qed simp

declare place_all.simps [simp del]

definition positionSiblings :: "'a positioned_scheme list \<Rightarrow> string \<Rightarrow> 'a positioned_scheme list result" where
  "positionSiblings siblings describe =
     (let sorted = sortedSiblings siblings; present = set (map pos_id sorted)
      in place_all describe present (filter (\<lambda>item. anchorOf present item = None) sorted) Map.empty
           (filter (\<lambda>item. anchorOf present item \<noteq> None) sorted))"

definition orderById :: "('a \<Rightarrow> string) \<Rightarrow> 'a list \<Rightarrow> 'a list" where
  "orderById id_of siblings =
     js_sort (\<lambda>left right. if id_of left < id_of right then -1 else if id_of left > id_of right then 1 else 0) siblings"

fun dedupe_loop :: "('a \<Rightarrow> 'k) \<Rightarrow> 'k set \<Rightarrow> 'a list \<Rightarrow> 'a list" where
  "dedupe_loop keyOf seen [] = []"
| "dedupe_loop keyOf seen (item # items) =
     (if keyOf item \<in> seen then dedupe_loop keyOf seen items
      else item # dedupe_loop keyOf (insert (keyOf item) seen) items)"

definition dedupeBy :: "'a list \<Rightarrow> ('a \<Rightarrow> 'k) \<Rightarrow> 'a list" where
  "dedupeBy items keyOf = dedupe_loop keyOf {} items"

section \<open>Indices\<close>

lemma findIndex_none: "findIndex P xs < 0 \<longleftrightarrow> (\<forall>x \<in> set xs. \<not> P x)"
  by (induction xs) (auto simp: Let_def)

lemma findIndex_nth: "0 \<le> findIndex P xs \<Longrightarrow> nat (findIndex P xs) < length xs \<and> P (xs ! nat (findIndex P xs))"
proof (induction xs)
  case (Cons x xs)
  show ?case
  proof (cases "P x")
    case False
    let ?i = "findIndex P xs"
    have "0 \<le> ?i" using Cons.prems False by (auto simp: Let_def split: if_splits)
    moreover from this have "nat (?i + 1) = Suc (nat ?i)" by linarith
    ultimately show ?thesis using Cons.IH False by (simp add: Let_def)
  qed simp
qed simp

lemma find_SomeD: "find P xs = Some x \<Longrightarrow> x \<in> set xs \<and> P x"
  by (induction xs) (auto split: if_splits)

lemma find_NoneD: "find P xs = None \<Longrightarrow> x \<in> set xs \<Longrightarrow> \<not> P x"
  by (auto simp: find_None_iff)

section \<open>Sorting\<close>

lemma siblingCompare_comparator: "js_comparator (siblingCompare :: 'a positioned_scheme \<times> nat \<Rightarrow> _)"
  by unfold_locales
    (auto simp: siblingCompare_def compareSequence_def Let_def split: option.splits if_splits)

interpretation siblings: js_comparator "siblingCompare :: 'a positioned_scheme \<times> nat \<Rightarrow> _"
  by (rule siblingCompare_comparator)

lemma mset_sortedSiblings: "mset (sortedSiblings siblings) = mset siblings"
  by (simp add: sortedSiblings_def mset_map_js_sort del: mset_map)

text \<open>The sequence order with a missing sequence last.\<close>

definition sequence_le :: "rat option \<Rightarrow> rat option \<Rightarrow> bool" where
  "sequence_le a b = (case (a, b) of (_, None) \<Rightarrow> True | (None, Some _) \<Rightarrow> False | (Some x, Some y) \<Rightarrow> x \<le> y)"

lemma sortedSiblings_sorted:
  "sorted_wrt (\<lambda>a b. sequence_le (pos_sequence a) (pos_sequence b)) (sortedSiblings siblings)"
proof -
  have "siblingCompare a b \<le> 0 \<Longrightarrow> sequence_le (pos_sequence (fst a)) (pos_sequence (fst b))" for a b :: "'a positioned_scheme \<times> nat"
    by (auto simp: siblingCompare_def compareSequence_def sequence_le_def Let_def split: option.splits if_splits)
  then show ?thesis
    using siblings.sorted_js_sort[of "zip siblings [0..<length siblings]"]
    unfolding sortedSiblings_def sorted_wrt_map by (metis (mono_tags, lifting) sorted_wrt_mono_rel)
qed

section \<open>Deduplication\<close>

lemma dedupe_loop_set: "keyOf ` set (dedupe_loop keyOf seen items) = keyOf ` set items - seen"
  by (induction items arbitrary: seen) auto

lemma dedupe_loop_distinct: "distinct (map keyOf (dedupe_loop keyOf seen items))"
proof (induction items arbitrary: seen)
  case (Cons item items)
  have "keyOf item \<notin> keyOf ` set (dedupe_loop keyOf (insert (keyOf item) seen) items)"
    by (simp add: dedupe_loop_set)
  with Cons show ?case by auto
qed simp

lemma dedupeBy_id [simp]: "set (dedupeBy xs (\<lambda>i. i)) = set xs" "distinct (dedupeBy xs (\<lambda>i. i))"
  using dedupe_loop_set[of "\<lambda>i. i" "{}" xs] dedupe_loop_distinct[of "\<lambda>i. i" "{}" xs] by (simp_all add: dedupeBy_def)

lemma dedupe_loop_first:
  "dedupe_loop keyOf seen items = map (\<lambda>i. items ! i)
     (filter (\<lambda>i. keyOf (items ! i) \<notin> seen \<and> (\<forall>j < i. keyOf (items ! j) \<noteq> keyOf (items ! i))) [0..<length items])"
proof (induction items arbitrary: seen)
  case (Cons item items)
  have "[0..<length (item # items)] = 0 # map Suc [0..<length items]" by (simp add: map_Suc_upt upt_conv_Cons del: upt_Suc)
  then show ?case
    by (auto simp: Cons.IH filter_map comp_def All_less_Suc2 intro!: map_cong filter_cong)
qed simp

section \<open>Placement\<close>

lemma findIndex_split:
  "x \<in> set xs \<Longrightarrow> P x \<Longrightarrow> \<exists>us p vs. xs = us @ p # vs \<and> P p \<and> (\<forall>u \<in> set us. \<not> P u) \<and> findIndex P xs = int (length us)"
proof (induction xs)
  case (Cons y ys)
  show ?case
  proof (cases "P y")
    case True
    then show ?thesis by (intro exI[of _ "[]"]) simp
  next
    case False
    with Cons obtain us p vs where "ys = us @ p # vs" "P p" "\<forall>u \<in> set us. \<not> P u" "findIndex P ys = int (length us)" by auto
    with False show ?thesis by (intro exI[of _ "y # us"] exI[of _ p] exI[of _ vs]) simp
  qed
qed simp

text \<open>Inserting before, or after, the first item with an id.\<close>

lemma splice_before:
  assumes "i \<in> pos_id ` set xs"
  shows "\<exists>us p vs. xs = us @ p # vs \<and> pos_id p = i \<and> splice_in (findIndex (\<lambda>x. pos_id x = i) xs) item xs = us @ item # p # vs"
proof -
  obtain us p vs where "xs = us @ p # vs" "pos_id p = i" "findIndex (\<lambda>x. pos_id x = i) xs = int (length us)"
    using assms findIndex_split[where P = "\<lambda>x. pos_id x = i"] by fastforce
  then show ?thesis by (intro exI[of _ us] exI[of _ p] exI[of _ vs]) (simp add: splice_in_def)
qed

lemma splice_after:
  assumes "i \<in> pos_id ` set xs"
  shows "\<exists>us p vs. xs = us @ p # vs \<and> pos_id p = i \<and> splice_in (findIndex (\<lambda>x. pos_id x = i) xs + 1) item xs = us @ p # item # vs"
proof -
  obtain us p vs where "xs = us @ p # vs" "pos_id p = i" "findIndex (\<lambda>x. pos_id x = i) xs = int (length us)"
    using assms findIndex_split[where P = "\<lambda>x. pos_id x = i"] by fastforce
  then show ?thesis by (intro exI[of _ us] exI[of _ p] exI[of _ vs]) (simp add: splice_in_def nat_add_distrib)
qed

lemma subseq_mem: "subseq xs ys \<Longrightarrow> x \<in> set xs \<Longrightarrow> x \<in> set ys"
  by (erule list_emb_set) auto

lemma subseq_pair_before: "subseq [a, b] (us @ b # vs) \<Longrightarrow> b \<notin> set us \<Longrightarrow> b \<notin> set vs \<Longrightarrow> a \<in> set us"
proof (induction us)
  case Nil
  then show ?case by (auto split: if_splits dest: subseq_mem)
next
  case (Cons u us)
  then show ?case by (cases "u = a") auto
qed

lemma subseq_pairI: "a \<in> set us \<Longrightarrow> b \<in> set vs \<Longrightarrow> subseq [a, b] (us @ vs)"
  using list_emb_append_mono[of "(=)" "[a]" us "[b]" vs] by (simp add: subseq_singleton_left)

lemma subseq_insert: "subseq xs (us @ vs) \<Longrightarrow> subseq xs (us @ x # vs)"
  by (meson list_emb_append_mono subseq_Cons' subseq_order.order_refl subseq_order.order_trans list_emb_Cons)

text \<open>An item stands on the side of its anchor that it asked for.\<close>

definition anchored :: "string set \<Rightarrow> 'a positioned_scheme list \<Rightarrow> 'a positioned_scheme \<Rightarrow> bool" where
  "anchored present result item =
     (case anchorOf present item of
        None \<Rightarrow> True
      | Some (anchor, before) \<Rightarrow>
          if before then subseq [pos_id item, anchor] (map pos_id result) else subseq [anchor, pos_id item] (map pos_id result))"

definition after_ok :: "'a positioned_scheme list \<Rightarrow> (string \<rightharpoonup> string) \<Rightarrow> bool" where
  "after_ok result lastAfter \<longleftrightarrow> (\<forall>a l. lastAfter a = Some l \<longrightarrow> subseq [a, l] (map pos_id result))"

lemma anchored_insert: "anchored present (us @ vs) item \<Longrightarrow> anchored present (us @ x # vs) item"
  by (auto simp: anchored_def subseq_insert split: option.splits if_splits)

lemma after_ok_insert: "after_ok (us @ vs) la \<Longrightarrow> after_ok (us @ x # vs) la"
  by (auto simp: after_ok_def subseq_insert)

lemma place_item_inserts:
  assumes place: "is_placeable present result item" and d: "distinct (map pos_id result)" and la: "after_ok result lastAfter"
  shows "\<exists>us vs la'. result = us @ vs \<and> place_item present (result, lastAfter) item = (us @ item # vs, la') \<and>
           anchored present (us @ item # vs) item \<and> after_ok (us @ item # vs) la'"
proof -
  obtain anchor before where a: "anchorOf present item = Some (anchor, before)" and mem: "anchor \<in> pos_id ` set result"
    using place by (auto simp: is_placeable_def list_ex_iff split: option.splits)
  show ?thesis
  proof (cases before)
    case True
    from splice_before[OF mem, of item] obtain us p vs where s: "result = us @ p # vs" "pos_id p = anchor"
      "splice_in (findIndex (\<lambda>x. pos_id x = anchor) result) item result = us @ item # p # vs" by blast
    have "subseq [pos_id item, anchor] (map pos_id us @ pos_id item # pos_id p # map pos_id vs)"
      using subseq_pairI[of "pos_id item" "map pos_id us @ [pos_id item]" anchor "pos_id p # map pos_id vs"] s(2) by simp
    then show ?thesis using a True s la after_ok_insert[of us "p # vs" lastAfter item]
      by (intro exI[of _ us] exI[of _ "p # vs"] exI[of _ lastAfter]) (simp add: place_item_def anchored_def)
  next
    case False
    define lst where "lst = (case lastAfter anchor of Some l \<Rightarrow> l | None \<Rightarrow> anchor)"
    have mem': "lst \<in> pos_id ` set result"
    proof (cases "lastAfter anchor")
      case (Some l)
      then have "subseq [anchor, l] (map pos_id result)" using la by (simp add: after_ok_def)
      then have "l \<in> set (map pos_id result)" by (rule subseq_mem) simp
      with Some show ?thesis by (simp add: lst_def)
    qed (simp add: lst_def mem)
    from splice_after[OF mem', of item] obtain us p vs where s: "result = us @ p # vs" "pos_id p = lst"
      "splice_in (findIndex (\<lambda>x. pos_id x = lst) result + 1) item result = us @ p # item # vs" by blast
    have "anchor \<in> set (map pos_id (us @ [p]))"
    proof (cases "lastAfter anchor")
      case None
      then show ?thesis using s(2) by (simp add: lst_def)
    next
      case (Some l)
      then have "subseq [anchor, lst] (map pos_id us @ lst # map pos_id vs)"
        using la s by (auto simp: after_ok_def lst_def)
      then show ?thesis using subseq_pair_before d s by fastforce
    qed
    then have seq: "subseq [anchor, pos_id item] (map pos_id (us @ p # item # vs))"
      using subseq_pairI[of anchor "map pos_id (us @ [p])" "pos_id item" "pos_id item # map pos_id vs"] by simp
    moreover have "after_ok (us @ p # item # vs) (lastAfter(anchor \<mapsto> pos_id item))"
      using after_ok_insert[of "us @ [p]" vs lastAfter item] la s(1) seq by (auto simp: after_ok_def)
    ultimately show ?thesis using a False s
      by (intro exI[of _ "us @ [p]"] exI[of _ vs] exI[of _ "lastAfter(anchor \<mapsto> pos_id item)"])
        (simp add: place_item_def anchored_def lst_def)
  qed
qed

definition unanchored :: "string set \<Rightarrow> 'a positioned_scheme \<Rightarrow> bool" where
  "unanchored present item \<longleftrightarrow> anchorOf present item = None"

lemma placeable_anchored: "is_placeable present result item \<Longrightarrow> \<not> unanchored present item"
  by (auto simp: is_placeable_def unanchored_def split: option.splits)

lemma placeable_mono: "is_placeable present result item \<Longrightarrow> set result \<subseteq> set result' \<Longrightarrow> is_placeable present result' item"
  by (auto simp: is_placeable_def list_ex_iff split: option.splits)

text \<open>What the loop keeps: the items placed so far stand as they asked, and the free ones keep their order.\<close>

definition placed_ok :: "string set \<Rightarrow> 'a positioned_scheme list \<Rightarrow> (string \<rightharpoonup> string) \<Rightarrow> bool" where
  "placed_ok present result lastAfter \<longleftrightarrow> (\<forall>item \<in> set result. anchored present result item) \<and> after_ok result lastAfter"

lemma place_fold:
  assumes "\<forall>item \<in> set ps. is_placeable present result item" "distinct (map pos_id (ps @ result))" "placed_ok present result la"
  shows "\<exists>result' la'. foldl (place_item present) (result, la) ps = (result', la') \<and> placed_ok present result' la' \<and>
           mset result' = mset ps + mset result \<and> filter (unanchored present) result' = filter (unanchored present) result"
  using assms
proof (induction ps arbitrary: result la)
  case (Cons item ps)
  from Cons.prems place_item_inserts[of present result item la] obtain us vs la' where
    s: "result = us @ vs" "place_item present (result, la) item = (us @ item # vs, la')"
      "anchored present (us @ item # vs) item" "after_ok (us @ item # vs) la'"
    by (auto simp: placed_ok_def)
  have "placed_ok present (us @ item # vs) la'"
    using Cons.prems(3) s by (auto simp: placed_ok_def intro!: anchored_insert)
  moreover have "distinct (map pos_id (ps @ us @ item # vs))" using Cons.prems(2) s(1) by auto
  moreover have "\<forall>x \<in> set ps. is_placeable present (us @ item # vs) x"
    using Cons.prems(1) s(1) placeable_mono[of present result _ "us @ item # vs"] by auto
  ultimately obtain result' la'' where
    "foldl (place_item present) (us @ item # vs, la') ps = (result', la'')" "placed_ok present result' la''"
    "mset result' = mset ps + mset (us @ item # vs)"
    "filter (unanchored present) result' = filter (unanchored present) (us @ item # vs)"
    using Cons.IH by blast
  moreover have "\<not> unanchored present item" using Cons.prems(1) by (auto dest: placeable_anchored)
  ultimately show ?case using s by auto
qed simp

lemma place_all_ok:
  assumes "place_all describe present result la pending = Inr r"
    and "distinct (map pos_id (pending @ result))" "placed_ok present result la"
    and "\<forall>item \<in> set pending. \<not> unanchored present item"
  shows "mset r = mset pending + mset result \<and> (\<forall>item \<in> set r. anchored present r item) \<and>
         filter (unanchored present) r = filter (unanchored present) result"
  using assms
proof (induction describe present result la pending rule: place_all.induct)
  case (1 describe present result la pending)
  show ?case
  proof (cases "pending = []")
    case True
    with 1(2,4) show ?thesis by (simp add: place_all.simps placed_ok_def)
  next
    case False
    define pl where "pl = filter (is_placeable present result) pending"
    have ne: "pl \<noteq> []"
    proof
      assume "pl = []"
      then show False using 1(2) False by (subst (asm) place_all.simps) (simp add: pl_def)
    qed
    have rest: "filter (\<lambda>item. item \<notin> set pl) pending = filter (\<lambda>item. \<not> is_placeable present result item) pending"
      by (auto simp: pl_def intro!: filter_cong)
    have split: "mset pl + mset (filter (\<lambda>item. item \<notin> set pl) pending) = mset pending"
      by (simp only: rest) (simp add: pl_def)
    have "distinct (map pos_id (pl @ result))" using 1(3) by (auto simp: pl_def distinct_map_filter)
    then obtain result' la' where f: "foldl (place_item present) (result, la) pl = (result', la')"
      "placed_ok present result' la'" "mset result' = mset pl + mset result"
      "filter (unanchored present) result' = filter (unanchored present) result"
      using place_fold[of pl present result la] 1(4) by (auto simp: pl_def)
    have r: "place_all describe present result' la' (filter (\<lambda>item. item \<notin> set pl) pending) = Inr r"
      using 1(2) False ne f(1) by (subst (asm) place_all.simps) (simp add: pl_def)
    have "mset (filter (\<lambda>item. item \<notin> set pl) pending @ result') = mset (pending @ result)"
      using split f(3) by (simp add: ac_simps)
    then have "distinct (map pos_id (filter (\<lambda>item. item \<notin> set pl) pending @ result'))"
      using 1(3) by (metis mset_eq_imp_distinct_iff mset_map)
    from 1(1)[OF False pl_def ne f(1)[symmetric] refl r this f(2)] 1(5) f(3,4) split
    show ?thesis by (simp add: ac_simps)
  qed
qed


section \<open>Cycles\<close>

text \<open>An id whose chain of anchors ends at an item without one.\<close>

inductive grounded :: "'a positioned_scheme set \<Rightarrow> string \<Rightarrow> bool" for items where
  free: "item \<in> items \<Longrightarrow> anchorOf (pos_id ` items) item = None \<Longrightarrow> grounded items (pos_id item)"
| anchor: "item \<in> items \<Longrightarrow> anchorOf (pos_id ` items) item = Some (a, before) \<Longrightarrow> grounded items a \<Longrightarrow> grounded items (pos_id item)"

lemma grounded_placed:
  assumes "grounded items i" "items = set pending \<union> set result"
    and "\<forall>item \<in> set pending. \<not> unanchored (pos_id ` items) item \<and> \<not> is_placeable (pos_id ` items) result item"
  shows "i \<in> pos_id ` set result"
  using assms(1)
proof (induction rule: grounded.induct)
  case (free item)
  then show ?case using assms(2,3) by (auto simp: unanchored_def)
next
  case (anchor item a before)
  then have "is_placeable (pos_id ` items) result item" by (auto simp: is_placeable_def list_ex_iff)
  then show ?case using anchor.hyps(1) assms(2,3) by auto
qed

lemma place_all_returns:
  assumes "items = set pending \<union> set result" "present = pos_id ` items"
    and "distinct (map pos_id (pending @ result))" "placed_ok present result la"
    and "\<forall>item \<in> set pending. \<not> unanchored present item" "\<forall>item \<in> set result. grounded items (pos_id item)"
  shows "(\<exists>r. place_all describe present result la pending = Inr r) \<longleftrightarrow> (\<forall>item \<in> items. grounded items (pos_id item))"
  using assms
proof (induction describe present result la pending rule: place_all.induct)
  case (1 describe present result la pending)
  define pl where "pl = filter (is_placeable present result) pending"
  have rest: "filter (\<lambda>item. item \<notin> set pl) pending = filter (\<lambda>item. \<not> is_placeable present result item) pending"
    by (auto simp: pl_def intro!: filter_cong)
  consider (finished) "pending = []" | (stuck) "pending \<noteq> []" "pl = []" | (step) "pending \<noteq> []" "pl \<noteq> []" by blast
  then show ?case
  proof cases
    case finished
    then show ?thesis using 1(2,7) by (simp add: place_all.simps)
  next
    case stuck
    then have "\<nexists>r. place_all describe present result la pending = Inr r"
      by (subst place_all.simps) (simp add: pl_def)
    moreover have "\<not> grounded items (pos_id (hd pending))"
    proof
      assume "grounded items (pos_id (hd pending))"
      moreover have "\<forall>item \<in> set pending. \<not> unanchored present item \<and> \<not> is_placeable present result item"
        using stuck(2) 1(6) by (auto simp: pl_def filter_empty_conv)
      ultimately have "pos_id (hd pending) \<in> pos_id ` set result"
        using grounded_placed 1(2,3) by blast
      moreover have "pos_id (hd pending) \<in> pos_id ` set pending" using stuck(1) by simp
      ultimately show False using 1(4) by auto
    qed
    moreover have "hd pending \<in> items" using stuck(1) 1(2) by simp
    ultimately show ?thesis by blast
  next
    case step
    have split: "mset pl + mset (filter (\<lambda>item. item \<notin> set pl) pending) = mset pending"
      by (simp only: rest) (simp add: pl_def)
    have d: "distinct (map pos_id (pl @ result))" using 1(4) by (auto simp: pl_def distinct_map_filter)
    have "\<forall>item \<in> set pl. is_placeable present result item" by (simp add: pl_def)
    from place_fold[OF this d 1(5)] obtain result' la' where f: "foldl (place_item present) (result, la) pl = (result', la')"
      "placed_ok present result' la'" "mset result' = mset pl + mset result" by blast
    have next': "place_all describe present result la pending = place_all describe present result' la' (filter (\<lambda>item. item \<notin> set pl) pending)"
      using step f(1) by (subst place_all.simps) (simp add: pl_def)
    have m: "mset (filter (\<lambda>item. item \<notin> set pl) pending @ result') = mset (pending @ result)"
      using split f(3) by (simp add: ac_simps)
    then have d': "distinct (map pos_id (filter (\<lambda>item. item \<notin> set pl) pending @ result'))"
      using 1(4) by (metis mset_eq_imp_distinct_iff mset_map)
    have items': "items = set (filter (\<lambda>item. item \<notin> set pl) pending) \<union> set result'"
      using 1(2) m by (metis set_append set_mset_mset)
    have "grounded items (pos_id item)" if mem: "item \<in> set pl" for item
    proof -
      obtain a b x where "anchorOf present item = Some (a, b)" "x \<in> set result" "pos_id x = a" "item \<in> set pending"
        using mem by (auto simp: pl_def is_placeable_def list_ex_iff split: option.splits)
      then show ?thesis using 1(2,3,7) by (auto intro: grounded.anchor)
    qed
    moreover have "set result' = set pl \<union> set result" using f(3) by (metis set_mset_mset set_mset_union)
    ultimately have g: "\<forall>item \<in> set result'. grounded items (pos_id item)" using 1(7) by auto
    show ?thesis
      unfolding next' using 1(1)[OF step(1) pl_def step(2) f(1)[symmetric] refl items' 1(3) d' f(2) _ g] 1(6) by auto
  qed
qed


section \<open>Properties\<close>

lemma initial_ok: "placed_ok present (filter (unanchored present) xs) Map.empty"
  by (auto simp: placed_ok_def anchored_def unanchored_def after_ok_def)

lemma positionSiblings_place_all:
  "positionSiblings siblings describe =
     place_all describe (pos_id ` set siblings)
       (filter (unanchored (pos_id ` set siblings)) (sortedSiblings siblings)) Map.empty
       (filter (\<lambda>item. \<not> unanchored (pos_id ` set siblings) item) (sortedSiblings siblings))"
proof -
  have "set (sortedSiblings siblings) = set siblings" using mset_sortedSiblings by (metis set_mset_mset)
  then have "set (map pos_id (sortedSiblings siblings)) = pos_id ` set siblings" by simp
  then show ?thesis by (simp only: positionSiblings_def Let_def unanchored_def[abs_def])
qed

lemma sortedSiblings_distinct: "distinct (map pos_id (sortedSiblings siblings)) = distinct (map pos_id siblings)"
  by (metis mset_eq_imp_distinct_iff mset_map mset_sortedSiblings)

lemma sortedSiblings_parts:
  assumes "distinct (map pos_id siblings)"
  shows "distinct (map pos_id (filter (\<lambda>x. \<not> P x) (sortedSiblings siblings) @ filter P (sortedSiblings siblings)))"
    and "mset (filter (\<lambda>x. \<not> P x) (sortedSiblings siblings)) + mset (filter P (sortedSiblings siblings)) = mset siblings"
proof -
  show m: "mset (filter (\<lambda>x. \<not> P x) (sortedSiblings siblings)) + mset (filter P (sortedSiblings siblings)) = mset siblings"
    by (metis mset_sortedSiblings mset_filter multiset_partition add.commute)
  then show "distinct (map pos_id (filter (\<lambda>x. \<not> P x) (sortedSiblings siblings) @ filter P (sortedSiblings siblings)))"
    using assms by (metis mset_append mset_eq_imp_distinct_iff mset_map)
qed

lemma positionSiblings_mset:
  assumes "distinct (map pos_id siblings)" "positionSiblings siblings describe = Inr r"
  shows "mset r = mset siblings"
proof -
  note parts = sortedSiblings_parts[OF assms(1), of "unanchored (pos_id ` set siblings)"]
  show ?thesis
    using place_all_ok[OF assms(2)[unfolded positionSiblings_place_all] parts(1) initial_ok] parts(2) by simp
qed

lemma place_items_set:
  "set (fst (foldl (place_item present) (result, lastAfter) items)) \<subseteq> set result \<union> set items"
proof (induction items arbitrary: result lastAfter)
  case (Cons item items)
  obtain result' lastAfter' where step: "place_item present (result, lastAfter) item = (result', lastAfter')" by fastforce
  have splice: "set (splice_in k item result) \<subseteq> insert item (set result)" for k
    by (auto simp: splice_in_def Let_def dest: in_set_takeD in_set_dropD)
  have "set result' \<subseteq> insert item (set result)"
    using step splice by (auto simp: place_item_def Let_def split: option.splits if_splits) blast+
  then show ?case using Cons.IH[of result' lastAfter'] step by auto
qed simp

lemma place_all_set: "place_all describe present result lastAfter pending = Inr r \<Longrightarrow> set r \<subseteq> set result \<union> set pending"
proof (induction describe present result lastAfter pending rule: place_all.induct)
  case (1 describe present result lastAfter pending)
  show ?case
  proof (cases "pending = []")
    case True
    then show ?thesis using 1(2) by (simp add: place_all.simps)
  next
    case False
    define placeable where "placeable = filter (is_placeable present result) pending"
    obtain result' lastAfter' where step: "foldl (place_item present) (result, lastAfter) placeable = (result', lastAfter')" by fastforce
    have ne: "placeable \<noteq> []"
      and r: "place_all describe present result' lastAfter' (filter (\<lambda>item. item \<notin> set placeable) pending) = Inr r"
      using 1(2) False step by (auto simp: place_all.simps[of describe present result lastAfter pending] placeable_def[symmetric] Let_def split: if_splits)
    have "set result' \<subseteq> set result \<union> set placeable" using place_items_set[of present result lastAfter placeable] step by simp
    then show ?thesis using 1(1)[OF False placeable_def ne step[symmetric] refl r] by (auto simp: placeable_def)
  qed
qed

lemma positionSiblings_set: "positionSiblings siblings describe = Inr r \<Longrightarrow> set r \<subseteq> set siblings"
  using place_all_set mset_eq_setD[OF mset_sortedSiblings[of siblings]]
  by (fastforce simp: positionSiblings_def Let_def)

text \<open>
  C12: positioning returns every sibling exactly once, each that names a present sibling with
  \<open>before\<close> or \<open>after\<close> on that side of it, and the others in the order of their sequences.
\<close>

theorem positionSiblings_ok:
  assumes "distinct (map pos_id siblings)" "positionSiblings siblings describe = Inr r"
  shows "mset r = mset siblings \<and> (\<forall>item \<in> set r. anchored (pos_id ` set siblings) r item) \<and>
         sorted_wrt (\<lambda>a b. sequence_le (pos_sequence a) (pos_sequence b)) (filter (unanchored (pos_id ` set siblings)) r)"
proof -
  let ?p = "pos_id ` set siblings"
  note parts = sortedSiblings_parts[OF assms(1), of "unanchored ?p"]
  have "mset r = mset siblings \<and> (\<forall>item \<in> set r. anchored ?p r item) \<and>
      filter (unanchored ?p) r = filter (unanchored ?p) (filter (unanchored ?p) (sortedSiblings siblings))"
    using place_all_ok[OF assms(2)[unfolded positionSiblings_place_all] parts(1) initial_ok] parts(2) by simp
  moreover have "sorted_wrt (\<lambda>a b. sequence_le (pos_sequence a) (pos_sequence b)) (filter (unanchored ?p) (sortedSiblings siblings))"
    using sortedSiblings_sorted by (rule sorted_wrt_filter)
  ultimately show ?thesis by simp
qed

definition sample_siblings :: "positioned list" where
  "sample_siblings = [\<lparr>pos_id = ''b'', pos_sequence = None, pos_before = None, pos_after = Some ''a''\<rparr>,
                      \<lparr>pos_id = ''a'', pos_sequence = Some 1, pos_before = None, pos_after = None\<rparr>]"

lemma sample_positioned: "positionSiblings sample_siblings ''Items'' = Inr (rev sample_siblings)"
  by code_simp

theorem positionSiblings_ok_witness:
  "mset (rev sample_siblings) = mset sample_siblings \<and>
   list_all (anchored (pos_id ` set sample_siblings) (rev sample_siblings)) (rev sample_siblings)"
  using positionSiblings_ok[OF _ sample_positioned] by (simp add: sample_siblings_def)

text \<open>
  C13: positioning fails exactly when some sibling's chain of anchors never reaches a sibling
  without an anchor, that is on a before/after cycle.
\<close>

theorem positionSiblings_returns:
  assumes "distinct (map pos_id siblings)"
  shows "(\<exists>r. positionSiblings siblings describe = Inr r) \<longleftrightarrow> (\<forall>item \<in> set siblings. grounded (set siblings) (pos_id item))"
proof -
  let ?p = "pos_id ` set siblings"
  note parts = sortedSiblings_parts[OF assms(1), of "unanchored ?p"]
  have all: "set siblings = set (filter (\<lambda>x. \<not> unanchored ?p x) (sortedSiblings siblings)) \<union> set (filter (unanchored ?p) (sortedSiblings siblings))"
    using parts(2) by (metis set_mset_mset set_mset_union)
  have free: "\<forall>item \<in> set (filter (unanchored ?p) (sortedSiblings siblings)). grounded (set siblings) (pos_id item)"
    using all by (auto simp: unanchored_def intro: grounded.free)
  show ?thesis
    unfolding positionSiblings_place_all
    by (rule place_all_returns[OF all refl parts(1) initial_ok _ free]) simp
qed

theorem positionSiblings_returns_witness:
  "list_all (\<lambda>item. grounded (set sample_siblings) (pos_id item)) sample_siblings"
  using positionSiblings_returns[of sample_siblings "''Items''"] sample_positioned by (simp add: sample_siblings_def)

text \<open>
  Deduplication keeps, in order, the first item of every key: its keys are distinct, they
  are all the keys of the input, and an item is kept exactly when no earlier item has its key.
\<close>

lemma dedupeBy_first:
  "distinct (map keyOf (dedupeBy items keyOf)) \<and> keyOf ` set (dedupeBy items keyOf) = keyOf ` set items \<and>
   dedupeBy items keyOf = map ((!) items) (filter (\<lambda>i. \<forall>j < i. keyOf (items ! j) \<noteq> keyOf (items ! i)) [0..<length items])"
  unfolding dedupeBy_def using dedupe_loop_distinct[of keyOf "{}" items] dedupe_loop_set[of keyOf "{}" items]
  by (auto simp: dedupe_loop_first)

end
