(* ===== verification/RowQueries.thy ===== *)
theory RowQueries
  imports Queries Positions
begin

text \<open>
  The rest of \<open>ResourceQuery\<close> and the class \<open>GroupAxis\<close> of \<open>packages/metadata/src/query.ts\<close>: contracts for
  local rows, text search, sorting, conditions read back from the wire, client-side values,
  comparison and matching of rows, and group axes with their buckets and drill filters.
\<close>

section \<open>Contracts\<close>

definition executableTextSearchFields :: "resource_query \<Rightarrow> string list \<Rightarrow> string list" where
  "executableTextSearchFields q names =
     filter (\<lambda>name. case filter_of q name of Some d \<Rightarrow> ''iContains'' \<in> set (fd_operators d) | None \<Rightarrow> False) names"

definition textSearchFields :: "resource_query \<Rightarrow> string list option \<Rightarrow> string list" where
  "textSearchFields q names = (case names of None \<Rightarrow> rq_textSearch q | Some ns \<Rightarrow> executableTextSearchFields q ns)"

text \<open>\<open>ResourceQuery.from\<close> on a parsed contract; the cache returns the same result.\<close>

definition query_from :: "resource_query \<Rightarrow> string list option \<Rightarrow> string option \<Rightarrow> resource_query" where
  "query_from contract recordSearchFields recordRepresentation =
     (let declared = (case recordSearchFields of None \<Rightarrow> [] | Some fs \<Rightarrow> fs);
          supported = executableTextSearchFields contract declared;
          representation = executableTextSearchFields contract
            (case recordRepresentation of Some r \<Rightarrow> if r \<noteq> [] then [r] else [] | None \<Rightarrow> [])
      in contract\<lparr>rq_textSearch := (if supported \<noteq> [] then supported else representation)\<rparr>)"

record local_field =
  lf_kind :: "field_kind option"
  lf_scalar :: "string option"
  lf_values :: "enum_value list option"
  lf_nullable :: "bool option"
  lf_identityPath :: "string option"
  lf_labelPath :: "string option"

definition local_operators :: "field_kind \<Rightarrow> string option \<Rightarrow> string list" where
  "local_operators kind scalar =
     BASIC_OPERATORS @
     (if kind = KJson \<or> scalar = Some ''JSON'' then [''jsonContains''] else []) @
     (if kind = KScalar \<and> scalar \<noteq> Some ''JSON'' then
        ORDER_OPERATORS @
        (if scalar = Some ''String'' \<or> scalar = None then
           filter (\<lambda>operator. operator \<notin> {''similar'', ''notSimilar'', ''regex'', ''iRegex'', ''notRegex'', ''notIRegex''}) TEXT_OPERATORS
         else [])
      else [])"

definition local_query_field :: "string \<Rightarrow> local_field \<Rightarrow> query_field" where
  "local_query_field name d =
     (let kind = or_else (lf_kind d) KScalar; path = or_else (lf_identityPath d) name
      in \<lparr>qf_kind = kind, qf_scalar = lf_scalar d, qf_values = or_else (lf_values d) [], qf_nullable = or_else (lf_nullable d) True,
          qf_row = Some \<lparr>row_path = path, row_paths = [path]\<rparr>,
          qf_filter = Some \<lparr>fd_field = name,
            fd_scalar = (if kind = KEnum then ''Enum'' else if kind = KRelation then ''ID'' else if kind = KJson then ''JSON''
                         else or_else (lf_scalar d) ''Unknown''),
            fd_values = or_else (lf_values d) [], fd_valueMap = None, fd_operators = local_operators kind (lf_scalar d)\<rparr>,
          qf_sort = Some name, qf_relation = None\<rparr>)"

definition date_extractions :: "query_extraction list" where
  "date_extractions =
     map (\<lambda>(n, u). \<lparr>ex_name = n, ex_input = u, ex_key = n, ex_rangeKey = None, ex_drill = None\<rparr>)
       [(''year'', ''YEAR''), (''quarter'', ''QUARTER''), (''month'', ''MONTH''), (''week'', ''WEEK''), (''day'', ''DAY''),
        (''hour'', ''HOUR''), (''minute'', ''MINUTE''), (''second'', ''SECOND'')]"

definition unique :: "'a list \<Rightarrow> 'a list" where
  "unique xs = dedupeBy xs (\<lambda>x. x)"

definition local_axis :: "string \<Rightarrow> local_field \<Rightarrow> query_axis option" where
  "local_axis name d =
     (let kind = or_else (lf_kind d) KScalar; path = or_else (lf_identityPath d) name;
          date = (lf_scalar d = Some ''Date'' \<or> lf_scalar d = Some ''DateTime'')
      in if kind = KList \<or> kind = KObject then None
         else Some \<lparr>ax_field = name,
           ax_kind = (if kind = KRelation then AxisRelation else if kind = KJson then AxisJson else if date then AxisDate else AxisColumn),
           ax_identityPath = Some path,
           ax_paths = unique (path # (case lf_labelPath d of Some l \<Rightarrow> if l \<noteq> [] then [l] else [] | None \<Rightarrow> [])),
           ax_labelPath = lf_labelPath d, ax_server = None,
           ax_extractions = (if date then date_extractions else []), ax_drill = None\<rparr>)"

definition forRows :: "local_field table \<Rightarrow> string option \<Rightarrow> resource_query" where
  "forRows declared identityField =
     \<lparr>rq_identity = or_else identityField ''id'',
      rq_fields = obj_of (map (\<lambda>(name, d). (name, local_query_field name d)) declared),
      rq_axes = obj_of (concat (map (\<lambda>(name, d). case local_axis name d of Some a \<Rightarrow> [(name, a)] | None \<Rightarrow> []) declared)),
      rq_sort = [], rq_textSearch = []\<rparr>"

section \<open>Sorting\<close>

definition direction_text :: "direction \<Rightarrow> string" where
  "direction_text d = (case d of Asc \<Rightarrow> ''ASC'' | Desc \<Rightarrow> ''DESC'')"

definition parse_direction :: "string \<Rightarrow> direction option" where
  "parse_direction s = (if s = ''ASC'' \<or> s = ''asc'' then Some Asc else if s = ''DESC'' \<or> s = ''desc'' then Some Desc else None)"

definition sort_entries :: "resource_query \<Rightarrow> jsval \<Rightarrow> jsval list result" where
  "sort_entries q value =
     (case value of
        Undefined \<Rightarrow> Inr (map (\<lambda>(f, d). Obj [(''field'', Str f), (''direction'', Str (direction_text d))]) (rq_sort q))
      | Arr xs \<Rightarrow> Inr xs
      | Obj es \<Rightarrow> Inr (map (\<lambda>(f, d). Obj [(''field'', Str f), (''direction'', d)]) es)
      | _ \<Rightarrow> fail_at ''sort'' ''expected a sort array or order record'')"

definition sort_entry :: "host \<Rightarrow> resource_query \<Rightarrow> string set \<Rightarrow> string \<Rightarrow> jsval \<Rightarrow> (string \<times> direction) result" where
  "sort_entry h q seen path entry =
     (case entry of
        Obj es \<Rightarrow>
          (case (prop_of es ''field'', parse_direction (js_string h (prop_of es ''direction''))) of
             (Str field, Some dir) \<Rightarrow>
               if \<not> set (keys es) \<subseteq> {''field'', ''direction''} then fail_at path ''unknown sort property''
               else if Option.bind (field_of q field) qf_sort = None
                 then fail_at (path @ ''.field'') (''field \"'' @ field @ ''\" cannot be sorted'')
               else if field \<in> seen then fail_at path (''duplicate sort field \"'' @ field @ ''\"'')
               else Inr (field, dir)
           | _ \<Rightarrow> fail_at path ''expected field and ASC/DESC direction'')
      | _ \<Rightarrow> fail_at path ''expected field and ASC/DESC direction'')"

fun sort_loop :: "host \<Rightarrow> resource_query \<Rightarrow> string set \<Rightarrow> nat \<Rightarrow> jsval list \<Rightarrow> (string \<times> direction) list result" where
  "sort_loop h q seen index [] = Inr []"
| "sort_loop h q seen index (entry # es) =
     rbind (sort_entry h q seen (at_index ''sort'' index) entry) (\<lambda>s.
       rbind (sort_loop h q (insert (fst s) seen) (Suc index) es) (\<lambda>rest. Inr (s # rest)))"

definition sortFrom :: "host \<Rightarrow> resource_query \<Rightarrow> jsval \<Rightarrow> (string \<times> direction) list result" where
  "sortFrom h q value = rbind (sort_entries q value) (sort_loop h q {} 0)"

definition sort_field :: "resource_query \<Rightarrow> string \<Rightarrow> string" where
  "sort_field q field = (case Option.bind (field_of q field) qf_sort of Some s \<Rightarrow> s | None \<Rightarrow> [])"

definition toOrderBy :: "host \<Rightarrow> resource_query \<Rightarrow> jsval \<Rightarrow> jsval table result" where
  "toOrderBy h q value =
     rbind (sortFrom h q value) (\<lambda>ss. Inr (obj_of (map (\<lambda>(f, d). (sort_field q f, Str (case d of Asc \<Rightarrow> ''asc'' | Desc \<Rightarrow> ''desc''))) ss)))"

definition toSorters :: "host \<Rightarrow> resource_query \<Rightarrow> jsval \<Rightarrow> (string \<times> string) list result" where
  "toSorters h q value =
     rbind (sortFrom h q value) (\<lambda>ss. Inr (map (\<lambda>(f, d). (sort_field q f, (case d of Asc \<Rightarrow> ''asc'' | Desc \<Rightarrow> ''desc''))) ss))"

definition clientSelection :: "resource_query \<Rightarrow> string list" where
  "clientSelection q =
     unique (concat (map (\<lambda>(_, f). if qf_filter f \<noteq> None \<or> qf_sort f \<noteq> None
       then (case qf_row f of Some r \<Rightarrow> row_paths r | None \<Rightarrow> []) else []) (rq_fields q)))"

section \<open>Conditions read back\<close>

definition matching_fields :: "resource_query \<Rightarrow> string \<Rightarrow> (string \<times> query_field) list" where
  "matching_fields q wireField =
     filter (\<lambda>(_, f). case qf_filter f of Some d \<Rightarrow> fd_field d = wireField | None \<Rightarrow> False) (rq_fields q)"

definition recover_operator :: "host \<Rightarrow> filter_decl \<Rightarrow> string \<Rightarrow> jsval \<Rightarrow> string option" where
  "recover_operator h decl wireOperator v =
     (let candidates = filter (\<lambda>operator. wire_operator operator = wireOperator) (fd_operators decl)
      in case find (\<lambda>c. c = ''like'' \<or> c = ''iLike'') candidates of
           Some c \<Rightarrow> Some c
         | None \<Rightarrow> find (\<lambda>c. fromWireOperand h c v \<noteq> Undefined) candidates)"

definition decode_comparisons :: "host \<Rightarrow> query_field \<Rightarrow> filter_decl \<Rightarrow> jsval \<Rightarrow> string \<Rightarrow> jsval table result" where
  "decode_comparisons h field decl operand location =
     (case operand of
        Obj es \<Rightarrow>
          if es = [] then fail_at location ''expected comparisons''
          else rbind (map_res (\<lambda>(wireOperator, v).
                 case recover_operator h decl wireOperator v of
                   None \<Rightarrow> fail_at (location @ ''.'' @ wireOperator) ''operator is not supported by this field''
                 | Some operator \<Rightarrow> rbind (operandOf h field operator (fromWireOperand h operator v) location) (\<lambda>w. Inr (operator, w))) es)
               (\<lambda>ps. Inr (obj_of ps))
      | _ \<Rightarrow> fail_at location ''expected comparisons'')"

definition join_clauses :: "jsval table list \<Rightarrow> jsval table" where
  "join_clauses clauses = (case clauses of [] \<Rightarrow> [] | [c] \<Rightarrow> c | _ \<Rightarrow> [(''AND'', Arr (map Obj clauses))])"

function (sequential) decodeWhere :: "host \<Rightarrow> resource_query \<Rightarrow> jsval \<Rightarrow> string \<Rightarrow> string \<Rightarrow> nat \<Rightarrow> jsval table result" where
  "decodeWhere h q (Obj es) path pre depth =
     (if depth > 32 then fail_at path ''filter nesting exceeds 32 levels''
      else if pre \<noteq> [] \<and> (length es \<noteq> 1 \<or> list_ex (\<lambda>key. key \<in> {''_and'', ''_or'', ''_not''}) (keys es))
        then fail_at path ''nested relation conditions cannot be represented by field filters''
      else rbind (map_res (\<lambda>(key, operand).
             let location = path @ ''.'' @ key
             in if key = ''_and'' \<or> key = ''_or'' then
                  (case operand of
                     Arr bs \<Rightarrow>
                       rbind (map_res (\<lambda>(i, branch). rbind (decodeWhere h q branch (at_index location i) pre (Suc depth)) (\<lambda>f. Inr (Obj f)))
                                (enumerate 0 bs))
                         (\<lambda>fs. Inr [(if key = ''_and'' then ''AND'' else ''OR'', Arr fs)])
                   | _ \<Rightarrow> fail_at location ''expected an array of conditions'')
                else if key = ''_not'' then
                  rbind (decodeWhere h q operand location pre (Suc depth)) (\<lambda>f. Inr [(''NOT'', Obj f)])
                else (let wireField = (if pre \<noteq> [] then pre @ ''.'' @ key else key)
                      in case matching_fields q wireField of
                           [] \<Rightarrow>
                             if \<not> list_ex (\<lambda>(_, f). case qf_filter f of Some d \<Rightarrow> startsWith (fd_field d) (wireField @ ''.'') | None \<Rightarrow> False) (rq_fields q)
                             then fail_at location ''unknown or non-filterable field''
                             else decodeWhere h q operand location wireField (Suc depth)
                         | [(name, field)] \<Rightarrow>
                             (case qf_filter field of
                                None \<Rightarrow> fail_at location ''unknown or non-filterable field''
                              | Some decl \<Rightarrow> rbind (decode_comparisons h field decl operand location) (\<lambda>l. Inr [(name, Obj l)]))
                         | _ \<Rightarrow> fail_at location ''ambiguous filter field'')) es)
           (\<lambda>clauses. Inr (join_clauses clauses)))"
| "decodeWhere h q _ path pre depth =
     (if depth > 32 then fail_at path ''filter nesting exceeds 32 levels'' else fail_at path ''expected a condition object'')"
  by pat_completeness auto
termination
proof (relation "measure (\<lambda>(h, q, v, path, pre, depth). size v)", goal_cases)
  case (2 h q es path pre depth x key operand location bs y i branch)
  then show ?case using size_Obj_mem[of key operand es] size_Arr_mem[of branch bs] by (auto simp: in_set_enumerate_eq)
next
  case (3 h q es path pre depth x key operand)
  then show ?case using size_Obj_mem[of key operand es] by auto
next
  case (4 h q es path pre depth x key operand)
  then show ?case using size_Obj_mem[of key operand es] by auto
qed auto

declare decodeWhere.simps(1) [simp del]

definition fromWhere :: "host \<Rightarrow> resource_query \<Rightarrow> jsval \<Rightarrow> jsval table result" where
  "fromWhere h q value = rbind (decodeWhere h q value ''condition'' [] 0) (\<lambda>f. filterFrom h q (Obj f))"

end
