(* ===== verification/RowMatching.thy ===== *)
theory RowMatching
  imports RowQueries
begin

text \<open>
  Client-side execution of queries in \<open>packages/metadata/src/query.ts\<close>: the value of a field in a
  row, comparison and matching of rows, and the class \<open>GroupAxis\<close>.
\<close>

section \<open>Values\<close>

fun read_segments :: "jsval \<Rightarrow> string list \<Rightarrow> jsval" where
  "read_segments current [] = current"
| "read_segments current (key # path) =
     (case current of
        Null \<Rightarrow> Null
      | Obj es \<Rightarrow> (case map_of es key of None \<Rightarrow> Undefined | Some v \<Rightarrow> read_segments v path)
      | _ \<Rightarrow> Undefined)"

definition readPath :: "jsval \<Rightarrow> string \<Rightarrow> jsval" where
  "readPath row path = read_segments row (js_split (CHR ''.'') path)"

definition mapped_value :: "value_map option \<Rightarrow> jsval \<Rightarrow> jsval" where
  "mapped_value vm v =
     (case vm of
        None \<Rightarrow> v
      | Some m \<Rightarrow> (case find (\<lambda>(from, _). object_is from v) m of Some (_, to) \<Rightarrow> to | None \<Rightarrow> v))"

definition filterInputValue :: "query_field \<Rightarrow> jsval \<Rightarrow> jsval" where
  "filterInputValue field v = mapped_value (Option.bind (qf_filter field) fd_valueMap) v"

definition rowValue :: "host \<Rightarrow> resource_query \<Rightarrow> string \<Rightarrow> jsval \<Rightarrow> jsval result" where
  "rowValue h q field row =
     (case Option.bind (field_of q field) (\<lambda>d. Option.bind (qf_row d) (\<lambda>r. Some (d, r))) of
        None \<Rightarrow> fail_at (''query.'' @ field) ''field has no client value projection''
      | Some (declaration, projection) \<Rightarrow>
          (case find (\<lambda>path. readPath row path = Undefined) (row_paths projection) of
             Some path \<Rightarrow> fail_at (''query.'' @ field) (''missing selected value path \"'' @ path @ ''\"'')
           | None \<Rightarrow>
               (let read = readPath row (row_path projection); selected = (if is_nullish read then Null else read);
                    value = filterInputValue declaration selected;
                    scalar = (case qf_filter declaration of Some d \<Rightarrow> Some (fd_scalar d) | None \<Rightarrow> qf_scalar declaration)
                in if \<not> is_nullish value \<and> (scalar = Some ''Date'' \<or> scalar = Some ''DateTime'')
                   then rbind (temporalValue h value (or_else scalar [])) (\<lambda>s. Inr (Str s))
                   else Inr value)))"

text \<open>Choices of a filter input; \<open>None\<close> for a declared choice without a description is kept.\<close>

definition filterChoices :: "host \<Rightarrow> resource_query \<Rightarrow> string \<Rightarrow> (jsval \<times> string option) list result" where
  "filterChoices h q name =
     (case field_of q name of
        None \<Rightarrow> Inr []
      | Some field \<Rightarrow>
          (case qf_filter field of
             None \<Rightarrow> Inr []
           | Some decl \<Rightarrow>
               if fd_values decl \<noteq> [] then Inr (map (\<lambda>e. (Str (ev_value e), ev_description e)) (fd_values decl))
               else if qf_kind field \<noteq> KEnum then Inr []
               else map_res (\<lambda>choice.
                 rbind (scalarOperand h field (filterInputValue field (Str (ev_value choice))) (''query.'' @ name @ ''.filter'')) (\<lambda>v.
                   case v of
                     Arr _ \<Rightarrow> fail_at (''query.'' @ name @ ''.filter'') ''enum choices must map to scalar inputs''
                   | Obj _ \<Rightarrow> fail_at (''query.'' @ name @ ''.filter'') ''enum choices must map to scalar inputs''
                   | _ \<Rightarrow> Inr (v, ev_description choice))) (qf_values field)))"

section \<open>Comparison\<close>

definition sign_of_order :: "bool \<Rightarrow> bool \<Rightarrow> int" where
  "sign_of_order lt gt = (if lt then -1 else if gt then 1 else 0)"

fun num_less :: "jsnum \<Rightarrow> jsnum \<Rightarrow> bool" where
  "num_less (Fin a) (Fin b) = (a < b)"
| "num_less NegInf (Fin _) = True"
| "num_less NegInf PosInf = True"
| "num_less (Fin _) PosInf = True"
| "num_less _ _ = False"

text \<open>\<open>a < b\<close> between strings and numbers: two strings by code units, otherwise as numbers.\<close>

fun js_less :: "host \<Rightarrow> jsval \<Rightarrow> jsval \<Rightarrow> bool" where
  "js_less h (Str a) (Str b) = (a < b)"
| "js_less h (Num a) (Num b) = num_less a b"
| "js_less h (Str a) (Num b) = num_less (stringToNumber h a) b"
| "js_less h (Num a) (Str b) = num_less a (stringToNumber h b)"
| "js_less h _ _ = False"

definition comparable :: "host \<Rightarrow> string \<Rightarrow> jsval \<Rightarrow> jsval result" where
  "comparable h scalar value =
     (if scalar = ''Date'' \<or> scalar = ''DateTime'' then rbind (temporalValue h value scalar) (\<lambda>s. Inr (Str s))
      else case value of Num n \<Rightarrow> Inr (Num n) | _ \<Rightarrow> Inr (Str (js_string h value)))"

definition compareValues :: "host \<Rightarrow> jsval \<Rightarrow> jsval \<Rightarrow> string \<Rightarrow> string \<Rightarrow> int result" where
  "compareValues h left right scalar path =
     (if scalar = ''Decimal'' then compareDecimal h left right path
      else rbind (comparable h scalar left) (\<lambda>a. rbind (comparable h scalar right) (\<lambda>b.
             Inr (sign_of_order (js_less h a b) (js_less h b a)))))"

text \<open>The comparator of a text or decimal column; \<open>None\<close> is \<open>undefined\<close>.\<close>

definition rowComparator :: "host \<Rightarrow> resource_query \<Rightarrow> string \<Rightarrow> (jsval \<Rightarrow> jsval \<Rightarrow> int result) option" where
  "rowComparator h q field =
     (case Option.bind (field_of q field) qf_scalar of
        None \<Rightarrow> None
      | Some scalar \<Rightarrow>
          if scalar \<noteq> ''Decimal'' \<and> scalar \<noteq> ''String'' then None
          else Some (\<lambda>leftRow rightRow.
            rbind (rowValue h q field leftRow) (\<lambda>left. rbind (rowValue h q field rightRow) (\<lambda>right.
              if is_nullish left \<or> is_nullish right
              then Inr (if strict_eq left right then 0 else if is_nullish left then 1 else -1)
              else if scalar = ''String'' then Inr (naturalCompare h (js_string h left) (js_string h right))
              else compareDecimal h left right (''sort.'' @ field)))))"

function (sequential) jsonContains :: "host \<Rightarrow> jsval \<Rightarrow> jsval \<Rightarrow> bool \<Rightarrow> bool" where
  "jsonContains h value (Obj os) nested =
     (case value of
        Obj es \<Rightarrow> list_all (\<lambda>(key, item). case map_of es key of None \<Rightarrow> False | Some v \<Rightarrow> jsonContains h v item True) os
      | _ \<Rightarrow> False)"
| "jsonContains h value (Arr os) nested =
     (case value of
        Arr xs \<Rightarrow> list_all (\<lambda>wanted. list_ex (\<lambda>item. jsonContains h item wanted True) xs) os
      | _ \<Rightarrow> False)"
| "jsonContains h (Arr xs) operand nested =
     (if \<not> nested then list_ex (\<lambda>item. stringify h item = stringify h operand) xs else False)"
| "jsonContains h value operand nested = strict_eq value operand"
  by pat_completeness auto
termination
  by (relation "measure (\<lambda>(h, v, operand, nested). size operand)") (auto dest: size_Arr_mem size_Obj_mem)

definition regex_literal :: "char \<Rightarrow> string" where
  "regex_literal c = (if c \<in> set (''.*+?^${}()|[]'' @ [CHR 0x5C]) then [CHR 0x5C, c] else [c])"

fun like_regex_loop :: "string \<Rightarrow> bool \<Rightarrow> string" where
  "like_regex_loop [] escaped = (if escaped then [CHR 0x5C, CHR 0x5C] else [])"
| "like_regex_loop (c # s) escaped =
     (if escaped then regex_literal c @ like_regex_loop s False
      else if c = CHR 0x5C then like_regex_loop s True
      else if c = CHR ''%'' then ''.*'' @ like_regex_loop s False
      else if c = CHR ''_'' then ''.'' @ like_regex_loop s False
      else regex_literal c @ like_regex_loop s False)"

definition likeRegex :: "string \<Rightarrow> string" where
  "likeRegex pattern = ''^'' @ like_regex_loop pattern False @ ''$''"

text \<open>\<open>every\<close> and \<open>some\<close> with a callback that may throw: they stop at the first answer.\<close>

fun every_res :: "('a \<Rightarrow> bool result) \<Rightarrow> 'a list \<Rightarrow> bool result" where
  "every_res f [] = Inr True"
| "every_res f (x # xs) = rbind (f x) (\<lambda>b. if b then every_res f xs else Inr False)"

fun some_res :: "('a \<Rightarrow> bool result) \<Rightarrow> 'a list \<Rightarrow> bool result" where
  "some_res f [] = Inr False"
| "some_res f (x # xs) = rbind (f x) (\<lambda>b. if b then Inr True else some_res f xs)"

lemma every_res_cong [fundef_cong]: "xs = ys \<Longrightarrow> (\<And>x. x \<in> set ys \<Longrightarrow> f x = g x) \<Longrightarrow> every_res f xs = every_res g ys"
  by (induction xs arbitrary: ys) (auto intro!: rbind_cong)

lemma some_res_cong [fundef_cong]: "xs = ys \<Longrightarrow> (\<And>x. x \<in> set ys \<Longrightarrow> f x = g x) \<Longrightarrow> some_res f xs = some_res g ys"
  by (induction xs arbitrary: ys) (auto intro!: rbind_cong)

definition negate_res :: "bool result \<Rightarrow> bool result" where
  "negate_res r = rbind r (\<lambda>b. Inr (\<not> b))"

definition equal_to :: "host \<Rightarrow> jsval \<Rightarrow> string \<Rightarrow> string \<Rightarrow> jsval \<Rightarrow> bool result" where
  "equal_to h value scalar path right =
     (if is_nullish value then Inr (strict_eq value right)
      else if scalar = ''JSON'' then
        rbind (filterValueFromUnknown h value path) (\<lambda>a. rbind (filterValueFromUnknown h right path) (\<lambda>b.
          Inr (stringify h a = stringify h b)))
      else if scalar = ''Date'' \<or> scalar = ''DateTime'' then
        rbind (temporalValue h value scalar) (\<lambda>a. rbind (temporalValue h right scalar) (\<lambda>b. Inr (a = b)))
      else if scalar = ''Decimal'' then rbind (compareDecimal h value right path) (\<lambda>c. Inr (c = 0))
      else Inr (strict_eq value right))"

definition has_key :: "host \<Rightarrow> jsval \<Rightarrow> jsval \<Rightarrow> bool" where
  "has_key h value key =
     (case value of
        Obj es \<Rightarrow> obj_has es (js_string h key)
      | Arr xs \<Rightarrow> list_ex (\<lambda>x. strict_eq x key) xs
      | _ \<Rightarrow> False)"

definition like_matches :: "host \<Rightarrow> jsval \<Rightarrow> string \<Rightarrow> bool \<Rightarrow> string \<Rightarrow> bool result" where
  "like_matches h value pattern insensitive path =
     (if is_nullish value then Inr False
      else if list_ex (\<lambda>c. c = CHR 0x5C \<or> c = CHR ''%'' \<or> c = CHR ''_'') pattern then
        (case regexTest h (likeRegex pattern) (if insensitive then ''is'' else ''s'') (js_string h value) of
           Some b \<Rightarrow> Inr b | None \<Rightarrow> Inl (JsError ''Invalid regular expression''))
      else if insensitive then Inr (js_includes (toLowerCase (js_string h value)) (toLowerCase pattern))
      else Inr (js_includes (js_string h value) pattern))"

definition regex_matches :: "host \<Rightarrow> jsval \<Rightarrow> string \<Rightarrow> bool \<Rightarrow> string \<Rightarrow> bool result" where
  "regex_matches h value source insensitive path =
     (case regexTest h source (if insensitive then ''i'' else []) (js_string h value) of
        None \<Rightarrow> fail_at path ''invalid regular expression''
      | Some b \<Rightarrow> Inr (\<not> is_nullish value \<and> b))"

definition matchesComparison :: "host \<Rightarrow> jsval \<Rightarrow> string \<Rightarrow> jsval \<Rightarrow> string \<Rightarrow> string \<Rightarrow> bool result" where
  "matchesComparison h value operator operand scalar path =
     (if operator = ''isNull'' then Inr (strict_eq (Bool (is_nullish value)) operand)
      else if operator = ''exact'' then equal_to h value scalar path operand
      else if operator = ''ne'' then negate_res (equal_to h value scalar path operand)
      else if operator = ''inList'' then some_res (equal_to h value scalar path) (branches_of operand)
      else if operator = ''notInList'' then negate_res (some_res (equal_to h value scalar path) (branches_of operand))
      else if operator = ''jsonContains'' then Inr (jsonContains h value operand False)
      else if operator = ''jsonContainedIn'' then Inr (jsonContains h operand value False)
      else if operator = ''hasKey'' then Inr (has_key h value operand)
      else if operator = ''hasKeysAny'' then Inr (list_ex (has_key h value) (branches_of operand))
      else if operator = ''hasKeysAll'' then Inr (list_all (has_key h value) (branches_of operand))
      else if operator \<in> set ORDER_OPERATORS then
        (if is_nullish value then Inr False
         else rbind (compareValues h value operand scalar path) (\<lambda>c. Inr
                (if operator = ''gt'' then c > 0 else if operator = ''gte'' then c \<ge> 0 else if operator = ''lt'' then c < 0 else c \<le> 0)))
      else if operator = ''similar'' \<or> operator = ''notSimilar''
        then fail_at path ''SQL SIMILAR is not executable by the client row model''
      else if operator \<in> {''like'', ''iLike'', ''notLike'', ''notILike''} then
        (let m = like_matches h value (js_string h operand) (operator = ''iLike'' \<or> operator = ''notILike'') path
         in if operator = ''notLike'' \<or> operator = ''notILike'' then negate_res m else m)
      else if operator \<in> {''regex'', ''iRegex'', ''notRegex'', ''notIRegex''} then
        (let m = regex_matches h value (js_string h operand) (operator = ''iRegex'' \<or> operator = ''notIRegex'') path
         in if operator = ''notRegex'' \<or> operator = ''notIRegex'' then negate_res m else m)
      else if is_nullish value then Inr False
      else (let insensitive = startsWith operator ''i'';
                text = (if insensitive then toLowerCase (js_string h value) else js_string h value);
                needle = (if insensitive then toLowerCase (js_string h operand) else js_string h operand)
            in if operator = ''contains'' \<or> operator = ''iContains'' then Inr (js_includes text needle)
               else if operator = ''startsWith'' \<or> operator = ''iStartsWith'' then Inr (startsWith text needle)
               else if operator = ''endsWith'' \<or> operator = ''iEndsWith'' then Inr (endsWith text needle)
               else fail_at path ''operator cannot be evaluated by the client row model''))"

text \<open>The comparisons of one field on a row.\<close>

definition matches_lookup :: "host \<Rightarrow> resource_query \<Rightarrow> jsval \<Rightarrow> string \<Rightarrow> jsval \<Rightarrow> bool result" where
  "matches_lookup h q row field operand =
     rbind (rowValue h q field row) (\<lambda>raw.
       let scalar = (case filter_of q field of Some d \<Rightarrow> fd_scalar d | None \<Rightarrow> []);
           current = (if scalar = ''ID'' \<and> \<not> is_nullish raw then Str (js_string h raw) else raw)
       in every_res (\<lambda>(operator, comparison).
            matchesComparison h current operator comparison scalar (''filter.'' @ field @ ''.'' @ operator)) (entries_of operand))"

function evaluate :: "host \<Rightarrow> resource_query \<Rightarrow> jsval \<Rightarrow> jsval \<Rightarrow> bool result" where
  "evaluate h q row flt =
     every_res (\<lambda>(field, operand).
       if field = ''AND'' then every_res (evaluate h q row) (branches_of operand)
       else if field = ''OR'' then some_res (evaluate h q row) (branches_of operand)
       else if field = ''NOT'' then negate_res (evaluate h q row operand)
       else matches_lookup h q row field operand) (entries_of flt)"
  by pat_completeness auto
termination
  by (relation "measure (\<lambda>(h, q, row, flt). size flt)") (auto dest!: size_entries_of size_branches_of)

declare evaluate.simps [simp del]

definition row_matches :: "host \<Rightarrow> resource_query \<Rightarrow> jsval \<Rightarrow> jsval \<Rightarrow> bool result" where
  "row_matches h q row value = rbind (filterFrom h q value) (\<lambda>f. evaluate h q row (Obj f))"

section \<open>Group axes\<close>

record group_spec =
  gs_field :: string
  gs_granularity :: "string option"

record group_axis =
  ga_declaration :: query_axis
  ga_spec :: group_spec
  ga_id :: string
  ga_extraction :: "query_extraction option"

record group_dimension =
  gd_input :: string
  gd_key :: string
  gd_granularity :: "string option"
  gd_rangeKey :: "string option"

record group_projection =
  gp_dimensions :: "group_dimension list"
  gp_orderBy :: "string list"
  gp_valueKey :: string
  gp_labelKey :: "string option"

definition new_GroupAxis :: "query_axis \<Rightarrow> group_spec \<Rightarrow> group_axis result" where
  "new_GroupAxis declaration spec =
     (case truthy_string (gs_granularity spec) of
        None \<Rightarrow> Inr \<lparr>ga_declaration = declaration, ga_spec = spec, ga_id = gs_field spec, ga_extraction = None\<rparr>
      | Some g \<Rightarrow>
          (case find (\<lambda>item. ex_name item = g) (ax_extractions declaration) of
             None \<Rightarrow> fail_at (''groups.'' @ gs_field spec @ ''.granularity'') (''unsupported extraction \"'' @ g @ ''\"'')
           | Some e \<Rightarrow> Inr \<lparr>ga_declaration = declaration, ga_spec = spec, ga_id = gs_field spec @ '':'' @ g, ga_extraction = Some e\<rparr>))"

definition canonicalAxisField :: "resource_query \<Rightarrow> string \<Rightarrow> string option result" where
  "canonicalAxisField q field =
     (if obj_has (rq_axes q) field then Inr (Some field)
      else (case filter (\<lambda>(_, axis). ax_identityPath axis = Some field) (rq_axes q) of
              [] \<Rightarrow> Inr None
            | [(name, _)] \<Rightarrow> Inr (Some name)
            | _ \<Rightarrow> fail_at (''groups.'' @ field) ''ambiguous group identity path''))"

definition query_axis_of :: "resource_query \<Rightarrow> string \<Rightarrow> string option \<Rightarrow> group_axis result" where
  "query_axis_of q field granularity =
     rbind (canonicalAxisField q field) (\<lambda>canonical.
       case Option.bind canonical (\<lambda>c. map_option (\<lambda>d. (c, d)) (map_of (rq_axes q) c)) of
         None \<Rightarrow> fail_at (''groups.'' @ field) ''unknown group axis''
       | Some (c, declaration) \<Rightarrow> new_GroupAxis declaration \<lparr>gs_field = c, gs_granularity = truthy_string granularity\<rparr>)"

text \<open>\<open>groupsFrom\<close> on specs that passed their schema.\<close>

fun distinct_groups :: "string set \<Rightarrow> group_axis list \<Rightarrow> unit result" where
  "distinct_groups seen [] = Inr ()"
| "distinct_groups seen (axis # axes) =
     (if ga_id axis \<in> seen then fail_at ''groups'' (''duplicate group \"'' @ ga_id axis @ ''\"'')
      else distinct_groups (insert (ga_id axis) seen) axes)"

definition groupsFrom :: "resource_query \<Rightarrow> group_spec list \<Rightarrow> group_axis list result" where
  "groupsFrom q specs =
     rbind (map_res (\<lambda>spec. query_axis_of q (gs_field spec) (gs_granularity spec)) specs) (\<lambda>axes.
       rbind (distinct_groups {} axes) (\<lambda>_. Inr axes))"

definition axis_fail :: "group_axis \<Rightarrow> string \<Rightarrow> 'a result" where
  "axis_fail a message = fail_at (''groups.'' @ gs_field (ga_spec a)) message"

definition axis_selection :: "group_axis \<Rightarrow> string list result" where
  "axis_selection a =
     (if truthy_string (ax_identityPath (ga_declaration a)) = None then axis_fail a ''axis does not support client grouping''
      else Inr (ax_paths (ga_declaration a)))"

definition query_selection :: "resource_query \<Rightarrow> group_spec list \<Rightarrow> string list result" where
  "query_selection q specs =
     rbind (map_res (\<lambda>spec. rbind (query_axis_of q (gs_field spec) (gs_granularity spec)) axis_selection) specs)
       (\<lambda>ss. Inr (unique (concat ss)))"

definition is_primitive :: "jsval \<Rightarrow> bool" where
  "is_primitive v = (case v of Null \<Rightarrow> True | Str _ \<Rightarrow> True | Num _ \<Rightarrow> True | Bool _ \<Rightarrow> True | _ \<Rightarrow> False)"

definition axis_canonicalValue :: "resource_query \<Rightarrow> group_axis \<Rightarrow> jsval \<Rightarrow> jsval result" where
  "axis_canonicalValue q a value =
     (case field_of q (gs_field (ga_spec a)) of
        None \<Rightarrow> Inr value
      | Some field \<Rightarrow>
          if qf_kind field \<noteq> KEnum then Inr value
          else (case Option.bind (Option.bind (qf_filter field) fd_valueMap) (find (\<lambda>(_, to). object_is to value)) of
                  None \<Rightarrow> Inr value
                | Some (symbol, _) \<Rightarrow>
                    if is_primitive symbol then Inr symbol else axis_fail a ''enum value map must identify a scalar symbol''))"

text \<open>The identity of a value that is neither a date nor missing.\<close>

definition scalar_identity :: "host \<Rightarrow> resource_query \<Rightarrow> group_axis \<Rightarrow> string \<Rightarrow> bool \<Rightarrow> jsval \<Rightarrow> jsval result" where
  "scalar_identity h q a what any_number value =
     (if is_string value \<or> is_bool value \<or> (case value of Num n \<Rightarrow> any_number \<or> is_finite_num value | _ \<Rightarrow> False)
      then axis_canonicalValue q a value
      else if ax_kind (ga_declaration a) = AxisJson then
        rbind (filterValueFromUnknown h value (''groups.'' @ gs_field (ga_spec a))) (\<lambda>v.
          Inr (case stringify h v of Some t \<Rightarrow> Str t | None \<Rightarrow> Undefined))
      else axis_fail a (what @ '' identity must be a scalar''))"

definition axis_scalar :: "resource_query \<Rightarrow> group_axis \<Rightarrow> string" where
  "axis_scalar q a = or_else (Option.bind (field_of q (gs_field (ga_spec a))) qf_scalar) ''DateTime''"

definition axis_identity :: "host \<Rightarrow> resource_query \<Rightarrow> group_axis \<Rightarrow> jsval \<Rightarrow> jsval result" where
  "axis_identity h q a row =
     (case truthy_string (ax_identityPath (ga_declaration a)) of
        None \<Rightarrow> axis_fail a ''axis does not support client grouping''
      | Some path \<Rightarrow>
          (let value = readPath row path
           in if value = Undefined then
                (if ax_kind (ga_declaration a) = AxisJson \<and> list_all (\<lambda>s. readPath row s \<noteq> Undefined) (ax_paths (ga_declaration a))
                 then Inr Null else axis_fail a (''missing selected identity path \"'' @ path @ ''\"''))
              else if value = Null then Inr Null
              else (case ga_extraction a of
                      Some e \<Rightarrow> dateGroup h value (ex_name e) (''groups.'' @ gs_field (ga_spec a))
                    | None \<Rightarrow>
                        if ax_kind (ga_declaration a) = AxisDate
                        then rbind (temporalValue h value (axis_scalar q a)) (\<lambda>s. Inr (Str s))
                        else scalar_identity h q a ''group'' False value)))"

definition axis_label :: "host \<Rightarrow> resource_query \<Rightarrow> group_axis \<Rightarrow> jsval \<Rightarrow> jsval result" where
  "axis_label h q a row =
     (case truthy_string (ax_labelPath (ga_declaration a)) of
        None \<Rightarrow> axis_identity h q a row
      | Some path \<Rightarrow>
          (let value = readPath row path
           in if value = Undefined then axis_fail a (''missing selected label path \"'' @ path @ ''\"'')
              else if is_primitive value then Inr value else axis_fail a ''group label must be a scalar''))"

definition axis_groupBy :: "group_axis \<Rightarrow> group_projection result" where
  "axis_groupBy a =
     (case ax_server (ga_declaration a) of
        None \<Rightarrow> axis_fail a ''axis does not support server grouping''
      | Some server \<Rightarrow>
          (let identity = \<lparr>gd_input = sv_input server,
                 gd_key = (case ga_extraction a of Some e \<Rightarrow> ex_key e | None \<Rightarrow> sv_key server),
                 gd_granularity = map_option ex_input (ga_extraction a),
                 gd_rangeKey = Option.bind (ga_extraction a) (\<lambda>e. truthy_string (ex_rangeKey e))\<rparr>;
               label = (case (truthy_string (sv_labelInput server), truthy_string (sv_labelKey server)) of
                          (Some i, Some k) \<Rightarrow> Some \<lparr>gd_input = i, gd_key = k, gd_granularity = None, gd_rangeKey = None\<rparr>
                        | _ \<Rightarrow> None)
           in Inr \<lparr>gp_dimensions = (case label of Some l \<Rightarrow> [identity, l] | None \<Rightarrow> [identity]),
                   gp_orderBy = (case label of Some l \<Rightarrow> [gd_key l, gd_key identity] | None \<Rightarrow> [gd_key identity]),
                   gp_valueKey = gd_key identity, gp_labelKey = map_option gd_key label\<rparr>))"

definition toGroupBy :: "resource_query \<Rightarrow> group_spec list \<Rightarrow> group_projection result" where
  "toGroupBy q specs =
     (if specs = [] then fail_at ''groups'' ''at least one group is required''
      else rbind (map_res (\<lambda>spec. rbind (query_axis_of q (gs_field spec) (gs_granularity spec)) axis_groupBy) specs) (\<lambda>ps.
             Inr ((last ps)\<lparr>gp_dimensions := concat (map gp_dimensions ps)\<rparr>)))"

definition bucketIdentity :: "host \<Rightarrow> resource_query \<Rightarrow> group_axis \<Rightarrow> jsval table \<Rightarrow> jsval result" where
  "bucketIdentity h q a bucket =
     rbind (axis_groupBy a) (\<lambda>g.
       let raw = prop_of bucket (gp_valueKey g);
           value = (if ga_extraction a = None then mapped_value (Option.bind (ax_server (ga_declaration a)) sv_valueMap) raw else raw);
           ranged = (Option.bind (ga_extraction a) (\<lambda>e. truthy_string (ex_rangeKey e)) \<noteq> None)
       in if value = Undefined then axis_fail a (''bucket is missing key \"'' @ gp_valueKey g @ ''\"'')
          else if value = Null \<or> (ranged \<and> value = Str []) then Inr Null
          else (case ga_extraction a of
                  Some e \<Rightarrow>
                    (case value of
                       Num n \<Rightarrow> axis_canonicalValue q a value
                     | _ \<Rightarrow> dateGroup h value (ex_name e) (''groups.'' @ gs_field (ga_spec a)))
                | None \<Rightarrow>
                    if ax_kind (ga_declaration a) = AxisDate
                    then rbind (temporalValue h value (axis_scalar q a)) (\<lambda>s. Inr (Str s))
                    else scalar_identity h q a ''bucket'' True value))"

definition bucketLabel :: "host \<Rightarrow> resource_query \<Rightarrow> group_axis \<Rightarrow> jsval table \<Rightarrow> jsval result" where
  "bucketLabel h q a bucket =
     rbind (axis_groupBy a) (\<lambda>g.
       case truthy_string (gp_labelKey g) of
         None \<Rightarrow> bucketIdentity h q a bucket
       | Some key \<Rightarrow>
           (let value = prop_of bucket key
            in if value = Undefined then axis_fail a (''bucket is missing label key \"'' @ key @ ''\"'')
               else if is_primitive value then Inr value else axis_fail a ''bucket label must be a scalar''))"

definition bucketId :: "host \<Rightarrow> resource_query \<Rightarrow> group_axis \<Rightarrow> jsval table \<Rightarrow> string result" where
  "bucketId h q a bucket =
     rbind (bucketIdentity h q a bucket) (\<lambda>v. Inr (gs_field (ga_spec a) @ '':'' @ (case stringify h v of Some t \<Rightarrow> t | None \<Rightarrow> ''undefined'')))"

text \<open>The filter a bucket drills into; \<open>None\<close> where the axis offers no drill.\<close>

definition drill_operand :: "host \<Rightarrow> query_drill \<Rightarrow> jsval \<Rightarrow> jsval" where
  "drill_operand h d value =
     (let mapped = mapped_value (Some (dr_valueMap d)) value;
          parsed = (if dr_json d then (case mapped of Str s \<Rightarrow> (case jsonParse h s of Some v \<Rightarrow> v | None \<Rightarrow> mapped) | _ \<Rightarrow> mapped) else mapped)
      in case (dr_kind d, truthy_string (dr_jsonPath d)) of
           (DrillJson, Some path) \<Rightarrow> write_path (js_split (CHR ''.'') path) parsed
         | _ \<Rightarrow> parsed)"

definition axis_drill :: "host \<Rightarrow> resource_query \<Rightarrow> group_axis \<Rightarrow> jsval table \<Rightarrow> jsval table option result" where
  "axis_drill h q a bucket =
     (case (case ga_extraction a of Some e \<Rightarrow> ex_drill e | None \<Rightarrow> ax_drill (ga_declaration a)) of
        None \<Rightarrow> Inr None
      | Some d \<Rightarrow>
          (let value = prop_of bucket (dr_valueKey d);
               null = (value = Null \<or> (dr_kind d = DrillRange \<and> value = Str []));
               wrap = (\<lambda>flt. rbind (filterFrom h q flt) (\<lambda>f. Inr (Some f)))
           in if value = Undefined then axis_fail a (''bucket is missing key \"'' @ dr_valueKey d @ ''\"'')
              else if null \<and> dr_nullMode d = NullUnavailable then Inr None
              else if null \<and> dr_nullMode d = NullIsNull then wrap (Obj [(dr_field d, Obj [(''isNull'', Bool True)])])
              else if dr_kind d = DrillRange then
                (case (case truthy_string (dr_rangeKey d) of Some k \<Rightarrow> prop_of bucket k | None \<Rightarrow> Undefined) of
                   Obj bounds \<Rightarrow>
                     (let scalar = Option.bind (field_of q (dr_field d)) qf_scalar
                      in rbind (dateBoundary h (prop_of bounds ''from'') scalar) (\<lambda>lo.
                           rbind (dateBoundary h (prop_of bounds ''to'') scalar) (\<lambda>hi.
                             wrap (Obj [(dr_field d, Obj [(''gte'', Str lo), (''lt'', Str hi)])]))))
                 | _ \<Rightarrow> axis_fail a (''bucket is missing range \"'' @ or_else (dr_rangeKey d) [] @ ''\"''))
              else wrap (Obj [(dr_field d, Obj [(if dr_kind d = DrillJson then ''jsonContains'' else ''exact'', drill_operand h d value)])])))"

definition toFacet :: "host \<Rightarrow> resource_query \<Rightarrow> string \<Rightarrow> jsval \<Rightarrow> (group_projection \<times> jsval table) result" where
  "toFacet h q field flt =
     rbind (query_axis_of q field None) (\<lambda>a. rbind (axis_groupBy a) (\<lambda>g.
       rbind (query_withoutFields h q flt {field}) (\<lambda>f. rbind (toWhere h q [Obj f]) (\<lambda>w. Inr (g, w)))))"

end
