(* ===== verification/Decimals.thy ===== *)
theory Decimals
  imports Temporal
begin

text \<open>
  The comparison of decimal texts in \<open>query.ts\<close> works on digit strings so that no precision is
  lost: here it is shown to agree with the order of the rational numbers the texts denote.
\<close>

section \<open>Digit strings\<close>

lemma digits_val_append: "digits_val (xs @ ys) = digits_val xs * 10 ^ length ys + digits_val ys"
proof (induction ys rule: rev_induct)
  case (snoc y ys)
  then show ?case by (simp add: digits_val_snoc append_assoc[symmetric] del: append_assoc)
qed (simp add: digits_val_def)

lemma digits_val_Cons: "digits_val (c # s) = (of_char c - 48) * 10 ^ length s + digits_val s"
  using digits_val_append[of "[c]" s] by (simp add: digits_val_def)

lemma digits_val_zeros: "digits_val (replicate n (CHR ''0'') @ s) = digits_val s"
  by (induction n) (simp_all add: digits_val_Cons)

lemma digits_val_dropWhile: "digits_val (dropWhile (\<lambda>c. c = CHR ''0'') s) = digits_val s"
  by (induction s) (simp_all add: digits_val_Cons)

lemma digits_val_lt: "list_all digit_char s \<Longrightarrow> digits_val s < 10 ^ length s"
proof (induction s)
  case (Cons c s)
  then have "of_char c - 48 \<le> (9 :: nat)" "digits_val s < 10 ^ length s" by (auto simp: digit_char_def)
  moreover from this(1) have "(of_char c - 48) * 10 ^ length s \<le> 9 * (10 :: nat) ^ length s" by (rule mult_right_mono) simp
  ultimately show ?case unfolding digits_val_Cons length_Cons power_Suc by linarith
qed (simp add: digits_val_def)

lemma digits_val_ge:
  assumes "list_all digit_char (c # s)" "c \<noteq> CHR ''0''"
  shows "10 ^ length s \<le> digits_val (c # s)"
proof -
  have "(of_char c :: nat) \<noteq> 48" using assms(2) char_eq_nat[of c "CHR ''0''"] by simp
  then have "1 \<le> of_char c - (48 :: nat)" using assms(1) by (auto simp: digit_char_def)
  then have "1 * 10 ^ length s \<le> (of_char c - 48) * (10 :: nat) ^ length s" by (rule mult_right_mono) simp
  then show ?thesis unfolding digits_val_Cons by linarith
qed

lemma digits_less_iff:
  "length x = length y \<Longrightarrow> list_all digit_char x \<Longrightarrow> list_all digit_char y \<Longrightarrow> x < y \<longleftrightarrow> digits_val x < digits_val y"
proof (induction x y rule: list_induct2)
  case (Cons c x d y)
  have bounds: "digits_val x < 10 ^ length x" "digits_val y < 10 ^ length x"
    using Cons.prems Cons.hyps digits_val_lt[of x] digits_val_lt[of y] by auto
  have cd: "c < d \<longleftrightarrow> (of_char c :: nat) < of_char d" by (simp add: less_char_def)
  have digits: "48 \<le> (of_char c :: nat)" "48 \<le> (of_char d :: nat)" using Cons.prems by (auto simp: digit_char_def)
  consider "(of_char c :: nat) < of_char d" | "(of_char c :: nat) > of_char d" | "(of_char c :: nat) = of_char d" by linarith
  then show ?case
  proof cases
    case 1
    then have "Suc (of_char c - 48) \<le> of_char d - (48 :: nat)" using digits by simp
    then have "Suc (of_char c - 48) * 10 ^ length x \<le> (of_char d - 48) * (10 :: nat) ^ length x" by (rule mult_right_mono) simp
    with 1 cd bounds Cons.hyps show ?thesis by (simp add: digits_val_Cons)
  next
    case 2
    then have "Suc (of_char d - 48) \<le> of_char c - (48 :: nat)" using digits by simp
    then have "Suc (of_char d - 48) * 10 ^ length x \<le> (of_char c - 48) * (10 :: nat) ^ length x" by (rule mult_right_mono) simp
    with 2 cd bounds Cons.hyps show ?thesis by (auto simp: digits_val_Cons less_char_def)
  next
    case 3
    then have "c = d" by simp
    with Cons show ?thesis by (simp add: digits_val_Cons)
  qed
qed simp

lemma digits_val_padEnd: "length s \<le> n \<Longrightarrow> digits_val (padEnd n (CHR ''0'') s) = digits_val s * 10 ^ (n - length s)"
proof -
  have "digits_val (replicate (n - length s) (CHR ''0'')) = 0"
    using digits_val_zeros[of "n - length s" "[]"] by (simp add: digits_val_def)
  then show ?thesis by (simp add: padEnd_def digits_val_append)
qed

section \<open>The value of a decimal text\<close>

definition dec_magnitude :: "decimal_text \<Rightarrow> rat" where
  "dec_magnitude d = of_nat (digits_val (dec_int d @ dec_frac d)) * 10 powi (dec_exp d - int (length (dec_frac d)))"

definition dec_value :: "decimal_text \<Rightarrow> rat" where
  "dec_value d = (if dec_neg d then - dec_magnitude d else dec_magnitude d)"

definition dec_ok :: "decimal_text \<Rightarrow> bool" where
  "dec_ok d \<longleftrightarrow> list_all digit_char (dec_int d @ dec_frac d)"

lemma span_digits_ok: "span_digits s = (f, r) \<Longrightarrow> list_all digit_char f"
  by (auto simp: span_digits_def list_all_iff dest: set_takeWhileD)

lemma parse_decimal_ok: "parse_decimal s = Some d \<Longrightarrow> dec_ok d"
  by (auto simp: parse_decimal_def dec_ok_def Let_def span_digits_ok split: prod.splits option.splits if_splits dest!: span_digits_ok)

lemma dec_digits_val: "digits_val (dec_digits d) = digits_val (dec_int d @ dec_frac d)"
proof -
  have "digits_val ''0'' = digits_val []" by (simp add: digits_val_def)
  then show ?thesis
    unfolding dec_digits_def Let_def by (simp only: digits_val_dropWhile split: if_split) (metis digits_val_dropWhile)
qed

lemma dec_digits_digits: "dec_ok d \<Longrightarrow> list_all digit_char (dec_digits d)"
  unfolding dec_ok_def dec_digits_def Let_def by (auto simp: list_all_iff digit_char_def dest: set_dropWhileD)

lemma dec_magnitude_digits:
  "dec_magnitude d = of_nat (digits_val (dec_digits d)) * 10 powi (dec_order d - int (length (dec_digits d)))"
  by (simp add: dec_magnitude_def dec_digits_val dec_order_def)

lemma dec_digits_cases:
  assumes "dec_digits d \<noteq> ''0''"
  obtains c s where "dec_digits d = c # s" "c \<noteq> CHR ''0''"
proof -
  let ?ds = "dropWhile (\<lambda>c. c = CHR ''0'') (dec_int d @ dec_frac d)"
  have ne: "?ds \<noteq> []" and eq: "dec_digits d = ?ds" using assms by (auto simp: dec_digits_def Let_def split: if_splits)
  then obtain c s where "?ds = c # s" by (cases ?ds) auto
  moreover from this have "c \<noteq> CHR ''0''" using hd_dropWhile[OF ne] by simp
  ultimately show thesis using that eq by simp
qed

lemma power_int_split: "10 powi (a + int n) = (10 :: rat) powi a * 10 ^ n"
  by (simp add: power_int_add)

lemma dec_magnitude_bounds:
  assumes "dec_ok d" "dec_digits d \<noteq> ''0''"
  shows "10 powi (dec_order d - 1) \<le> dec_magnitude d" "dec_magnitude d < 10 powi dec_order d"
proof -
  obtain c s where cs: "dec_digits d = c # s" "c \<noteq> CHR ''0''" using dec_digits_cases[OF assms(2)] .
  have ok: "list_all digit_char (c # s)" using dec_digits_digits[OF assms(1)] cs by simp
  let ?e = "(10 :: rat) powi (dec_order d - int (length (c # s)))"
  have e: "?e > 0" by simp
  have m: "dec_magnitude d = of_nat (digits_val (c # s)) * ?e" by (simp only: dec_magnitude_digits cs)
  have "(10 :: rat) ^ length s \<le> of_nat (digits_val (c # s))"
    using digits_val_ge[OF ok cs(2)] by (metis of_nat_le_iff of_nat_numeral of_nat_power)
  then have "10 ^ length s * ?e \<le> dec_magnitude d" unfolding m using e by (intro mult_right_mono) auto
  moreover have "(10 :: rat) powi (dec_order d - 1) = 10 ^ length s * ?e"
    using power_int_split[of "dec_order d - int (length (c # s))" "length s"] by (simp add: mult.commute)
  ultimately show "10 powi (dec_order d - 1) \<le> dec_magnitude d" by simp
  have "of_nat (digits_val (c # s)) < (10 :: rat) ^ length (c # s)"
    using digits_val_lt[OF ok] by (metis of_nat_less_iff of_nat_numeral of_nat_power)
  then have "dec_magnitude d < 10 ^ length (c # s) * ?e" unfolding m using e by (rule mult_strict_right_mono)
  moreover have "(10 :: rat) powi dec_order d = 10 ^ length (c # s) * ?e"
    using power_int_split[of "dec_order d - int (length (c # s))" "length (c # s)"] by (simp add: mult.commute)
  ultimately show "dec_magnitude d < 10 powi dec_order d" by simp
qed

lemma dec_magnitude_padded:
  assumes "length (dec_digits d) \<le> n"
  shows "dec_magnitude d = of_nat (digits_val (padEnd n (CHR ''0'') (dec_digits d))) * 10 powi (dec_order d - int n)"
proof -
  have "dec_order d - int (length (dec_digits d)) = (dec_order d - int n) + int (n - length (dec_digits d))"
    using assms by simp
  then have "(10 :: rat) powi (dec_order d - int (length (dec_digits d))) = 10 powi (dec_order d - int n) * 10 ^ (n - length (dec_digits d))"
    by (simp only: power_int_split)
  then show ?thesis using assms by (simp add: dec_magnitude_digits digits_val_padEnd)
qed

lemma dec_magnitude_zero: "dec_digits d = ''0'' \<Longrightarrow> dec_magnitude d = 0"
  by (simp add: dec_magnitude_digits digits_val_def)

lemma dec_magnitude_pos: "dec_ok d \<Longrightarrow> dec_digits d \<noteq> ''0'' \<Longrightarrow> 0 < dec_magnitude d"
  by (rule less_le_trans[OF _ dec_magnitude_bounds(1)]) simp_all

lemma dec_value_sign: "dec_ok d \<Longrightarrow> of_int (dec_sign d) * dec_magnitude d = dec_value d"
  by (simp add: dec_sign_def dec_value_def dec_magnitude_zero)

text \<open>The order of two positive decimals, as the text comparison decides it.\<close>

definition magnitude_compare :: "decimal_text \<Rightarrow> decimal_text \<Rightarrow> int" where
  "magnitude_compare a b =
     (if dec_order a \<noteq> dec_order b then (if dec_order a < dec_order b then -1 else 1)
      else (let n = max (length (dec_digits a)) (length (dec_digits b));
                x = padEnd n (CHR ''0'') (dec_digits a); y = padEnd n (CHR ''0'') (dec_digits b)
            in (if x < y then -1 else if x > y then 1 else 0)))"

definition rat_compare :: "rat \<Rightarrow> rat \<Rightarrow> int" where
  "rat_compare x y = (if x < y then -1 else if x > y then 1 else 0)"

lemma order_less_magnitude:
  assumes "dec_ok a" "dec_ok b" "dec_digits a \<noteq> ''0''" "dec_digits b \<noteq> ''0''" "dec_order a < dec_order b"
  shows "dec_magnitude a < dec_magnitude b"
proof -
  have "dec_magnitude a < 10 powi dec_order a" using dec_magnitude_bounds assms by blast
  also have "\<dots> \<le> 10 powi (dec_order b - 1)" using assms(5) by (intro power_int_increasing) auto
  also have "\<dots> \<le> dec_magnitude b" using dec_magnitude_bounds assms by blast
  finally show ?thesis .
qed

lemma magnitude_compare_correct:
  assumes "dec_ok a" "dec_ok b" "dec_digits a \<noteq> ''0''" "dec_digits b \<noteq> ''0''"
  shows "magnitude_compare a b = rat_compare (dec_magnitude a) (dec_magnitude b)"
proof (cases "dec_order a = dec_order b")
  case False
  then show ?thesis
    using order_less_magnitude[OF assms] order_less_magnitude[OF assms(2,1,4,3)]
    by (auto simp: magnitude_compare_def rat_compare_def)
next
  case True
  define n where "n = max (length (dec_digits a)) (length (dec_digits b))"
  define x where "x = padEnd n (CHR ''0'') (dec_digits a)"
  define y where "y = padEnd n (CHR ''0'') (dec_digits b)"
  have len: "length x = length y" by (simp add: x_def y_def padEnd_def n_def)
  have ok: "list_all digit_char x" "list_all digit_char y"
    using dec_digits_digits assms(1,2) by (auto simp: x_def y_def padEnd_def list_all_iff digit_char_def)
  let ?e = "(10 :: rat) powi (dec_order a - int n)"
  have m: "dec_magnitude a = of_nat (digits_val x) * ?e" "dec_magnitude b = of_nat (digits_val y) * ?e"
    using dec_magnitude_padded[of a n] dec_magnitude_padded[of b n] True by (simp_all add: x_def y_def n_def)
  have less: "x < y \<longleftrightarrow> dec_magnitude a < dec_magnitude b" "y < x \<longleftrightarrow> dec_magnitude b < dec_magnitude a"
    using digits_less_iff[OF len ok] digits_less_iff[OF len[symmetric] ok(2,1)] by (simp_all add: m)
  have "magnitude_compare a b = (if x < y then -1 else if y < x then 1 else 0)"
    unfolding magnitude_compare_def Let_def x_def y_def n_def using True by simp
  then show ?thesis by (simp only: less rat_compare_def)
qed

lemma compare_parts_magnitude:
  "compare_parts a b =
     (if dec_sign a \<noteq> dec_sign b then (if dec_sign a < dec_sign b then -1 else 1)
      else magnitude_compare a b * dec_sign a)"
  by (simp add: compare_parts_def magnitude_compare_def Let_def)

lemma compare_parts_correct:
  assumes "dec_ok a" "dec_ok b"
  shows "compare_parts a b = rat_compare (dec_value a) (dec_value b)"
proof -
  have pos: "dec_digits d = ''0'' \<or> 0 < dec_magnitude d" if "dec_ok d" for d using dec_magnitude_pos that by blast
  have zero: "dec_digits d = ''0'' \<Longrightarrow> dec_value d = 0" for d by (simp add: dec_value_def dec_magnitude_zero)
  show ?thesis
  proof (cases "dec_digits a = ''0'' \<or> dec_digits b = ''0''")
    case True
    then show ?thesis
      using pos[OF assms(1)] pos[OF assms(2)] zero
      by (auto simp: compare_parts_magnitude rat_compare_def dec_sign_def dec_value_def)
  next
    case False
    then have p: "0 < dec_magnitude a" "0 < dec_magnitude b" using pos assms by auto
    show ?thesis
      using False p magnitude_compare_correct[OF assms]
      by (auto simp: compare_parts_magnitude dec_sign_def dec_value_def rat_compare_def)
  qed
qed

text \<open>
  C7: comparing two decimal texts, whatever their length and exponents, returns -1, 0 or 1
  exactly as the rational numbers they denote compare; it fails exactly when one of them is not
  a decimal.
\<close>

theorem compareDecimal_exact:
  "compareDecimal h (Str s) (Str t) path =
     (case (parse_decimal s, parse_decimal t) of
        (Some a, Some b) \<Rightarrow> Inr (rat_compare (dec_value a) (dec_value b))
      | _ \<Rightarrow> Inl (QueryParseError path ''expected a decimal''))"
  by (auto simp: compareDecimal_def decimal_parts_def compare_parts_correct parse_decimal_ok split: option.splits)

lemma compareDecimal_sample:
  "compareDecimal root_host (Str ''1e3'') (Str ''999.99'') ''p'' = Inr 1" "compareDecimal root_host (Str ''0.10'') (Str ''.1'') ''p'' = Inr 0"
  by code_simp+


end
