(* ===== verification/QueryClaims.thy ===== *)
theory QueryClaims
  imports QueryFacts RowMatching Decimals
begin

text \<open>
  The properties of the query language: conditions compiled for the server keep the meaning of
  the filter, wildcards in operands cannot escape their literal reading, operands are within the
  bounds of their scalar, sorts name each field once, and the client matches exactly the rows the
  compiled condition selects.
\<close>

section \<open>Compiled conditions\<close>

lemma toWhere_parts:
  "toWhere h q values = rbind (map_res (filterFrom h q) values) (\<lambda>fs.
     let parts = filter (\<lambda>w. w \<noteq> []) (map (\<lambda>f. whereOf h q (Obj f)) fs);
         combined = (case parts of [] \<Rightarrow> [] | [w] \<Rightarrow> w | _ \<Rightarrow> [(''_and'', Arr (map Obj parts))])
     in Inr (hasuraWhereRoot combined))"
proof -
  have "map_res (\<lambda>v. rbind (filterFrom h q v) (\<lambda>f. Inr (g f))) vs = rbind (map_res (filterFrom h q) vs) (\<lambda>fs. Inr (map g fs))"
    for g :: "jsval table \<Rightarrow> jsval table" and vs
  proof (induction vs)
    case (Cons v vs)
    then show ?case by (cases "filterFrom h q v"; cases "map_res (filterFrom h q) vs") simp_all
  qed simp
  then show ?thesis unfolding toWhere_def by (cases "map_res (filterFrom h q) values") simp_all
qed

lemma combined_holds:
  "wire_holds leaf path (Obj (case parts of [] \<Rightarrow> [] | [w] \<Rightarrow> w | _ \<Rightarrow> [(''_and'', Arr (map Obj parts))]))
     \<longleftrightarrow> (\<forall>w \<in> set parts. wire_holds leaf path (Obj w))"
  by (cases parts rule: remdups_adj.cases) (auto simp: wire_holds_Obj[of _ _ "[]"] wire_holds_Obj[of _ _ "[(_, _)]"] wire_entry_def)

context js_host
begin

lemma toWhere_holds:
  assumes "paths_ok q" "\<forall>v \<in> set values. js_ok v" "map_res (filterFrom h q) values = Inr fs"
  shows "\<exists>w. toWhere h q values = Inr w \<and> (\<forall>leaf. wire_holds leaf [] (Obj w) \<longleftrightarrow> (\<forall>f \<in> set fs. holds (compiled_leaf h q leaf) (Obj f)))"
proof -
  define parts where "parts = filter (\<lambda>w. w \<noteq> []) (map (\<lambda>f. whereOf h q (Obj f)) fs)"
  define w where "w = hasuraWhereRoot (case parts of [] \<Rightarrow> [] | [w] \<Rightarrow> w | _ \<Rightarrow> [(''_and'', Arr (map Obj parts))])"
  have "toWhere h q values = Inr w" 
    unfolding toWhere_parts assms(3) rbind_simps Let_def w_def parts_def ..
  moreover have "wire_holds leaf [] (Obj w) \<longleftrightarrow> (\<forall>f \<in> set fs. holds (compiled_leaf h q leaf) (Obj f))" for leaf
  proof -
    have c: "canonical h (Obj f)" if "f \<in> set fs" for f
      using map_res_elem[OF assms(3) that] assms(2) filterFrom_canonical by blast
    have "wire_holds leaf [] (Obj w) \<longleftrightarrow> (\<forall>p \<in> set parts. wire_holds leaf [] (Obj p))"
      by (simp only: w_def root_holds combined_holds)
    also have "\<dots> \<longleftrightarrow> (\<forall>f \<in> set fs. wire_holds leaf [] (Obj (whereOf h q (Obj f))))"
      by (auto simp: parts_def wire_holds_Obj)
    also have "\<dots> \<longleftrightarrow> (\<forall>f \<in> set fs. holds (compiled_leaf h q leaf) (Obj f))"
      using whereOf_holds[OF c assms(1)] by blast
    finally show ?thesis .
  qed
  ultimately show ?thesis by blast
qed

end


definition sample_query :: resource_query where
  "sample_query = forRows [(''status'', \<lparr>lf_kind = None, lf_scalar = Some ''String'', lf_values = None, lf_nullable = None, lf_identityPath = None, lf_labelPath = None\<rparr>)] None"

definition sample_filter :: jsval where
  "sample_filter = Obj [(''status'', Str ''open'')]"

lemma sample_filter_from: "filterFrom root_host sample_query sample_filter = Inr [(''status'', Obj [(''exact'', Str ''open'')])]"
  by code_simp

lemma sample_paths_ok: "paths_ok sample_query"
proof -
  have "list_all (\<lambda>(name, f). case qf_filter f of Some d \<Rightarrow> list_all (\<lambda>k. k \<notin> {''_and'', ''_or'', ''_not''} \<and> k \<notin> set (map snd WIRE_OPERATORS)) (js_split (CHR ''.'') (fd_field d)) | None \<Rightarrow> True) (rq_fields sample_query)"
    by code_simp
  then show ?thesis by (auto simp: paths_ok_def plain_key_def wire_names_def list_all_iff split: option.splits)
qed

lemma sample_js_ok: "js_ok sample_filter"
  by (simp add: sample_filter_def table_ok_def)


section \<open>Substring operands\<close>

definition special_like :: "char \<Rightarrow> bool" where
  "special_like c \<longleftrightarrow> c = CHR 0x5C \<or> c = CHR ''%'' \<or> c = CHR ''_''"

lemma escape_like_simps [simp]:
  "escape_like [] = []"
  "escape_like (c # s) = (if special_like c then [CHR 0x5C, c] else [c]) @ escape_like s"
  by (simp_all add: escape_like_def special_like_def)

lemma unescape_special: "special_like c \<Longrightarrow> unescape_like (CHR 0x5C # c # s) = c # unescape_like s"
  by (simp add: special_like_def)

lemma unescape_ordinary: "\<not> special_like c \<Longrightarrow> unescape_like (c # s) = c # unescape_like s"
  by (cases s) (simp_all add: special_like_def)

declare unescape_like.simps(3) [simp del]

lemma unescape_escape: "unescape_like (escape_like s) = s"
  by (induction s) (simp_all add: unescape_special unescape_ordinary)

text \<open>SQL \<open>LIKE\<close> with the backslash as its escape.\<close>

function (sequential) sql_like :: "string \<Rightarrow> string \<Rightarrow> bool" where
  "sql_like [] t = (t = [])"
| "sql_like [c] t = (if c = CHR ''%'' then True else if c = CHR ''_'' then length t = 1 else t = [c])"
| "sql_like (c # d # p) t =
     (if c = CHR 0x5C then (case t of x # u \<Rightarrow> x = d \<and> sql_like p u | [] \<Rightarrow> False)
      else if c = CHR ''%'' then sql_like (d # p) t \<or> (case t of x # u \<Rightarrow> sql_like (c # d # p) u | [] \<Rightarrow> False)
      else (case t of x # u \<Rightarrow> (c = CHR ''_'' \<or> x = c) \<and> sql_like (d # p) u | [] \<Rightarrow> False))"
  by pat_completeness auto
termination
  by (relation "measure (\<lambda>(p, t). length p + length t)") auto

declare sql_like.simps(3) [simp del]

lemma sql_like_escape: "sql_like (escape_like s @ p) t \<longleftrightarrow> (\<exists>u. t = s @ u \<and> sql_like p u)"
proof (induction s arbitrary: t)
  case (Cons c s)
  let ?r = "escape_like s @ p"
  have "sql_like (escape_like (c # s) @ p) t \<longleftrightarrow> (\<exists>u. t = c # u \<and> sql_like ?r u)"
  proof (cases "special_like c")
    case True
    then show ?thesis by (cases t) (simp_all add: sql_like.simps(3))
  next
    case False
    then have "c \<noteq> CHR 0x5C" "c \<noteq> CHR ''%''" "c \<noteq> CHR ''_''" by (simp_all add: special_like_def)
    then show ?thesis
      using False by (cases ?r; cases t) (auto simp add: sql_like.simps(3) simp del: escape_like_simps(1))
  qed
  with Cons show ?case by auto
qed simp

lemma sql_like_any: "sql_like (CHR ''%'' # p) t \<longleftrightarrow> (\<exists>v u. t = v @ u \<and> sql_like p u)"
proof (cases p)
  case (Cons d p')
  show ?thesis
  proof (induction t)
    case Nil
    then show ?case by (simp add: Cons sql_like.simps(3))
  next
    case (Cons x t)
    have "sql_like (CHR ''%'' # p) (x # t) \<longleftrightarrow> sql_like p (x # t) \<or> sql_like (CHR ''%'' # p) t"
      by (simp add: \<open>p = d # p'\<close> sql_like.simps(3))
    also have "\<dots> \<longleftrightarrow> (\<exists>v u. x # t = v @ u \<and> sql_like p u)"
      using Cons.IH by (auto simp: Cons_eq_append_conv)
    finally show ?case .
  qed
qed auto

lemma js_includes_append: "js_includes t s \<longleftrightarrow> (\<exists>v u. t = v @ s @ u)"
proof (induction t)
  case (Cons c t)
  show ?case using Cons by (auto simp: startsWith_iff_prefix prefix_def Cons_eq_append_conv)
qed auto

lemma endsWith_append: "endsWith t s \<longleftrightarrow> (\<exists>v. t = v @ s)"
  unfolding endsWith_def startsWith_iff_prefix by (metis suffix_def suffix_to_prefix)

lemma fromWire_wire:
  "list_all (\<lambda>operator. fromWireOperand h operator (wireOperand h operator (Str s)) = Str s) SUBSTRING_OPERATORS"
proof -
  have "fromWireOperand h ''contains'' (wireOperand h ''contains'' (Str s)) = Str s"
    and "fromWireOperand h ''iContains'' (wireOperand h ''iContains'' (Str s)) = Str s"
    and "fromWireOperand h ''startsWith'' (wireOperand h ''startsWith'' (Str s)) = Str s"
    and "fromWireOperand h ''iStartsWith'' (wireOperand h ''iStartsWith'' (Str s)) = Str s"
    and "fromWireOperand h ''endsWith'' (wireOperand h ''endsWith'' (Str s)) = Str s"
    and "fromWireOperand h ''iEndsWith'' (wireOperand h ''iEndsWith'' (Str s)) = Str s"
    by (simp_all add: SUBSTRING_OPERATORS_def fromWireOperand_def wireOperand_def unescape_escape butlast_append Let_def)
  then show ?thesis by (simp only: SUBSTRING_OPERATORS_def list.pred_inject simp_thms)
qed

text \<open>
  C6: the operand of a substring comparison compiles to a \<open>LIKE\<close> pattern that matches exactly
  the texts containing, starting with or ending with the operand, wildcards and backslashes of
  the operand included literally, and reading the pattern back gives the operand.
\<close>

theorem wireOperand_literal:
  "(\<exists>p. wireOperand h ''contains'' (Str s) = Str p \<and> (\<forall>t. sql_like p t = js_includes t s)) \<and>
   (\<exists>p. wireOperand h ''startsWith'' (Str s) = Str p \<and> (\<forall>t. sql_like p t = startsWith t s)) \<and>
   (\<exists>p. wireOperand h ''endsWith'' (Str s) = Str p \<and> (\<forall>t. sql_like p t = endsWith t s)) \<and>
   list_all (\<lambda>operator. fromWireOperand h operator (wireOperand h operator (Str s)) = Str s) SUBSTRING_OPERATORS"
proof (intro conjI)
  have all: "sql_like ''%'' u" for u by simp
  have "sql_like (CHR ''%'' # escape_like s @ ''%'') t = js_includes t s" for t
    using sql_like_any[of "escape_like s @ ''%''" t] sql_like_escape[of s "''%''"] all
    by (simp only: js_includes_append simp_thms) blast
  then show "\<exists>p. wireOperand h ''contains'' (Str s) = Str p \<and> (\<forall>t. sql_like p t = js_includes t s)"
    by (simp add: wireOperand_def SUBSTRING_OPERATORS_def)
  have "sql_like (escape_like s @ ''%'') t = startsWith t s" for t
    unfolding sql_like_escape startsWith_iff_prefix prefix_def by (simp only: all simp_thms)
  then show "\<exists>p. wireOperand h ''startsWith'' (Str s) = Str p \<and> (\<forall>t. sql_like p t = startsWith t s)"
    by (simp add: wireOperand_def SUBSTRING_OPERATORS_def)
  have "sql_like (CHR ''%'' # escape_like s) t = endsWith t s" for t
    using sql_like_any[of "escape_like s" t] sql_like_escape[of s "[]"] by (auto simp: endsWith_append)
  then show "\<exists>p. wireOperand h ''endsWith'' (Str s) = Str p \<and> (\<forall>t. sql_like p t = endsWith t s)"
    by (simp add: wireOperand_def SUBSTRING_OPERATORS_def)
  show "list_all (\<lambda>operator. fromWireOperand h operator (wireOperand h operator (Str s)) = Str s) SUBSTRING_OPERATORS"
    by (rule fromWire_wire)
qed


section \<open>Sorts\<close>

text \<open>A sort of declared sortable fields, each at most once.\<close>

definition sort_ok :: "resource_query \<Rightarrow> string set \<Rightarrow> (string \<times> direction) list \<Rightarrow> bool" where
  "sort_ok q seen ss \<longleftrightarrow> distinct (map fst ss) \<and> fst ` set ss \<inter> seen = {} \<and>
     list_all (\<lambda>s. Option.bind (field_of q (fst s)) qf_sort \<noteq> None) ss"

definition sort_value :: "(string \<times> direction) list \<Rightarrow> jsval" where
  "sort_value ss = Arr (map (\<lambda>(f, d). Obj [(''field'', Str f), (''direction'', Str (direction_text d))]) ss)"

lemma sort_entry_Inr: "sort_entry h q seen path entry = Inr s \<Longrightarrow> fst s \<notin> seen \<and> Option.bind (field_of q (fst s)) qf_sort \<noteq> None"
  by (auto simp: sort_entry_def split: jsval.splits option.splits if_splits)

lemma sort_loop_ok: "sort_loop h q seen index es = Inr ss \<Longrightarrow> sort_ok q seen ss"
proof (induction es arbitrary: seen index ss)
  case Nil
  then show ?case by (simp add: sort_ok_def)
next
  case (Cons e es)
  then obtain s rest where step: "sort_entry h q seen (at_index ''sort'' index) e = Inr s"
      "sort_loop h q (insert (fst s) seen) (Suc index) es = Inr rest" "ss = s # rest"
    by (auto simp: rbind_Inr_iff)
  from Cons.IH[OF step(2)] sort_entry_Inr[OF step(1)] show ?case by (auto simp: sort_ok_def step(3))
qed

lemma direction_text_parse: "parse_direction (direction_text d) = Some d"
  by (cases d) (simp_all add: parse_direction_def direction_text_def)

lemma sort_loop_canonical:
  "sort_ok q seen ss \<Longrightarrow>
   sort_loop h q seen index (map (\<lambda>(f, d). Obj [(''field'', Str f), (''direction'', Str (direction_text d))]) ss) = Inr ss"
proof (induction ss arbitrary: seen index)
  case (Cons s ss)
  obtain f d where s: "s = (f, d)" by fastforce
  have "sort_entry h q seen (at_index ''sort'' index) (Obj [(''field'', Str f), (''direction'', Str (direction_text d))]) = Inr (f, d)"
    using Cons.prems by (simp add: sort_entry_def prop_of_def direction_text_parse sort_ok_def s)
  moreover have "sort_ok q (insert f seen) ss" using Cons.prems by (auto simp: sort_ok_def s)
  ultimately show ?case using Cons.IH by (simp add: s)
qed simp

text \<open>
  C25: a sort the query accepts is well typed: it orders by declared sortable fields only, each at
  most once, and it is canonical, the query reads it back as itself; a duplicate or an unsortable
  field never gets through.
\<close>

theorem sortFrom_typed:
  assumes "sortFrom h q v = Inr ss"
  shows "sort_ok q {} ss \<and> sortFrom h q (sort_value ss) = Inr ss"
proof -
  have "sort_ok q {} ss" using assms sort_loop_ok by (auto simp: sortFrom_def rbind_Inr_iff)
  with sort_loop_canonical[OF this, of h 0] show ?thesis by (simp add: sortFrom_def sort_value_def sort_entries_def)
qed

theorem sortFrom_typed_witness: "sort_ok sample_query {} [(''status'', Desc)]"
proof -
  have "sortFrom root_host sample_query (Obj [(''status'', Str ''desc'')]) = Inr [(''status'', Desc)]" by code_simp
  from sortFrom_typed[OF this] show ?thesis by blast
qed

end
