(* ===== verification/Dashboard.thy ===== *)
theory Dashboard
  imports Filters
begin

text \<open>
  The dashboard of \<open>packages/ui/src/dashboard\<close>: the widget and snapshot types of \<open>headless.ts\<close> with
  the checks its schemas make, the layout validation of a stored snapshot, and the first-fit
  packing of \<open>layout.ts\<close> that every move and resize goes through. Coordinates are integers, as
  the schemas require of stored widgets; the functions of \<open>layout.ts\<close> are generic in the widget,
  so they work on extensions of the rectangle record and keep the other fields.
\<close>

section \<open>Snapshots\<close>

definition columns_min :: int where "columns_min = 1"
definition columns_max :: int where "columns_max = 24"
definition widgets_max :: nat where "widgets_max = 100"
definition widgetHeight :: int where "widgetHeight = 100"
definition layoutRows :: int where "layoutRows = 1000"
definition rowResults :: int where "rowResults = 100"

datatype dashboard_target = AddonTarget string | ResourceTarget string | PersonalTarget string

fun DashboardTargetSchema :: "dashboard_target \<Rightarrow> bool" where
  "DashboardTargetSchema (AddonTarget key) = (key \<noteq> [])"
| "DashboardTargetSchema (ResourceTarget key) = (key \<noteq> [])"
| "DashboardTargetSchema (PersonalTarget i) = (i \<noteq> [])"

datatype dashboard_refresh = RefreshLive | RefreshInterval int | RefreshManual

fun DashboardRefreshSchema :: "dashboard_refresh \<Rightarrow> bool" where
  "DashboardRefreshSchema (RefreshInterval seconds) = (1 \<le> seconds \<and> seconds \<le> 3600 \<and> 5 \<le> seconds)"
| "DashboardRefreshSchema _ = True"

datatype measure_op = OpCount | OpSum | OpAvg | OpMin | OpMax

record widget_measure =
  measure_op :: measure_op
  measure_field :: "string option"

record source_group =
  sg_field :: string
  sg_granularity :: "string option"

datatype sort_direction = ASC | DESC

record widget_source =
  src_resource :: string
  src_filter :: "jsval table option"
  src_groups :: "source_group list option"
  src_sort :: "(string \<times> sort_direction) list option"
  src_measure :: "widget_measure option"
  src_fields :: "string list option"
  src_limit :: "int option"
  src_refresh :: "dashboard_refresh option"

definition when_present :: "('a \<Rightarrow> bool) \<Rightarrow> 'a option \<Rightarrow> bool" where
  "when_present p o' = (case o' of None \<Rightarrow> True | Some x \<Rightarrow> p x)"

definition WidgetSourceSchema :: "widget_source \<Rightarrow> bool" where
  "WidgetSourceSchema s \<longleftrightarrow>
     src_resource s \<noteq> [] \<and>
     when_present (list_all (\<lambda>g. sg_field g \<noteq> [] \<and> when_present (\<lambda>x. x \<noteq> []) (sg_granularity g))) (src_groups s) \<and>
     when_present (list_all (\<lambda>(field, _). field \<noteq> [])) (src_sort s) \<and>
     when_present (\<lambda>m. when_present (\<lambda>x. x \<noteq> []) (measure_field m)) (src_measure s) \<and>
     when_present (list_all (\<lambda>x. x \<noteq> [])) (src_fields s) \<and>
     when_present (\<lambda>n. 1 \<le> n \<and> n \<le> rowResults) (src_limit s) \<and>
     when_present DashboardRefreshSchema (src_refresh s)"

datatype widget_data =
    ValueData widget_source
  | SeriesData widget_source
  | RowsData widget_source
  | ResourceViewData string
  | NoData string string

fun WidgetDataSpecSchema :: "widget_data \<Rightarrow> bool" where
  "WidgetDataSpecSchema (ValueData s) = WidgetSourceSchema s"
| "WidgetDataSpecSchema (SeriesData s) = WidgetSourceSchema s"
| "WidgetDataSpecSchema (RowsData s) = WidgetSourceSchema s"
| "WidgetDataSpecSchema (ResourceViewData preset) = (preset \<noteq> [])"
| "WidgetDataSpecSchema (NoData dashboardKey widgetId) = (dashboardKey \<noteq> [] \<and> widgetId \<noteq> [])"

record widget_visibility =
  vis_resource :: string
  vis_key :: string
  vis_value :: string

definition WidgetVisibilitySchema :: "widget_visibility \<Rightarrow> bool" where
  "WidgetVisibilitySchema v \<longleftrightarrow> vis_resource v \<noteq> [] \<and> vis_key v \<noteq> [] \<and> vis_value v \<noteq> []"

record widget_column =
  col_path :: string
  col_label :: "string option"

text \<open>One element of \<open>options.columns\<close>: a strict object with a path and an optional label.\<close>

definition parseColumn :: "jsval \<Rightarrow> widget_column option" where
  "parseColumn v =
     (case v of
        Obj es \<Rightarrow>
          (if set (keys es) \<subseteq> {''path'', ''label''}
           then (case (prop_of es ''path'', prop_of es ''label'') of
                   (Str p, Undefined) \<Rightarrow> if p \<noteq> [] then Some \<lparr>col_path = p, col_label = None\<rparr> else None
                 | (Str p, Str l) \<Rightarrow> if p \<noteq> [] \<and> l \<noteq> [] then Some \<lparr>col_path = p, col_label = Some l\<rparr> else None
                 | _ \<Rightarrow> None)
           else None)
      | _ \<Rightarrow> None)"

definition WidgetColumnsSchema :: "jsval \<Rightarrow> widget_column list option" where
  "WidgetColumnsSchema v =
     (case v of
        Arr xs \<Rightarrow>
          (let cols = map parseColumn xs
           in if xs \<noteq> [] \<and> None \<notin> set cols \<and> distinct (map (\<lambda>c. col_path (the c)) cols)
              then Some (map the cols) else None)
      | _ \<Rightarrow> None)"

text \<open>\<open>Some None\<close> is success without columns, \<open>None\<close> is failure.\<close>

definition widgetColumns :: "jsval table \<Rightarrow> widget_column list option option" where
  "widgetColumns options =
     (case prop_of options ''columns'' of
        Undefined \<Rightarrow> Some None
      | v \<Rightarrow> (case WidgetColumnsSchema v of None \<Rightarrow> None | Some cs \<Rightarrow> Some (Some cs)))"

record dashboard_rect =
  rect_id :: string
  rect_x :: int
  rect_y :: int
  rect_w :: int
  rect_h :: int

record widget_spec = dashboard_rect +
  ws_schemaVersion :: int
  ws_definitionRef :: "string option"
  ws_kind :: string
  ws_kindVersion :: int
  ws_title :: string
  ws_visibility :: "widget_visibility option"
  ws_data :: widget_data
  ws_options :: "jsval table"
  ws_isArchived :: bool

text \<open>The issues the raw check of a widget adds; the schema accepts it when there is none.\<close>

definition fullViewRoute_ok :: "widget_spec \<Rightarrow> bool" where
  "fullViewRoute_ok widget =
     (case ws_data widget of
        ResourceViewData _ \<Rightarrow> (case prop_of (ws_options widget) ''fullViewRoute'' of Str s \<Rightarrow> js_trim s \<noteq> [] | _ \<Rightarrow> False)
      | _ \<Rightarrow> True)"

definition columns_ok :: "widget_spec \<Rightarrow> bool" where
  "columns_ok widget =
     (if ws_isArchived widget \<or> \<not> obj_has (ws_options widget) ''columns'' then True
      else case ws_data widget of
        RowsData source \<Rightarrow>
          (case widgetColumns (ws_options widget) of
             None \<Rightarrow> False
           | Some declared \<Rightarrow>
               (case (src_fields source, declared) of
                  (Some fs, Some cols) \<Rightarrow> list_all (\<lambda>c. col_path c \<in> set fs) cols
                | _ \<Rightarrow> True))
      | _ \<Rightarrow> False)"

definition WidgetSpecSchema :: "widget_spec \<Rightarrow> bool" where
  "WidgetSpecSchema widget \<longleftrightarrow>
     ws_schemaVersion widget = 1 \<and> rect_id widget \<noteq> [] \<and>
     when_present (\<lambda>x. x \<noteq> []) (ws_definitionRef widget) \<and> ws_kind widget \<noteq> [] \<and> 1 \<le> ws_kindVersion widget \<and>
     when_present WidgetVisibilitySchema (ws_visibility widget) \<and> WidgetDataSpecSchema (ws_data widget) \<and>
     0 \<le> rect_x widget \<and> 0 \<le> rect_y widget \<and> 1 \<le> rect_w widget \<and>
     1 \<le> rect_h widget \<and> rect_h widget \<le> widgetHeight \<and>
     fullViewRoute_ok widget \<and> columns_ok widget"

record dashboard_snapshot =
  snap_schemaVersion :: int
  snap_columns :: int
  snap_widgets :: "widget_spec list"

definition DashboardSnapshotSchema :: "dashboard_snapshot \<Rightarrow> bool" where
  "DashboardSnapshotSchema s \<longleftrightarrow>
     snap_schemaVersion s = 1 \<and> 1 \<le> snap_columns s \<and> columns_min \<le> snap_columns s \<and> snap_columns s \<le> columns_max \<and>
     length (snap_widgets s) \<le> widgets_max \<and> list_all WidgetSpecSchema (snap_widgets s)"

section \<open>Layout\<close>

definition packingCompare :: "host \<Rightarrow> 'a dashboard_rect_scheme \<Rightarrow> 'a dashboard_rect_scheme \<Rightarrow> int" where
  "packingCompare h left right =
     (if rect_y left - rect_y right \<noteq> 0 then rect_y left - rect_y right
      else if rect_x left - rect_x right \<noteq> 0 then rect_x left - rect_x right
      else localeCompare h (rect_id left) (rect_id right))"

definition packingOrder :: "host \<Rightarrow> 'a dashboard_rect_scheme list \<Rightarrow> 'a dashboard_rect_scheme list" where
  "packingOrder h rects = js_sort (packingCompare h) rects"

definition overlaps :: "'a dashboard_rect_scheme \<Rightarrow> 'b dashboard_rect_scheme \<Rightarrow> bool" where
  "overlaps left right \<longleftrightarrow>
     rect_x left < rect_x right + rect_w right \<and> rect_x right < rect_x left + rect_w left \<and>
     rect_y left < rect_y right + rect_h right \<and> rect_y right < rect_y left + rect_h left"

definition dashboardRectFits :: "'a dashboard_rect_scheme \<Rightarrow> 'b dashboard_rect_scheme list \<Rightarrow> int \<Rightarrow> bool" where
  "dashboardRectFits rect placed columns \<longleftrightarrow>
     0 \<le> rect_x rect \<and> 0 \<le> rect_y rect \<and> rect_x rect + rect_w rect \<le> columns \<and>
     \<not> list_ex (\<lambda>other. rect_id other \<noteq> rect_id rect \<and> overlaps rect other) placed"

definition probe :: "int \<Rightarrow> int \<Rightarrow> int \<Rightarrow> int \<Rightarrow> dashboard_rect" where
  "probe x y w hgt = \<lparr>rect_id = ''__probe__'', rect_x = x, rect_y = y, rect_w = w, rect_h = hgt\<rparr>"

definition layout_bottom :: "'a dashboard_rect_scheme list \<Rightarrow> int" where
  "layout_bottom rects = foldl (\<lambda>m rect. max m (rect_y rect + rect_h rect)) 0 rects"

text \<open>The two loops visit the slots row by row; the first that fits is returned.\<close>

definition slots :: "int \<Rightarrow> int \<Rightarrow> (int \<times> int) list" where
  "slots bottom last_x = concat (map (\<lambda>y. map (\<lambda>x. (x, y)) [0..last_x]) [0..bottom])"

definition firstDashboardSlot :: "'a dashboard_rect_scheme list \<Rightarrow> int \<Rightarrow> int \<Rightarrow> int \<Rightarrow> int \<times> int" where
  "firstDashboardSlot rects size_w size_h columns =
     (let w = max 1 (min size_w columns); hgt = max 1 size_h; bottom = layout_bottom rects
      in case find (\<lambda>(x, y). dashboardRectFits (probe x y w hgt) rects columns) (slots bottom (columns - w)) of
           Some slot \<Rightarrow> slot
         | None \<Rightarrow> (0, bottom))"

definition place :: "int \<Rightarrow> 'a dashboard_rect_scheme list \<Rightarrow> 'a dashboard_rect_scheme \<Rightarrow> 'a dashboard_rect_scheme" where
  "place columns placed rect =
     (let w = max 1 (min (rect_w rect) columns); slot = firstDashboardSlot placed w (rect_h rect) columns
      in rect\<lparr>rect_x := fst slot, rect_y := snd slot, rect_w := w\<rparr>)"

definition pack_step ::
  "int \<Rightarrow> 'a dashboard_rect_scheme list \<times> (string \<rightharpoonup> 'a dashboard_rect_scheme) \<Rightarrow> 'a dashboard_rect_scheme \<Rightarrow>
   'a dashboard_rect_scheme list \<times> (string \<rightharpoonup> 'a dashboard_rect_scheme)" where
  "pack_step columns acc rect =
     (let next = place columns (fst acc) rect in (fst acc @ [next], (snd acc)(rect_id rect \<mapsto> next)))"

text \<open>The packed rectangle has every field of the original, so spreading it over the original is the packed one.\<close>

definition packDashboardLayout :: "host \<Rightarrow> 'a dashboard_rect_scheme list \<Rightarrow> int \<Rightarrow> 'a dashboard_rect_scheme list" where
  "packDashboardLayout h rects columns =
     (let packed = snd (foldl (pack_step columns) ([], Map.empty) (packingOrder h rects))
      in map (\<lambda>rect. case packed (rect_id rect) of Some r \<Rightarrow> r | None \<Rightarrow> rect) rects)"

definition moveDashboardRect ::
  "host \<Rightarrow> 'a dashboard_rect_scheme list \<Rightarrow> string \<Rightarrow> int \<times> int \<Rightarrow> int \<Rightarrow> 'a dashboard_rect_scheme list" where
  "moveDashboardRect h rects i to columns =
     (case find (\<lambda>rect. rect_id rect = i) rects of
        None \<Rightarrow> rects
      | Some moved \<Rightarrow>
          (let w = max 1 (min (rect_w moved) columns);
               target = moved\<lparr>rect_w := w, rect_x := max 0 (min (fst to) (columns - w)), rect_y := max 0 (snd to)\<rparr>
           in packDashboardLayout h
                (map (\<lambda>rect. if rect_id rect = i then target
                             else if overlaps rect target then rect\<lparr>rect_y := rect_y target + rect_h target\<rparr>
                             else rect) rects) columns))"

definition resizeDashboardRect ::
  "host \<Rightarrow> 'a dashboard_rect_scheme list \<Rightarrow> string \<Rightarrow> int \<times> int \<Rightarrow> int \<Rightarrow> 'a dashboard_rect_scheme list" where
  "resizeDashboardRect h rects i dims columns =
     packDashboardLayout h
       (map (\<lambda>rect. if rect_id rect = i
                    then rect\<lparr>rect_w := max 1 (min (fst dims) (columns - rect_x rect)),
                              rect_h := max 1 (min (snd dims) widgetHeight)\<rparr>
                    else rect) rects) columns"

text \<open>\<open>Math.round\<close> rounds halves up. The scale is exact here; the code divides in floating point.\<close>

definition js_round :: "rat \<Rightarrow> int" where
  "js_round r = floor (r + 1 / 2)"

definition projectDashboardLayout :: "host \<Rightarrow> widget_spec list \<Rightarrow> int \<Rightarrow> int \<Rightarrow> widget_spec list" where
  "projectDashboardLayout h widgets columns sourceColumns =
     (let scale = of_int columns / of_int (max 1 sourceColumns) :: rat
      in packDashboardLayout h
           (map (\<lambda>widget. widget\<lparr>rect_w := max 1 (min (js_round (of_int (rect_w widget) * scale)) columns),
                                  rect_x := max 0 (min (floor (of_int (rect_x widget) * scale)) (columns - 1))\<rparr>)
                (filter (\<lambda>widget. \<not> ws_isArchived widget) widgets)) columns)"

text \<open>\<open>validateDashboardLayout\<close>: the checks of one widget against the ids seen before it, and of one pair.\<close>

definition check_widget :: "int \<Rightarrow> string set \<Rightarrow> widget_spec \<Rightarrow> unit result" where
  "check_widget columns ids widget =
     (if rect_id widget \<in> ids then Inl (JsError (''Duplicate dashboard widget id \"'' @ rect_id widget @ ''\".''))
      else if rect_x widget + rect_w widget > columns
        then Inl (JsError (''Widget \"'' @ rect_id widget @ ''\" extends beyond the dashboard columns.''))
      else if rect_y widget + rect_h widget > layoutRows
        then Inl (JsError (''Widget \"'' @ rect_id widget @ ''\" extends beyond the dashboard row limit.''))
      else Inr ())"

fun check_widgets :: "int \<Rightarrow> string set \<Rightarrow> widget_spec list \<Rightarrow> unit result" where
  "check_widgets columns ids [] = Inr ()"
| "check_widgets columns ids (widget # ws) =
     rbind (check_widget columns ids widget) (\<lambda>_. check_widgets columns (insert (rect_id widget) ids) ws)"

fun check_overlaps :: "widget_spec list \<Rightarrow> unit result" where
  "check_overlaps [] = Inr ()"
| "check_overlaps (left # rest) =
     (case find (overlaps left) rest of
        Some right \<Rightarrow> Inl (JsError (''Dashboard widgets \"'' @ rect_id left @ ''\" and \"'' @ rect_id right @ ''\" overlap.''))
      | None \<Rightarrow> check_overlaps rest)"

definition validateDashboardLayout :: "dashboard_snapshot \<Rightarrow> unit result" where
  "validateDashboardLayout snapshot =
     rbind (check_widgets (snap_columns snapshot) {} (snap_widgets snapshot))
       (\<lambda>_. check_overlaps (filter (\<lambda>widget. \<not> ws_isArchived widget) (snap_widgets snapshot)))"

section \<open>The first free slot\<close>

lemma overlaps_sym: "overlaps a b \<longleftrightarrow> overlaps b a"
  by (auto simp: overlaps_def)

lemma layout_bottom_ge: "0 \<le> layout_bottom rects" "r \<in> set rects \<Longrightarrow> rect_y r + rect_h r \<le> layout_bottom rects"
proof -
  have f: "m \<le> foldl (\<lambda>m rect. max m (rect_y rect + rect_h rect)) m rs \<and>
      (\<forall>r \<in> set rs. rect_y r + rect_h r \<le> foldl (\<lambda>m rect. max m (rect_y rect + rect_h rect)) m rs)"
    for m :: int and rs :: "'a dashboard_rect_scheme list"
    by (induction rs arbitrary: m) (force, smt (verit) foldl_Cons set_ConsD)
  show "0 \<le> layout_bottom rects" using f[of 0 rects] by (simp add: layout_bottom_def)
  show "rect_y r + rect_h r \<le> layout_bottom rects" if "r \<in> set rects"
    using f[where m = 0 and rs = rects] that by (simp add: layout_bottom_def)
qed

lemma set_slots: "(x, y) \<in> set (slots bottom last_x) \<longleftrightarrow> 0 \<le> x \<and> x \<le> last_x \<and> 0 \<le> y \<and> y \<le> bottom"
  by (auto simp: slots_def image_iff)

lemma find_first: "find P xs = Some x \<Longrightarrow> P x \<and> x \<in> set xs"
  by (auto simp: find_Some_iff)

lemma find_exists: "x \<in> set xs \<Longrightarrow> P x \<Longrightarrow> \<exists>y. find P xs = Some y"
  using find_None_iff[of P xs] by (cases "find P xs") auto

text \<open>The row below everything placed is always free, so the search never falls through.\<close>

lemma bottom_slot_fits:
  assumes "1 \<le> w" "w \<le> columns"
  shows "dashboardRectFits (probe 0 (layout_bottom rects) w hgt) rects columns"
  using assms layout_bottom_ge(1)[of rects] layout_bottom_ge(2)[of _ rects]
  by (fastforce simp: dashboardRectFits_def probe_def overlaps_def list_ex_iff)

lemma firstDashboardSlot_found:
  assumes "1 \<le> columns"
  shows "find (\<lambda>(x, y). dashboardRectFits (probe x y (max 1 (min size_w columns)) (max 1 size_h)) rects columns)
           (slots (layout_bottom rects) (columns - max 1 (min size_w columns)))
         = Some (firstDashboardSlot rects size_w size_h columns)"
proof -
  let ?w = "max 1 (min size_w columns)"
  have "(0, layout_bottom rects) \<in> set (slots (layout_bottom rects) (columns - ?w))"
    using assms layout_bottom_ge(1) by (auto simp: set_slots)
  moreover have "case (0, layout_bottom rects) of (x, y) \<Rightarrow> dashboardRectFits (probe x y ?w (max 1 size_h)) rects columns"
    unfolding prod.case using assms by (intro bottom_slot_fits) simp_all
  ultimately obtain slot where "find (\<lambda>(x, y). dashboardRectFits (probe x y ?w (max 1 size_h)) rects columns)
      (slots (layout_bottom rects) (columns - ?w)) = Some slot"
    using find_exists by metis
  then show ?thesis by (simp only: firstDashboardSlot_def Let_def option.case)
qed

lemma firstDashboardSlot_fits:
  assumes "1 \<le> columns" "firstDashboardSlot rects size_w size_h columns = (x, y)"
  shows "dashboardRectFits (probe x y (max 1 (min size_w columns)) (max 1 size_h)) rects columns"
    and "0 \<le> x" "0 \<le> y" "y \<le> layout_bottom rects"
  using find_first[OF firstDashboardSlot_found[OF assms(1), of size_w size_h rects]] assms(2)
  by (simp_all add: set_slots)

text \<open>Slots before \<open>(x, y)\<close> in the order of the loops.\<close>

definition slot_before :: "int \<times> int \<Rightarrow> int \<times> int \<Rightarrow> bool" where
  "slot_before a b \<longleftrightarrow> snd a < snd b \<or> snd a = snd b \<and> fst a < fst b"

lemma sorted_wrt_slots: "sorted_wrt slot_before (slots bottom last_x)"
proof -
  have rows: "sorted_wrt slot_before (concat (map (\<lambda>y. map (\<lambda>x. (x, y)) [0..last_x]) ys))" if "sorted_wrt (<) ys" for ys
    using that
  proof (induction ys)
    case (Cons y ys)
    have "sorted_wrt slot_before (map (\<lambda>x. (x, y)) [0..last_x])"
      by (simp add: sorted_wrt_map slot_before_def)
    moreover have "slot_before a b" if "a \<in> set (map (\<lambda>x. (x, y)) [0..last_x])"
      "b \<in> set (concat (map (\<lambda>y. map (\<lambda>x. (x, y)) [0..last_x]) ys))" for a b
      using that Cons.prems by (auto simp: slot_before_def)
    ultimately show ?case using Cons by (auto simp only: sorted_wrt_append concat.simps list.map sorted_wrt.simps)
  qed simp
  show ?thesis unfolding slots_def by (rule rows) simp
qed

lemma find_sorted_first:
  assumes "sorted_wrt R xs" "find P xs = Some x" "y \<in> set xs" "P y"
  shows "x = y \<or> R x y"
proof -
  obtain i where i: "i < length xs" "P (xs ! i)" "x = xs ! i" "\<forall>j < i. \<not> P (xs ! j)"
    using assms(2) by (auto simp: find_Some_iff)
  obtain j where j: "j < length xs" "y = xs ! j" using assms(3) by (auto simp: in_set_conv_nth)
  then have "i \<le> j" using i(4) assms(4) not_le by blast
  then show ?thesis using assms(1) i j by (cases "i = j") (auto simp: sorted_wrt_iff_nth_less)
qed

text \<open>
  The search for a slot returns one where the widget fits, and no slot before it, row by row
  and left to right, has room for the widget.
\<close>

theorem firstDashboardSlot_first:
  assumes "1 \<le> columns" "firstDashboardSlot rects size_w size_h columns = (x, y)"
  shows "dashboardRectFits (probe x y (max 1 (min size_w columns)) (max 1 size_h)) rects columns \<and>
         (\<forall>x' y'. dashboardRectFits (probe x' y' (max 1 (min size_w columns)) (max 1 size_h)) rects columns \<longrightarrow>
            (x', y') = (x, y) \<or> slot_before (x, y) (x', y'))"
proof (intro conjI allI impI)
  let ?w = "max 1 (min size_w columns)"
  show "dashboardRectFits (probe x y ?w (max 1 size_h)) rects columns"
    by (rule firstDashboardSlot_fits[OF assms])
  fix x' y' assume fits: "dashboardRectFits (probe x' y' ?w (max 1 size_h)) rects columns"
  show "(x', y') = (x, y) \<or> slot_before (x, y) (x', y')"
  proof (cases "y' \<le> layout_bottom rects")
    case True
    then have "(x', y') \<in> set (slots (layout_bottom rects) (columns - ?w))"
      using fits by (auto simp: set_slots dashboardRectFits_def probe_def)
    from find_sorted_first[OF sorted_wrt_slots firstDashboardSlot_found[OF assms(1), of size_w size_h rects] this] fits
    show ?thesis using assms(2) by auto
  next
    case False
    then show ?thesis using firstDashboardSlot_fits(4)[OF assms] by (simp add: slot_before_def)
  qed
qed

theorem firstDashboardSlot_first_witness:
  "dashboardRectFits (probe 1 0 1 1) [\<lparr>rect_id = ''a'', rect_x = 0, rect_y = 0, rect_w = 1, rect_h = 1\<rparr>] 2"
  using firstDashboardSlot_first[of 2 "[\<lparr>rect_id = ''a'', rect_x = 0, rect_y = 0, rect_w = 1, rect_h = 1\<rparr>]" 1 1 1 0]
  by (simp add: firstDashboardSlot_def slots_def layout_bottom_def dashboardRectFits_def probe_def overlaps_def)


section \<open>Packing\<close>

text \<open>
  What packing makes of one widget: only its place and its clipped width change, and it lies
  within the columns.
\<close>

definition packed_as :: "int \<Rightarrow> 'a dashboard_rect_scheme \<Rightarrow> 'a dashboard_rect_scheme \<Rightarrow> bool" where
  "packed_as columns s r \<longleftrightarrow>
     0 \<le> rect_x r \<and> 0 \<le> rect_y r \<and> rect_w r = max 1 (min (rect_w s) columns) \<and> rect_x r + rect_w r \<le> columns \<and>
     r = s\<lparr>rect_x := rect_x r, rect_y := rect_y r, rect_w := rect_w r\<rparr>"

definition layout_free :: "'a dashboard_rect_scheme set \<Rightarrow> bool" where
  "layout_free rs \<longleftrightarrow> (\<forall>a \<in> rs. \<forall>b \<in> rs. rect_id a \<noteq> rect_id b \<longrightarrow> \<not> overlaps a b)"

definition layout_ids :: "'a dashboard_rect_scheme list \<Rightarrow> bool" where
  "layout_ids rects \<longleftrightarrow> distinct (map rect_id rects) \<and> ''__probe__'' \<notin> set (map rect_id rects)"

lemma packed_as_id: "packed_as columns s r \<Longrightarrow> rect_id r = rect_id s"
  unfolding packed_as_def by (metis dashboard_rect.select_convs(1) dashboard_rect.surjective dashboard_rect.update_convs)

lemma packed_as_ids: "list_all2 (packed_as columns) ss rs \<Longrightarrow> map rect_id rs = map rect_id ss"
  by (induction ss rs rule: list_all2_induct) (simp_all add: packed_as_id)

lemma packed_as_h: "packed_as columns s r \<Longrightarrow> rect_h r = rect_h s"
  unfolding packed_as_def by (metis dashboard_rect.select_convs(5) dashboard_rect.surjective dashboard_rect.update_convs)

lemma place_packed:
  assumes "1 \<le> columns"
  shows "packed_as columns rect (place columns placed rect)"
    and "r \<in> set placed \<Longrightarrow> rect_id r \<noteq> ''__probe__'' \<Longrightarrow> \<not> overlaps (place columns placed rect) r"
proof -
  let ?w = "max 1 (min (rect_w rect) columns)"
  obtain x y where slot: "firstDashboardSlot placed ?w (rect_h rect) columns = (x, y)" by fastforce
  have clip: "max 1 (min ?w columns) = ?w" using assms by auto
  note fits = firstDashboardSlot_fits[OF assms slot, unfolded clip]
  have p: "place columns placed rect = rect\<lparr>rect_x := x, rect_y := y, rect_w := ?w\<rparr>"
    by (simp add: place_def slot)
  show "packed_as columns rect (place columns placed rect)"
    using fits by (auto simp: p packed_as_def dashboardRectFits_def probe_def)
  show "\<not> overlaps (place columns placed rect) r" if "r \<in> set placed" "rect_id r \<noteq> ''__probe__''"
    using fits(1) that by (auto simp: p dashboardRectFits_def probe_def overlaps_def list_ex_iff)
qed

lemma foldl_pack:
  assumes "1 \<le> columns" "layout_ids (before @ rects)" "list_all2 (packed_as columns) before placed"
    and "layout_free (set placed)" "\<forall>r \<in> set placed. packed (rect_id r) = Some r"
  shows "\<exists>placed' packed'. foldl (pack_step columns) (placed, packed) rects = (placed', packed') \<and>
           list_all2 (packed_as columns) (before @ rects) placed' \<and> layout_free (set placed') \<and>
           (\<forall>r \<in> set placed'. packed' (rect_id r) = Some r)"
  using assms(2-)
proof (induction rects arbitrary: before placed packed)
  case (Cons rect rects)
  let ?next = "place columns placed rect"
  have next': "packed_as columns rect ?next" by (rule place_packed(1)[OF assms(1)])
  have ids: "map rect_id placed = map rect_id before"
    using Cons.prems(2) by (rule packed_as_ids)
  have fresh: "rect_id rect \<notin> set (map rect_id placed)" "''__probe__'' \<notin> set (map rect_id placed)"
    unfolding ids using Cons.prems(1) by (auto simp: layout_ids_def)
  have free: "\<not> overlaps ?next r" if "r \<in> set placed" for r
    by (rule place_packed(2)[OF assms(1) that]) (metis fresh(2) that image_eqI set_map)
  have "layout_free (set (placed @ [?next]))"
    using Cons.prems(3) free overlaps_sym unfolding layout_free_def by (auto; blast)
  moreover have "\<forall>r \<in> set (placed @ [?next]). (packed(rect_id rect \<mapsto> ?next)) (rect_id r) = Some r"
    using Cons.prems(4) fresh(1) packed_as_id[OF next'] by (auto simp: image_iff)
  moreover have "list_all2 (packed_as columns) (before @ [rect]) (placed @ [?next])"
    using Cons.prems(2) next' by (simp add: list_all2_appendI)
  moreover have "layout_ids ((before @ [rect]) @ rects)" using Cons.prems(1) by simp
  moreover have "foldl (pack_step columns) (placed, packed) (rect # rects)
      = foldl (pack_step columns) (placed @ [?next], packed(rect_id rect \<mapsto> ?next)) rects"
    by (simp add: pack_step_def Let_def)
  ultimately show ?case using Cons.IH[of "before @ [rect]" "placed @ [?next]" "packed(rect_id rect \<mapsto> ?next)"]
    by (simp only: append.assoc append.simps)
qed auto

lemma layout_ids_order: "layout_ids (packingOrder h rects) \<longleftrightarrow> layout_ids rects"
  by (simp add: layout_ids_def packingOrder_def)

lemma pack_layout:
  assumes "1 \<le> columns" "layout_ids rects"
  shows "list_all2 (packed_as columns) rects (packDashboardLayout h rects columns)"
    and "layout_free (set (packDashboardLayout h rects columns))"
proof -
  have "layout_ids ([] @ packingOrder h rects)" using assms(2) by (simp add: layout_ids_order)
  from foldl_pack[OF assms(1) this, of "[]" Map.empty]
  obtain placed packed where fold: "foldl (pack_step columns) ([], Map.empty) (packingOrder h rects) = (placed, packed)"
    and each: "list_all2 (packed_as columns) (packingOrder h rects) placed"
    and free: "layout_free (set placed)" and map: "\<forall>r \<in> set placed. packed (rect_id r) = Some r"
    by (auto simp: layout_free_def)
  have found: "\<exists>r. packed (rect_id rect) = Some r \<and> r \<in> set placed \<and> packed_as columns rect r" if "rect \<in> set rects" for rect
  proof -
    have "rect \<in> set (packingOrder h rects)" using that by (simp add: packingOrder_def)
    then obtain r where r: "r \<in> set placed" "packed_as columns rect r"
      using each by (auto simp: list_all2_conv_all_nth in_set_conv_nth) (metis nth_mem)
    with map packed_as_id show ?thesis by metis
  qed
  have pack: "packDashboardLayout h rects columns = map (\<lambda>rect. the (packed (rect_id rect))) rects"
    using found by (fastforce simp: packDashboardLayout_def fold)
  show "list_all2 (packed_as columns) rects (packDashboardLayout h rects columns)"
    using found by (force simp: pack list_all2_map2 intro!: list_all2_same[THEN iffD2])
  have "set (packDashboardLayout h rects columns) \<subseteq> set placed" using found by (force simp: pack)
  with free show "layout_free (set (packDashboardLayout h rects columns))" unfolding layout_free_def by blast
qed

lemma pack_ids: "1 \<le> columns \<Longrightarrow> layout_ids rects \<Longrightarrow> map rect_id (packDashboardLayout h rects columns) = map rect_id rects"
  by (rule packed_as_ids[OF pack_layout(1)])


text \<open>
  C8: packing keeps the widgets, their order and every field but the place and the clipped
  width, puts each within the columns, and leaves no two widgets overlapping.
\<close>

theorem packDashboardLayout_ok:
  assumes "1 \<le> columns" "layout_ids rects"
  shows "list_all2 (packed_as columns) rects (packDashboardLayout h rects columns) \<and>
         layout_free (set (packDashboardLayout h rects columns))"
  using pack_layout[OF assms] by blast

definition sample_layout :: "dashboard_rect list" where
  "sample_layout = [\<lparr>rect_id = ''a'', rect_x = 0, rect_y = 0, rect_w = 2, rect_h = 1\<rparr>,
                    \<lparr>rect_id = ''b'', rect_x = 1, rect_y = 0, rect_w = 5, rect_h = 2\<rparr>]"

lemma sample_layout_ids: "layout_ids sample_layout"
  by (simp add: layout_ids_def sample_layout_def)

theorem packDashboardLayout_ok_witness: "layout_free (set (packDashboardLayout root_host sample_layout 4))"
  using packDashboardLayout_ok[of 4 sample_layout root_host] sample_layout_ids by simp

lemma layout_ids_map: "(\<And>r. rect_id (f r) = rect_id r) \<Longrightarrow> layout_ids (map f rects) = layout_ids rects"
  by (simp add: layout_ids_def comp_def)

definition resized :: "'a dashboard_rect_scheme list \<Rightarrow> string \<Rightarrow> int \<times> int \<Rightarrow> int \<Rightarrow> 'a dashboard_rect_scheme list" where
  "resized rects i dims columns = map (\<lambda>rect. if rect_id rect = i
      then rect\<lparr>rect_w := max 1 (min (fst dims) (columns - rect_x rect)), rect_h := max 1 (min (snd dims) widgetHeight)\<rparr>
      else rect) rects"

lemma resize_packs: "resizeDashboardRect h rects i dims columns = packDashboardLayout h (resized rects i dims columns) columns"
  by (simp add: resizeDashboardRect_def resized_def)

lemma resized_ids [simp]: "map rect_id (resized rects i dims columns) = map rect_id rects"
  by (simp add: resized_def comp_def)

lemma resized_height: "s \<in> set (resized rects i dims columns) \<Longrightarrow> rect_id s = i \<Longrightarrow> 1 \<le> rect_h s \<and> rect_h s \<le> widgetHeight"
  unfolding resized_def set_map by (elim imageE) (simp add: widgetHeight_def split: if_splits)

lemma pack_member:
  assumes "1 \<le> columns" "layout_ids rects" "r \<in> set (packDashboardLayout h rects columns)"
  shows "\<exists>s \<in> set rects. packed_as columns s r"
proof -
  have all: "list_all2 (packed_as columns) rects (packDashboardLayout h rects columns)"
    using pack_layout(1)[OF assms(1,2)] .
  obtain k where k: "k < length (packDashboardLayout h rects columns)" "r = packDashboardLayout h rects columns ! k"
    using assms(3) by (auto simp: in_set_conv_nth)
  then show ?thesis using list_all2_nthD2[OF all k(1)] list_all2_lengthD[OF all] by (metis nth_mem)
qed

lemma resize_height:
  assumes "1 \<le> columns" "layout_ids rects" "r \<in> set (resizeDashboardRect h rects i dims columns)" "rect_id r = i"
  shows "1 \<le> rect_h r \<and> rect_h r \<le> widgetHeight"
proof -
  have "layout_ids (resized rects i dims columns)" using assms(2) by (simp add: layout_ids_def)
  from pack_member[OF assms(1) this assms(3)[unfolded resize_packs]]
  obtain s where s: "s \<in> set (resized rects i dims columns)" "packed_as columns s r" by blast
  then have "rect_id s = i" using packed_as_id assms(4) by metis
  then show ?thesis using resized_height[OF s(1)] packed_as_h[OF s(2)] by simp
qed

lemma move_layout:
  assumes "1 \<le> columns" "layout_ids rects" "i \<in> rect_id ` set rects"
  shows "map rect_id (moveDashboardRect h rects i to columns) = map rect_id rects \<and> layout_free (set (moveDashboardRect h rects i to columns))"
proof -
  obtain m where m: "find (\<lambda>rect. rect_id rect = i) rects = Some m" "rect_id m = i"
  proof (cases "find (\<lambda>rect. rect_id rect = i) rects")
    case None
    then show thesis using assms(3) by (auto simp: find_None_iff)
  next
    case (Some m)
    then show thesis using that find_first[of "\<lambda>rect. rect_id rect = i" rects m] by simp
  qed
  define target where "target = m\<lparr>rect_w := max 1 (min (rect_w m) columns),
    rect_x := max 0 (min (fst to) (columns - max 1 (min (rect_w m) columns))), rect_y := max 0 (snd to)\<rparr>"
  define moved where "moved = map (\<lambda>rect. if rect_id rect = i then target
      else if overlaps rect target then rect\<lparr>rect_y := rect_y target + rect_h target\<rparr> else rect) rects"
  have ids: "map rect_id moved = map rect_id rects" using m(2) by (auto simp: moved_def target_def)
  then have moved_ids: "layout_ids moved" using assms(2) by (simp add: layout_ids_def)
  have "moveDashboardRect h rects i to columns = packDashboardLayout h moved columns"
    unfolding moveDashboardRect_def m(1) option.case Let_def moved_def target_def ..
  then show ?thesis using pack_layout(2)[OF assms(1) moved_ids, of h] pack_ids[OF assms(1) moved_ids, of h] ids by simp
qed

lemma move_unknown: "i \<notin> rect_id ` set rects \<Longrightarrow> moveDashboardRect h rects i to columns = rects"
proof -
  assume "i \<notin> rect_id ` set rects"
  then have "find (\<lambda>rect. rect_id rect = i) rects = None" by (auto simp: find_None_iff)
  then show ?thesis by (simp add: moveDashboardRect_def)
qed

text \<open>
  C9: moving or resizing a widget keeps the set of widgets and their order, and the result is
  again a layout within the columns without overlaps; moving an unknown widget changes nothing,
  and a resized widget has a height from 1 to the limit.
\<close>

theorem move_resize_ok:
  assumes "1 \<le> columns" "layout_ids rects"
  shows "map rect_id (moveDashboardRect h rects i to columns) = map rect_id rects \<and>
         (i \<in> rect_id ` set rects \<longrightarrow> layout_free (set (moveDashboardRect h rects i to columns))) \<and>
         (i \<notin> rect_id ` set rects \<longrightarrow> moveDashboardRect h rects i to columns = rects) \<and>
         map rect_id (resizeDashboardRect h rects i dims columns) = map rect_id rects \<and>
         layout_free (set (resizeDashboardRect h rects i dims columns)) \<and>
         (\<forall>r \<in> set (resizeDashboardRect h rects i dims columns). rect_id r = i \<longrightarrow> 1 \<le> rect_h r \<and> rect_h r \<le> widgetHeight)"
proof -
  have ids: "layout_ids (resized rects i dims columns)" using assms(2) by (simp add: layout_ids_def)
  have "map rect_id (resizeDashboardRect h rects i dims columns) = map rect_id rects" "layout_free (set (resizeDashboardRect h rects i dims columns))"
    unfolding resize_packs using pack_ids[OF assms(1) ids, of h] pack_layout(2)[OF assms(1) ids, of h] by simp_all
  moreover have "map rect_id (moveDashboardRect h rects i to columns) = map rect_id rects"
  proof (cases "i \<in> rect_id ` set rects")
    case True
    then show ?thesis using move_layout[OF assms, of i h to] by blast
  next
    case False
    then show ?thesis using move_unknown[OF False, of h to columns] by simp
  qed
  ultimately show ?thesis
    using move_layout[OF assms, of i h to] move_unknown[of i rects h to columns] resize_height[OF assms, of _ h i dims] by simp
qed

theorem move_resize_ok_witness:
  "layout_free (set (moveDashboardRect root_host sample_layout ''b'' (0, 0) 4)) \<and>
   moveDashboardRect root_host sample_layout ''zz'' (0, 0) 4 = sample_layout"
  using move_resize_ok[of 4 sample_layout root_host "''b''" "(0, 0)" "(0, 0)"]
    move_resize_ok[of 4 sample_layout root_host "''zz''" "(0, 0)" "(0, 0)"] sample_layout_ids
  by (simp add: sample_layout_def)


section \<open>Validation\<close>

lemma check_widgets_ok:
  "check_widgets columns ids ws = Inr () \<longleftrightarrow>
     distinct (map rect_id ws) \<and> set (map rect_id ws) \<inter> ids = {} \<and>
     (\<forall>w \<in> set ws. rect_x w + rect_w w \<le> columns \<and> rect_y w + rect_h w \<le> layoutRows)"
  by (induction ws arbitrary: ids) (auto simp: check_widget_def rbind_Inr_iff split: if_splits)

lemma check_overlaps_ok: "check_overlaps ws = Inr () \<longleftrightarrow> sorted_wrt (\<lambda>a b. \<not> overlaps a b) ws"
  by (induction ws) (auto simp: find_None_iff split: option.splits dest: find_first)

lemma validate_ok:
  "validateDashboardLayout s = Inr () \<longleftrightarrow>
     distinct (map rect_id (snap_widgets s)) \<and>
     (\<forall>w \<in> set (snap_widgets s). rect_x w + rect_w w \<le> snap_columns s \<and> rect_y w + rect_h w \<le> layoutRows) \<and>
     sorted_wrt (\<lambda>a b. \<not> overlaps a b) (filter (\<lambda>w. \<not> ws_isArchived w) (snap_widgets s))"
  by (auto simp: validateDashboardLayout_def rbind_Inr_iff check_widgets_ok check_overlaps_ok)

lemma layout_free_sorted:
  "layout_free (set ws) \<Longrightarrow> distinct (map rect_id ws) \<Longrightarrow> sorted_wrt (\<lambda>a b. \<not> overlaps a b) ws"
proof (induction ws)
  case (Cons w ws)
  then have "\<not> overlaps w b" if "b \<in> set ws" for b
    using that by (auto simp: layout_free_def image_iff)
  with Cons show ?case by (auto simp: layout_free_def)
qed simp

lemma sorted_wrt_filter_free: "sorted_wrt P ws \<Longrightarrow> sorted_wrt P (filter Q ws)"
  by (induction ws) auto

text \<open>
  C10: a stored snapshot passes validation exactly when its widget ids are distinct, every widget
  lies within the columns and the row limit, and no two active widgets overlap.
\<close>

theorem validateDashboardLayout_iff:
  "validateDashboardLayout s = Inr () \<longleftrightarrow>
     distinct (map rect_id (snap_widgets s)) \<and>
     (\<forall>w \<in> set (snap_widgets s). rect_x w + rect_w w \<le> snap_columns s \<and> rect_y w + rect_h w \<le> layoutRows) \<and>
     layout_free {w \<in> set (snap_widgets s). \<not> ws_isArchived w}"
proof -
  have "sorted_wrt (\<lambda>a b. \<not> overlaps a b) ws \<longleftrightarrow> layout_free (set ws)" if "distinct (map rect_id ws)" for ws :: "widget_spec list"
  proof
    show "layout_free (set ws) \<Longrightarrow> sorted_wrt (\<lambda>a b. \<not> overlaps a b) ws" using that by (intro layout_free_sorted)
    show "sorted_wrt (\<lambda>a b. \<not> overlaps a b) ws \<Longrightarrow> layout_free (set ws)"
    proof (induction ws)
      case (Cons w ws)
      then show ?case using overlaps_sym[of w] unfolding layout_free_def by (auto; blast)
    qed (simp add: layout_free_def)
  qed
  from this[of "filter (\<lambda>w. \<not> ws_isArchived w) (snap_widgets s)"] show ?thesis
    unfolding validate_ok by (auto simp: distinct_map_filter)
qed

theorem validateDashboardLayout_iff_witness:
  "validateDashboardLayout \<lparr>snap_schemaVersion = 1, snap_columns = 12, snap_widgets = []\<rparr> = Inr ()"
  using validateDashboardLayout_iff[of "\<lparr>snap_schemaVersion = 1, snap_columns = 12, snap_widgets = []\<rparr>"]
  by (simp add: layout_free_def)

text \<open>
  C11: the layout of a snapshot whose widgets were packed passes validation, unless a widget ends
  below the row limit.
\<close>

theorem packed_snapshot_valid:
  assumes "1 \<le> columns" "layout_ids widgets"
    and "\<forall>w \<in> set (packDashboardLayout h widgets columns). rect_y w + rect_h w \<le> layoutRows"
  shows "validateDashboardLayout \<lparr>snap_schemaVersion = 1, snap_columns = columns,
           snap_widgets = packDashboardLayout h widgets columns\<rparr> = Inr ()"
proof -
  let ?p = "packDashboardLayout h widgets columns"
  have ids: "distinct (map rect_id ?p)" using pack_ids[OF assms(1,2)] assms(2) by (simp add: layout_ids_def)
  have "rect_x r + rect_w r \<le> columns" if "r \<in> set ?p" for r
    using pack_layout(1)[OF assms(1,2), of h] that
    by (auto simp: list_all2_conv_all_nth in_set_conv_nth packed_as_def)
  then show ?thesis
    using ids assms(3) pack_layout(2)[OF assms(1,2), of h]
    by (auto simp: validate_ok intro!: sorted_wrt_filter_free layout_free_sorted)
qed

definition sample_widget :: widget_spec where
  "sample_widget = \<lparr>rect_id = ''w'', rect_x = 3, rect_y = 2, rect_w = 6, rect_h = 2, ws_schemaVersion = 1,
     ws_definitionRef = None, ws_kind = ''note'', ws_kindVersion = 1, ws_title = ''Note'', ws_visibility = None,
     ws_data = NoData ''home'' ''note'', ws_options = [], ws_isArchived = False\<rparr>"

lemma sample_widget_packed: "packDashboardLayout root_host [sample_widget] 4 = [sample_widget\<lparr>rect_x := 0, rect_y := 0, rect_w := 4\<rparr>]"
  by (simp add: packDashboardLayout_def packingOrder_def pack_step_def place_def firstDashboardSlot_def slots_def
      layout_bottom_def dashboardRectFits_def probe_def sample_widget_def Let_def)

theorem packed_snapshot_valid_witness:
  "validateDashboardLayout \<lparr>snap_schemaVersion = 1, snap_columns = 4,
     snap_widgets = packDashboardLayout root_host [sample_widget] 4\<rparr> = Inr ()"
  using packed_snapshot_valid[of 4 "[sample_widget]" root_host]
  unfolding sample_widget_packed by (simp add: layout_ids_def sample_widget_def layoutRows_def)

text \<open>The projection shows exactly the active widgets, packed into the columns it was asked for.\<close>

lemma projectDashboardLayout_ok:
  assumes "1 \<le> columns" "layout_ids widgets"
  shows "map rect_id (projectDashboardLayout h widgets columns sourceColumns) = map rect_id (filter (\<lambda>w. \<not> ws_isArchived w) widgets)"
    and "layout_free (set (projectDashboardLayout h widgets columns sourceColumns))"
proof -
  define active where "active = filter (\<lambda>w. \<not> ws_isArchived w) widgets"
  define scaled where "scaled = map (\<lambda>widget. widget\<lparr>
      rect_w := max 1 (min (js_round (of_int (rect_w widget) * (of_int columns / of_int (max 1 sourceColumns)))) columns),
      rect_x := max 0 (min (floor (of_int (rect_x widget) * (of_int columns / of_int (max 1 sourceColumns)) :: rat)) (columns - 1))\<rparr>) active"
  have "layout_ids active" using assms(2) by (auto simp: layout_ids_def active_def distinct_map_filter)
  then have ids: "layout_ids scaled" "map rect_id scaled = map rect_id active"
    by (simp_all add: scaled_def layout_ids_map)
  have p: "projectDashboardLayout h widgets columns sourceColumns = packDashboardLayout h scaled columns"
    by (simp add: projectDashboardLayout_def scaled_def active_def Let_def)
  show "map rect_id (projectDashboardLayout h widgets columns sourceColumns) = map rect_id (filter (\<lambda>w. \<not> ws_isArchived w) widgets)"
    unfolding p using pack_ids[OF assms(1) ids(1)] ids(2) by (simp add: active_def)
  show "layout_free (set (projectDashboardLayout h widgets columns sourceColumns))"
    unfolding p by (rule pack_layout(2)[OF assms(1) ids(1)])
qed

text \<open>
  Packing is not a fixed point of itself: a widget that slid into a gap before wider widgets is
  placed first the next time, and moves again.
\<close>

definition shifting_layout :: "dashboard_rect list" where
  "shifting_layout =
    [\<lparr>rect_id = ''a'', rect_x = 0, rect_y = 0, rect_w = 1, rect_h = 1\<rparr>,
     \<lparr>rect_id = ''t'', rect_x = 1, rect_y = 0, rect_w = 1, rect_h = 2\<rparr>,
     \<lparr>rect_id = ''d'', rect_x = 2, rect_y = 0, rect_w = 2, rect_h = 1\<rparr>,
     \<lparr>rect_id = ''b'', rect_x = 2, rect_y = 1, rect_w = 3, rect_h = 1\<rparr>,
     \<lparr>rect_id = ''c'', rect_x = 0, rect_y = 2, rect_w = 1, rect_h = 2\<rparr>]"

lemma packing_not_idempotent:
  "packDashboardLayout root_host (packDashboardLayout root_host shifting_layout 5) 5 \<noteq> packDashboardLayout root_host shifting_layout 5"
  by code_simp


end
