(* ===== verification/AcpLog.thy ===== *)
theory AcpLog
  imports JsValues Positions
begin

text \<open>
  The transcript reducer of \<open>src/angee/agents/web/src/acp-log.ts\<close>: session notifications of either
  protocol version are folded into the message log of the agent chat.

  Optional flags of a message (\<open>optimistic\<close>, \<open>deliveryFailed\<close>, \<open>failed\<close>, \<open>hasReadableMessage\<close>) are
  booleans: the code only tests their truth. Where the code compares references to detect an
  update that changes nothing, the operation returns \<open>None\<close>.
\<close>

section \<open>Messages\<close>

text \<open>A property of an update that may be left out, sent as \<open>null\<close>, or sent with a value.\<close>

datatype 'a sent = Omitted | Cleared | Sent 'a

record tool_part =
  tp_id :: string
  tp_toolName :: string
  tp_status :: string
  tp_input :: jsval
  tp_result :: jsval
  tp_content :: "jsval list sent"
  tp_isError :: "bool option"

datatype chat_part =
    TextPart string "string option"
  | ReasoningPart string "string option"
  | ImagePart string "string option" "string option"
  | ToolPart tool_part "string option"

fun part_messageId :: "chat_part \<Rightarrow> string option" where
  "part_messageId (TextPart _ m) = m"
| "part_messageId (ReasoningPart _ m) = m"
| "part_messageId (ImagePart _ _ m) = m"
| "part_messageId (ToolPart _ m) = m"

datatype chat_role = User | Assistant

datatype message_status = MessageStatus (status_type: string) (status_reason: "string option")

record chat_message =
  cm_id :: string
  cm_role :: chat_role
  cm_parts :: "chat_part list"
  cm_optimistic :: bool
  cm_deliveryFailed :: bool
  cm_sentContext :: "(string \<times> jsval) option"
  cm_failed :: bool
  cm_hasReadableMessage :: bool
  cm_turnId :: "string option"
  cm_status :: "message_status option"

type_synonym log = "chat_message list"

definition new_message :: "string \<Rightarrow> chat_role \<Rightarrow> string option \<Rightarrow> chat_message" where
  "new_message i role turn =
     \<lparr>cm_id = i, cm_role = role, cm_parts = [], cm_optimistic = False, cm_deliveryFailed = False, cm_sentContext = None,
      cm_failed = False, cm_hasReadableMessage = False, cm_turnId = turn, cm_status = None\<rparr>"

definition has_status :: "string \<Rightarrow> chat_message \<Rightarrow> bool" where
  "has_status t m \<longleftrightarrow> (case cm_status m of Some s \<Rightarrow> status_type s = t | None \<Rightarrow> False)"

section \<open>Parts\<close>

datatype content_block = TextBlock string | ImageBlock string string | OtherBlock

fun is_text_block :: "content_block \<Rightarrow> bool" where
  "is_text_block (TextBlock _) = True"
| "is_text_block _ = False"

definition renders :: "content_block \<Rightarrow> bool" where
  "renders block \<longleftrightarrow> block \<noteq> OtherBlock"

definition mk_text :: "bool \<Rightarrow> string \<Rightarrow> string option \<Rightarrow> chat_part" where
  "mk_text thought text mid = (if thought then ReasoningPart text mid else TextPart text mid)"

text \<open>The text of a part of the requested kind, to which the next chunk is appended.\<close>

definition run_text :: "bool \<Rightarrow> string option \<Rightarrow> chat_part \<Rightarrow> string option" where
  "run_text thought mid part =
     (case part of
        TextPart t m \<Rightarrow> if \<not> thought \<and> m = mid then Some t else None
      | ReasoningPart t m \<Rightarrow> if thought \<and> m = mid then Some t else None
      | _ \<Rightarrow> None)"

definition appendText :: "chat_part list \<Rightarrow> bool \<Rightarrow> string \<Rightarrow> string option \<Rightarrow> chat_part list" where
  "appendText parts thought text messageId =
     (case (if parts = [] then None else run_text thought messageId (last parts)) of
        Some before \<Rightarrow> butlast parts @ [mk_text thought (before @ text) messageId]
      | None \<Rightarrow> parts @ [mk_text thought text (truthy_string messageId)])"

fun appendContent :: "chat_part list \<Rightarrow> content_block \<Rightarrow> bool \<Rightarrow> string option \<Rightarrow> chat_part list" where
  "appendContent parts (TextBlock text) thought messageId = appendText parts thought text messageId"
| "appendContent parts (ImageBlock mimeType data) thought messageId =
     parts @ [ImagePart (''data:'' @ mimeType @ '';base64,'' @ data) None (truthy_string messageId)]"
| "appendContent parts OtherBlock thought messageId = parts"

record tool_update =
  tu_toolCallId :: string
  tu_title :: "string sent"
  tu_status :: "string sent"
  tu_rawInput :: jsval
  tu_rawOutput :: jsval
  tu_content :: "jsval list sent"

fun sent_or :: "'a sent \<Rightarrow> 'a option \<Rightarrow> 'a \<Rightarrow> 'a" where
  "sent_or Omitted old d = or_else old d"
| "sent_or Cleared old d = d"
| "sent_or (Sent x) old d = x"

definition mergeToolPart :: "tool_part option \<Rightarrow> tool_update \<Rightarrow> tool_part" where
  "mergeToolPart existing update =
     \<lparr>tp_id = tu_toolCallId update,
      tp_toolName = sent_or (tu_title update) (map_option tp_toolName existing) [],
      tp_status = sent_or (tu_status update) (map_option tp_status existing) ''pending'',
      tp_input = (if tu_rawInput update = Undefined then or_else (map_option tp_input existing) Undefined else tu_rawInput update),
      tp_result = (if tu_rawOutput update = Undefined then or_else (map_option tp_result existing) Undefined else tu_rawOutput update),
      tp_content = (if tu_content update = Omitted then or_else (map_option tp_content existing) Omitted else tu_content update),
      tp_isError = (if tu_status update = Omitted then Option.bind existing tp_isError else Some (tu_status update = Sent ''failed''))\<rparr>"

fun is_tool :: "string \<Rightarrow> chat_part \<Rightarrow> bool" where
  "is_tool i (ToolPart t _) = (tp_id t = i)"
| "is_tool i _ = False"

fun merge_into :: "tool_update \<Rightarrow> chat_part \<Rightarrow> chat_part" where
  "merge_into update (ToolPart t m) =
     (if tp_id t = tu_toolCallId update then ToolPart (mergeToolPart (Some t) update) None else ToolPart t m)"
| "merge_into update part = part"

definition upsertToolPart :: "chat_part list \<Rightarrow> tool_update \<Rightarrow> bool \<Rightarrow> chat_part list" where
  "upsertToolPart parts update create =
     (if \<not> list_ex (is_tool (tu_toolCallId update)) parts then
        if create then parts @ [ToolPart (mergeToolPart None update) None] else parts
      else map (merge_into update) parts)"


section \<open>Turns\<close>

definition assistantForTurn :: "log \<Rightarrow> string \<Rightarrow> chat_message" where
  "assistantForTurn chat turnId =
     or_else (find (\<lambda>m. cm_role m = Assistant \<and> cm_turnId m = Some turnId) chat)
             (new_message (''assistant-'' @ turnId) Assistant (Some turnId))"

definition insertAssistant :: "log \<Rightarrow> chat_message \<Rightarrow> log" where
  "insertAssistant chat assistant =
     (let userIndex = findIndex (\<lambda>m. Some (cm_id m) = cm_turnId assistant) chat
      in if userIndex < 0 then chat @ [assistant]
         else take (nat userIndex + 1) chat @ assistant # drop (nat userIndex + 1) chat)"

definition replace_id :: "log \<Rightarrow> string \<Rightarrow> chat_message \<Rightarrow> log" where
  "replace_id chat i next = map (\<lambda>m. if cm_id m = i then next else m) chat"

definition settle_status :: "string \<Rightarrow> message_status" where
  "settle_status stopReason =
     (if stopReason = ''end_turn'' then MessageStatus ''complete'' (Some ''stop'')
      else MessageStatus ''incomplete'' (Some (if stopReason = ''cancelled'' then ''cancelled'' else ''error'')))"

definition settle_text :: "chat_message \<Rightarrow> string \<Rightarrow> string \<Rightarrow> string \<Rightarrow> string" where
  "settle_text base stopReason failedMessage stoppedMessage =
     (if stopReason = ''_angee/failed'' then (if cm_hasReadableMessage base then [] else failedMessage)
      else if stopReason \<noteq> ''end_turn'' \<and> stopReason \<noteq> ''cancelled'' then stoppedMessage else [])"

definition settled :: "chat_message \<Rightarrow> string \<Rightarrow> string \<Rightarrow> chat_message" where
  "settled base stopReason text =
     base\<lparr>cm_status := Some (settle_status stopReason), cm_failed := (stopReason = ''_angee/failed''),
          cm_parts := (if text \<noteq> [] then cm_parts base @ [TextPart text None] else cm_parts base)\<rparr>"

definition settleLog :: "log \<Rightarrow> string \<Rightarrow> string \<Rightarrow> string \<Rightarrow> string \<Rightarrow> log" where
  "settleLog chat stopReason failedMessage stoppedMessage turnId =
     (let base = assistantForTurn chat turnId;
          index = findIndex (\<lambda>m. cm_id m = cm_id base) chat;
          text = settle_text base stopReason failedMessage stoppedMessage;
          next = settled base stopReason text
      in if has_status ''incomplete'' base \<or> has_status ''complete'' base then chat
         else if index \<ge> 0 then chat[nat index := next]
         else if text \<noteq> [] then insertAssistant chat next else chat)"

definition reconcileUserMessage :: "log \<Rightarrow> string \<Rightarrow> string \<Rightarrow> log" where
  "reconcileUserMessage chat optimisticId messageId =
     (if list_ex (\<lambda>m. cm_id m = messageId) chat then
        (let context = Option.bind (find (\<lambda>m. cm_id m = optimisticId) chat) cm_sentContext
         in map (\<lambda>m. if cm_id m = messageId \<and> context \<noteq> None then m\<lparr>cm_sentContext := context\<rparr> else m)
              (filter (\<lambda>m. cm_id m \<noteq> optimisticId) chat))
      else map (\<lambda>m. if cm_id m = optimisticId then m\<lparr>cm_id := messageId\<rparr> else m) chat)"

section \<open>Protocol version 1\<close>

datatype v1_update =
    V1UserChunk content_block | V1AgentChunk content_block | V1ThoughtChunk content_block
  | V1ToolCall tool_update | V1ToolCallUpdate tool_update | V1Other

text \<open>\<open>None\<close>: the same message is returned.\<close>

fun applyUpdate :: "chat_message \<Rightarrow> v1_update \<Rightarrow> chat_message option" where
  "applyUpdate assistant (V1AgentChunk (TextBlock text)) =
     Some (assistant\<lparr>cm_parts := appendText (cm_parts assistant) False text None\<rparr>)"
| "applyUpdate assistant (V1ThoughtChunk (TextBlock text)) =
     Some (assistant\<lparr>cm_parts := appendText (cm_parts assistant) True text None\<rparr>)"
| "applyUpdate assistant (V1ToolCall update) = Some (assistant\<lparr>cm_parts := upsertToolPart (cm_parts assistant) update True\<rparr>)"
| "applyUpdate assistant (V1ToolCallUpdate update) =
     (if list_ex (is_tool (tu_toolCallId update)) (cm_parts assistant)
      then Some (assistant\<lparr>cm_parts := upsertToolPart (cm_parts assistant) update False\<rparr>) else None)"
| "applyUpdate assistant _ = None"

definition last_user :: "log \<Rightarrow> chat_message option" where
  "last_user chat = find (\<lambda>m. cm_role m = User) (rev chat)"

definition assistantMessageId :: "log \<Rightarrow> string \<Rightarrow> string" where
  "assistantMessageId chat sessionId =
     (case last_user chat of
        Some m \<Rightarrow> ''assistant-'' @ (if startsWith (cm_id m) ''user-'' then drop 5 (cm_id m) else cm_id m)
      | None \<Rightarrow> ''assistant-'' @ sessionId)"

definition last_message :: "log \<Rightarrow> chat_message option" where
  "last_message chat = (if chat = [] then None else Some (last chat))"

definition foldV1 :: "log \<Rightarrow> string \<Rightarrow> v1_update \<Rightarrow> log" where
  "foldV1 chat sessionId update =
     (case update of
        V1UserChunk content \<Rightarrow>
          (case last_message chat of
             Some m \<Rightarrow>
               if cm_optimistic m \<or> \<not> renders content then chat
               else if cm_role m = User then butlast chat @ [m\<lparr>cm_parts := appendContent (cm_parts m) content False None\<rparr>]
               else chat @ [(new_message (''user-'' @ nat_str (length chat)) User None)\<lparr>cm_parts := appendContent [] content False None\<rparr>]
           | None \<Rightarrow>
               if \<not> renders content then chat
               else chat @ [(new_message (''user-'' @ nat_str (length chat)) User None)\<lparr>cm_parts := appendContent [] content False None\<rparr>])
      | _ \<Rightarrow>
          (case last_message chat of
             Some m \<Rightarrow>
               if cm_role m = Assistant then (case applyUpdate m update of Some next \<Rightarrow> butlast chat @ [next] | None \<Rightarrow> chat)
               else (case applyUpdate (new_message (assistantMessageId chat sessionId) Assistant (map_option cm_id (last_user chat))) update of
                       Some next \<Rightarrow> chat @ [next] | None \<Rightarrow> chat)
           | None \<Rightarrow>
               (case applyUpdate (new_message (assistantMessageId chat sessionId) Assistant (map_option cm_id (last_user chat))) update of
                  Some next \<Rightarrow> chat @ [next] | None \<Rightarrow> chat)))"

section \<open>Protocol version 2\<close>

datatype session_state = Idle "string option" | Running | RequiresAction | OtherState

datatype message_kind = UserKind | AgentKind | ThoughtKind

datatype message_payload = Whole "content_block list sent" | Chunk content_block

datatype v2_update =
    StateUpdate session_state
  | MessageUpdate message_kind string message_payload
  | ToolCallUpdate tool_update
  | ToolCallContentChunk string jsval
  | OtherUpdate

definition foreground_of :: "log \<Rightarrow> chat_message option" where
  "foreground_of chat = find (\<lambda>m. cm_role m = Assistant \<and> has_status ''running'' m) chat"

definition upsert_assistant :: "log \<Rightarrow> chat_message \<Rightarrow> chat_message \<Rightarrow> log" where
  "upsert_assistant chat base next =
     (if list_ex (\<lambda>m. cm_id m = cm_id base) chat then replace_id chat (cm_id base) next else insertAssistant chat next)"

text \<open>The oldest accepted prompt whose turn has not settled.\<close>

definition oldest_unsettled :: "log \<Rightarrow> chat_message option" where
  "oldest_unsettled chat =
     find (\<lambda>m. cm_role m = User \<and> \<not> cm_optimistic m \<and> \<not> cm_deliveryFailed m \<and>
               \<not> list_ex (\<lambda>a. cm_turnId a = Some (cm_id m) \<and> (has_status ''complete'' a \<or> has_status ''incomplete'' a)) chat) chat"

definition fold_state :: "log \<Rightarrow> session_state \<Rightarrow> string \<Rightarrow> string \<Rightarrow> log" where
  "fold_state chat state failedMessage stoppedMessage =
     (case state of
        Idle stopReason \<Rightarrow>
          (case (truthy_string stopReason, truthy_string (Option.bind (foreground_of chat) cm_turnId)) of
             (Some reason, Some turnId) \<Rightarrow> settleLog chat reason failedMessage stoppedMessage turnId
           | _ \<Rightarrow> chat)
      | OtherState \<Rightarrow> chat
      | _ \<Rightarrow>
          (case (case foreground_of chat of
                   Some f \<Rightarrow> Some f
                 | None \<Rightarrow> map_option (\<lambda>m. assistantForTurn chat (cm_id m)) (oldest_unsettled chat)) of
             None \<Rightarrow> chat
           | Some base \<Rightarrow>
               upsert_assistant chat base (base\<lparr>cm_hasReadableMessage := False, cm_status := Some (MessageStatus ''running'' None)\<rparr>)))"

definition payload_parts :: "chat_part list \<Rightarrow> message_kind \<Rightarrow> string \<Rightarrow> message_payload \<Rightarrow> chat_part list" where
  "payload_parts parts kind messageId payload =
     (let user = (kind = UserKind); thought = (kind = ThoughtKind); mid = (if user then None else Some messageId)
      in case payload of
           Chunk block \<Rightarrow> appendContent parts block thought mid
         | Whole Omitted \<Rightarrow> parts
         | Whole content \<Rightarrow>
             (let blocks = (case content of Sent bs \<Rightarrow> bs | _ \<Rightarrow> []);
                  replacement = foldl (\<lambda>acc block. appendContent acc block thought mid) [] blocks;
                  position = findIndex (\<lambda>part. part_messageId part = Some messageId) parts;
                  retained = (if user then [] else filter (\<lambda>part. part_messageId part \<noteq> Some messageId) parts);
                  at_pos = (if position < 0 then length retained else nat position)
              in take at_pos retained @ replacement @ drop at_pos retained))"

definition readable :: "message_kind \<Rightarrow> message_payload \<Rightarrow> bool" where
  "readable kind payload \<longleftrightarrow>
     kind = AgentKind \<and>
     (case payload of Whole (Sent blocks) \<Rightarrow> list_ex (\<lambda>b. case b of TextBlock t \<Rightarrow> js_trim t \<noteq> [] | _ \<Rightarrow> False) blocks | _ \<Rightarrow> False)"

definition fold_message :: "log \<Rightarrow> message_kind \<Rightarrow> string \<Rightarrow> message_payload \<Rightarrow> log" where
  "fold_message chat kind messageId payload =
     (let user = (kind = UserKind);
          found = (if user then Some (or_else (find (\<lambda>m. cm_id m = messageId) chat) (new_message messageId User None))
                   else case foreground_of chat of
                          Some f \<Rightarrow> Some f
                        | None \<Rightarrow> find (\<lambda>m. cm_role m = Assistant \<and> list_ex (\<lambda>part. part_messageId part = Some messageId) (cm_parts m)) chat)
      in case found of
           None \<Rightarrow> chat
         | Some base \<Rightarrow>
             (let parts = payload_parts (if cm_optimistic base then [] else cm_parts base) kind messageId payload;
                  next = base\<lparr>cm_optimistic := False, cm_parts := parts,
                              cm_hasReadableMessage := (if user then cm_hasReadableMessage base else readable kind payload)\<rparr>;
                  index = findIndex (\<lambda>m. cm_id m = cm_id base) chat
              in if user \<and> cm_optimistic base then filter (\<lambda>m. cm_id m \<noteq> cm_id base) chat @ [next]
                 else if index \<ge> 0 then chat[nat index := next]
                 else if \<not> user then insertAssistant chat next
                 else (let assistant = findIndex (\<lambda>m. cm_turnId m = Some messageId) chat
                       in if assistant < 0 then chat @ [next]
                          else take (nat assistant) chat @ next # drop (nat assistant) chat)))"

fun tool_of :: "chat_part \<Rightarrow> tool_part option" where
  "tool_of (ToolPart t _) = Some t"
| "tool_of _ = None"

definition find_tool :: "string \<Rightarrow> chat_part list \<Rightarrow> tool_part option" where
  "find_tool i parts = Option.bind (find (is_tool i) parts) tool_of"

text \<open>A content chunk is an update with the old content and one more item.\<close>

definition content_update :: "string \<Rightarrow> tool_part option \<Rightarrow> jsval \<Rightarrow> tool_update" where
  "content_update i tool content =
     \<lparr>tu_toolCallId = i, tu_title = Omitted, tu_status = Omitted, tu_rawInput = Undefined, tu_rawOutput = Undefined,
      tu_content = Sent ((case map_option tp_content tool of Some (Sent cs) \<Rightarrow> cs | _ \<Rightarrow> []) @ [content])\<rparr>"

definition fold_tool :: "log \<Rightarrow> string \<Rightarrow> (tool_part option \<Rightarrow> tool_update) \<Rightarrow> log" where
  "fold_tool chat i update =
     (case (case foreground_of chat of
              Some f \<Rightarrow> Some f
            | None \<Rightarrow> find (\<lambda>m. cm_role m = Assistant \<and> list_ex (is_tool i) (cm_parts m)) chat) of
        None \<Rightarrow> chat
      | Some base \<Rightarrow>
          upsert_assistant chat base
            (base\<lparr>cm_parts := upsertToolPart (cm_parts base) (update (find_tool i (cm_parts base))) True, cm_hasReadableMessage := False\<rparr>))"

definition foldV2 :: "log \<Rightarrow> v2_update \<Rightarrow> string \<Rightarrow> string \<Rightarrow> log" where
  "foldV2 chat update failedMessage stoppedMessage =
     (case update of
        StateUpdate state \<Rightarrow> fold_state chat state failedMessage stoppedMessage
      | MessageUpdate kind messageId payload \<Rightarrow> fold_message chat kind messageId payload
      | ToolCallUpdate u \<Rightarrow> fold_tool chat (tu_toolCallId u) (\<lambda>_. u)
      | ToolCallContentChunk i content \<Rightarrow> fold_tool chat i (\<lambda>tool. content_update i tool content)
      | OtherUpdate \<Rightarrow> chat)"

datatype acp_notification = NoteV1 string v1_update | NoteV2 v2_update

definition foldIntoLog :: "log \<Rightarrow> acp_notification \<Rightarrow> string \<Rightarrow> string \<Rightarrow> log" where
  "foldIntoLog chat notification failedMessage stoppedMessage =
     (case notification of
        NoteV2 update \<Rightarrow> foldV2 chat update failedMessage stoppedMessage
      | NoteV1 sessionId update \<Rightarrow> foldV1 chat sessionId update)"

section \<open>Thread messages\<close>

datatype thread_content =
    TextContent string | ReasoningContent string | ImageContent string "string option"
  | ToolCallContent string string string jsval jsval bool

definition nullish_or :: "jsval \<Rightarrow> jsval \<Rightarrow> jsval" where
  "nullish_or v d = (if is_nullish v then d else v)"

fun convert_part :: "chat_part \<Rightarrow> thread_content" where
  "convert_part (TextPart t _) = TextContent t"
| "convert_part (ReasoningPart t _) = ReasoningContent t"
| "convert_part (ImagePart i f _) = ImageContent i f"
| "convert_part (ToolPart t _) =
     ToolCallContent (tp_id t) (tp_toolName t) (tp_status t) (nullish_or (tp_input t) Null)
       (nullish_or (tp_result t) (case tp_content t of Sent cs \<Rightarrow> Arr cs | _ \<Rightarrow> Null)) (or_else (tp_isError t) False)"

record thread_message =
  tm_id :: string
  tm_role :: chat_role
  tm_status :: "message_status option"
  tm_deliveryFailed :: bool
  tm_turnFailed :: bool
  tm_content :: "thread_content list"

definition convertMessage :: "chat_message \<Rightarrow> thread_message" where
  "convertMessage m =
     \<lparr>tm_id = cm_id m, tm_role = cm_role m, tm_status = cm_status m, tm_deliveryFailed = cm_deliveryFailed m,
      tm_turnFailed = cm_failed m, tm_content = map convert_part (cm_parts m)\<rparr>"



section \<open>Prompts of the runtime\<close>

text \<open>
  The operations of \<open>useAcpRuntime.ts\<close> on the log: a prompt enters under a local id made from a
  counter, may be rejected at once, carries its context, and is settled by the response.
\<close>

record acp_session =
  ses_chat :: log
  ses_counter :: nat

definition local_id :: "nat \<Rightarrow> string" where
  "local_id n = ''user-local-'' @ nat_str n"

definition echo_message :: "nat \<Rightarrow> chat_part list \<Rightarrow> chat_message" where
  "echo_message n parts = (new_message (local_id n) User None)\<lparr>cm_parts := parts\<rparr>"

definition send_prompt :: "acp_session \<Rightarrow> chat_part list \<Rightarrow> acp_session" where
  "send_prompt s parts =
     (let n = ses_counter s + 1
      in s\<lparr>ses_counter := n, ses_chat := (if parts = [] then ses_chat s else ses_chat s @ [(echo_message n parts)\<lparr>cm_optimistic := True\<rparr>])\<rparr>)"

definition refuse_prompt :: "acp_session \<Rightarrow> chat_part list \<Rightarrow> acp_session" where
  "refuse_prompt s parts =
     (let n = ses_counter s + 1
      in s\<lparr>ses_counter := n, ses_chat := (if parts = [] then ses_chat s else ses_chat s @ [(echo_message n parts)\<lparr>cm_deliveryFailed := True\<rparr>])\<rparr>)"

definition mark_context :: "log \<Rightarrow> string \<Rightarrow> string \<times> jsval \<Rightarrow> log" where
  "mark_context chat i context = map (\<lambda>m. if cm_id m = i then m\<lparr>cm_sentContext := Some context\<rparr> else m) chat"

definition fail_delivery :: "log \<Rightarrow> string \<Rightarrow> log" where
  "fail_delivery chat i = map (\<lambda>m. if cm_id m = i then m\<lparr>cm_optimistic := False, cm_deliveryFailed := True\<rparr> else m) chat"

definition merge_replay :: "log \<Rightarrow> log \<Rightarrow> log" where
  "merge_replay chat replayed =
     map (\<lambda>m. case Option.bind (find (\<lambda>l. cm_id l = cm_id m) chat) cm_sentContext of
               Some context \<Rightarrow> m\<lparr>cm_sentContext := Some context\<rparr> | None \<Rightarrow> m) replayed
     @ filter cm_deliveryFailed chat"


end
