(* ===== verification/AcpFacts.thy ===== *)
theory AcpFacts
  imports AcpLog
begin

text \<open>
  Facts on the transcript reducer: every operation replaces one message in place or inserts one
  under a new id, so message ids stay distinct, no message shows a tool call twice, and at most
  one assistant message is running.
\<close>

section \<open>Tool calls of a message\<close>

fun part_tools :: "chat_part \<Rightarrow> string list" where
  "part_tools (ToolPart t _) = [tp_id t]"
| "part_tools _ = []"

definition tool_ids :: "chat_part list \<Rightarrow> string list" where
  "tool_ids parts = concat (map part_tools parts)"

lemma tool_ids_simps [simp]:
  "tool_ids [] = []" "tool_ids (p # ps) = part_tools p @ tool_ids ps" "tool_ids (ps @ qs) = tool_ids ps @ tool_ids qs"
  by (simp_all add: tool_ids_def)

lemma part_tools_text [simp]: "part_tools (mk_text thought text mid) = []"
  by (simp add: mk_text_def)

lemma run_text_tools: "run_text thought mid p = Some t \<Longrightarrow> part_tools p = []"
  by (cases p) (auto simp: run_text_def)

lemma tool_ids_snoc: "parts \<noteq> [] \<Longrightarrow> tool_ids parts = tool_ids (butlast parts) @ part_tools (last parts)"
  by (metis append_butlast_last_id tool_ids_simps append_Nil2)

lemma tool_ids_appendText [simp]: "tool_ids (appendText parts thought text mid) = tool_ids parts"
  by (auto simp: appendText_def tool_ids_snoc dest: run_text_tools split: option.splits)

lemma tool_ids_appendContent [simp]: "tool_ids (appendContent parts block thought mid) = tool_ids parts"
  by (cases block) simp_all

lemma tool_ids_replacement: "tool_ids (foldl (\<lambda>acc block. appendContent acc block thought mid) parts blocks) = tool_ids parts"
  by (induction blocks arbitrary: parts) simp_all

lemma distinct_tool_ids_filter: "distinct (tool_ids parts) \<Longrightarrow> distinct (tool_ids (filter P parts))"
proof (induction parts)
  case (Cons p parts)
  have "set (tool_ids (filter P parts)) \<subseteq> set (tool_ids parts)" by (induction parts) auto
  with Cons show ?case by auto
qed simp

lemma distinct_tool_ids_cut:
  assumes "distinct (tool_ids ps)"
  shows "distinct (tool_ids (take n ps))" "distinct (tool_ids (drop n ps))"
    "set (tool_ids (take n ps)) \<inter> set (tool_ids (drop n ps)) = {}"
proof -
  have "distinct (tool_ids (take n ps) @ tool_ids (drop n ps))"
    using assms by (metis append_take_drop_id tool_ids_simps(3))
  then show "distinct (tool_ids (take n ps))" "distinct (tool_ids (drop n ps))"
    "set (tool_ids (take n ps)) \<inter> set (tool_ids (drop n ps)) = {}" by simp_all
qed

lemma tool_ids_payload:
  assumes "distinct (tool_ids parts)"
  shows "distinct (tool_ids (payload_parts parts kind mid payload))"
proof (cases payload)
  case (Whole content)
  show ?thesis
    unfolding payload_parts_def Whole Let_def
    using assms by (cases content) (simp_all add: tool_ids_replacement distinct_tool_ids_filter distinct_tool_ids_cut)
qed (use assms in \<open>simp add: payload_parts_def\<close>)

lemma tool_id_merge [simp]: "tp_id (mergeToolPart t u) = tu_toolCallId u"
  by (simp add: mergeToolPart_def)

lemma part_tools_merge_into [simp]: "part_tools (merge_into u p) = part_tools p"
  by (cases p) simp_all

lemma tool_ids_map_merge [simp]: "tool_ids (map (merge_into u) parts) = tool_ids parts"
  by (induction parts) simp_all

lemma is_tool_iff: "is_tool i p \<longleftrightarrow> i \<in> set (part_tools p)"
  by (cases p) auto

lemma ex_tool_iff: "list_ex (is_tool i) parts \<longleftrightarrow> i \<in> set (tool_ids parts)"
  by (auto simp: list_ex_iff is_tool_iff tool_ids_def)

lemma tool_ids_upsert:
  "tool_ids (upsertToolPart parts u create) =
     (if tu_toolCallId u \<in> set (tool_ids parts) \<or> \<not> create then tool_ids parts else tool_ids parts @ [tu_toolCallId u])"
  by (auto simp: upsertToolPart_def ex_tool_iff)

lemma distinct_tool_ids_upsert: "distinct (tool_ids parts) \<Longrightarrow> distinct (tool_ids (upsertToolPart parts u create))"
  by (simp add: tool_ids_upsert)

section \<open>The invariant of the log\<close>

definition running :: "chat_message \<Rightarrow> bool" where
  "running m \<longleftrightarrow> cm_role m = Assistant \<and> has_status ''running'' m"

text \<open>No two assistant messages answer the same turn.\<close>

definition same_turn :: "chat_message \<Rightarrow> chat_message \<Rightarrow> bool" where
  "same_turn a b \<longleftrightarrow> cm_role a = cm_role b \<and> cm_turnId a = cm_turnId b"

definition turn_free :: "chat_message set \<Rightarrow> chat_message \<Rightarrow> bool" where
  "turn_free ms m \<longleftrightarrow> cm_role m = Assistant \<and> cm_turnId m \<noteq> None \<longrightarrow> (\<forall>b \<in> ms. \<not> same_turn b m)"

definition turns_ok :: "chat_message set \<Rightarrow> bool" where
  "turns_ok ms \<longleftrightarrow> (\<forall>a \<in> ms. \<forall>b \<in> ms. cm_role a = Assistant \<and> cm_turnId a \<noteq> None \<and> same_turn a b \<longrightarrow> a = b)"

definition answers :: "string \<Rightarrow> chat_message \<Rightarrow> bool" where
  "answers t m \<longleftrightarrow> cm_role m = Assistant \<and> cm_turnId m = Some t"

lemma turns_okI: "(\<And>a b t. a \<in> ms \<Longrightarrow> b \<in> ms \<Longrightarrow> answers t a \<Longrightarrow> answers t b \<Longrightarrow> a = b) \<Longrightarrow> turns_ok ms"
  unfolding turns_ok_def answers_def same_turn_def by (intro ballI impI) (elim conjE, metis option.exhaust)

lemma turns_okD: "turns_ok ms \<Longrightarrow> answers t a \<Longrightarrow> answers t b \<Longrightarrow> a \<in> ms \<Longrightarrow> b \<in> ms \<Longrightarrow> a = b"
  unfolding turns_ok_def answers_def same_turn_def by (metis option.distinct(1))

lemma turn_free_iff: "turn_free ms m \<longleftrightarrow> (\<forall>t. answers t m \<longrightarrow> (\<forall>b \<in> ms. \<not> answers t b))"
  by (auto simp: turn_free_def answers_def same_turn_def)

lemma same_turn_answers: "same_turn a b \<Longrightarrow> answers t a = answers t b"
  by (simp add: same_turn_def answers_def)

lemma turns_ok_insert: "turns_ok ms \<Longrightarrow> turn_free ms m \<Longrightarrow> turns_ok (insert m ms)"
  by (intro turns_okI) (auto simp: turn_free_iff dest: turns_okD)

lemma turns_ok_mono: "turns_ok ms \<Longrightarrow> ns \<subseteq> ms \<Longrightarrow> turns_ok ns"
  by (auto simp: turns_ok_def)

lemma turns_ok_swap:
  assumes "turns_ok ms" "b \<in> ms" "same_turn m b"
  shows "turns_ok (insert m (ms - {b}))"
proof (rule turns_ok_insert)
  show "turns_ok (ms - {b})" by (rule turns_ok_mono[OF assms(1)]) blast
  have "answers t m = answers t b" for t by (rule same_turn_answers[OF assms(3)])
  then show "turn_free (ms - {b}) m" using turns_okD[OF assms(1)] assms(2) by (auto simp: turn_free_iff)
qed

lemma turns_ok_image:
  assumes "turns_ok ms" "\<And>m. same_turn (f m) m"
  shows "turns_ok (f ` ms)"
proof (rule turns_okI)
  have "answers t (f m) = answers t m" for t m by (rule same_turn_answers[OF assms(2)])
  then show "\<And>a b t. a \<in> f ` ms \<Longrightarrow> b \<in> f ` ms \<Longrightarrow> answers t a \<Longrightarrow> answers t b \<Longrightarrow> a = b"
    using turns_okD[OF assms(1)] by (metis imageE)
qed

lemma same_turn_refl [simp]: "same_turn a a"
  by (simp add: same_turn_def)

lemma same_turn_update [simp]:
  "same_turn (m\<lparr>cm_parts := ps\<rparr>) b = same_turn m b" "same_turn (m\<lparr>cm_hasReadableMessage := r\<rparr>) b = same_turn m b"
  "same_turn (m\<lparr>cm_status := st\<rparr>) b = same_turn m b" "same_turn (m\<lparr>cm_optimistic := o'\<rparr>) b = same_turn m b"
  "same_turn (m\<lparr>cm_sentContext := c\<rparr>) b = same_turn m b" "same_turn (m\<lparr>cm_deliveryFailed := d\<rparr>) b = same_turn m b"
  "same_turn (m\<lparr>cm_failed := d\<rparr>) b = same_turn m b" "same_turn (m\<lparr>cm_id := i\<rparr>) b = same_turn m b"
  by (simp_all add: same_turn_def)

lemma turn_free_cong: "same_turn m n \<Longrightarrow> turn_free ms m = turn_free ms n"
  by (simp add: turn_free_def same_turn_def)

lemma turn_free_mono: "turn_free ms m \<Longrightarrow> ns \<subseteq> ms \<Longrightarrow> turn_free ns m"
  by (auto simp: turn_free_def)

definition log_ok :: "log \<Rightarrow> bool" where
  "log_ok chat \<longleftrightarrow> distinct (map cm_id chat) \<and> (\<forall>m \<in> set chat. distinct (tool_ids (cm_parts m))) \<and>
     length (filter running chat) \<le> 1 \<and> turns_ok (set chat)"

lemma log_okD:
  assumes "log_ok chat"
  shows "distinct (map cm_id chat)" "m \<in> set chat \<Longrightarrow> distinct (tool_ids (cm_parts m))" "length (filter running chat) \<le> 1"
    "turns_ok (set chat)"
  using assms by (auto simp: log_ok_def)

lemma log_ok_Nil [simp]: "log_ok []"
  by (simp add: log_ok_def turns_ok_def)

text \<open>The two changes every operation is made of.\<close>

lemma log_ok_update:
  assumes "log_ok chat" "i < length chat" "cm_id next = cm_id (chat ! i)" "distinct (tool_ids (cm_parts next))"
    and "running next \<Longrightarrow> running (chat ! i) \<or> filter running chat = []"
    and "same_turn next (chat ! i) \<or> turn_free (set chat) next"
  shows "log_ok (chat[i := next])"
proof -
  let ?l = "take i chat" and ?r = "drop (Suc i) chat"
  have split: "chat = ?l @ chat ! i # ?r" "chat[i := next] = ?l @ next # ?r"
    using assms(2) by (simp_all add: id_take_nth_drop upd_conv_take_nth_drop)
  have "map cm_id (chat[i := next]) = map cm_id chat"
    using assms(2,3) by (metis list_update_id map_update nth_map length_map)
  moreover have "length (filter running (chat[i := next])) \<le> 1"
  proof -
    have "length (filter running chat) = length (filter running ?l) + (if running (chat ! i) then 1 else 0) + length (filter running ?r)"
      by (subst split(1)) simp
    moreover have "length (filter running (chat[i := next])) = length (filter running ?l) + (if running next then 1 else 0) + length (filter running ?r)"
      by (subst split(2)) simp
    ultimately show ?thesis using log_okD(3)[OF assms(1)] assms(5) by (auto split: if_splits)
  qed
  moreover have "distinct (tool_ids (cm_parts m))" if "m \<in> set (chat[i := next])" for m
    using set_update_subset_insert[of chat i "next"] that log_okD(2)[OF assms(1)] assms(4) by blast
  moreover have "turns_ok (set (chat[i := next]))"
  proof -
    have "set (chat[i := next]) = insert next (set chat - {chat ! i})"
      using assms(2) log_okD(1)[OF assms(1)] by (intro set_update_distinct) (auto simp: distinct_map)
    moreover have "turns_ok (insert next (set chat - {chat ! i}))"
      using assms(6)
    proof
      assume "same_turn next (chat ! i)"
      then show ?thesis using assms(2) log_okD(4)[OF assms(1)] by (intro turns_ok_swap) auto
    next
      assume free: "turn_free (set chat) next"
      have "turns_ok (set chat - {chat ! i})" using turns_ok_mono[OF log_okD(4)[OF assms(1)]] by blast
      moreover have "turn_free (set chat - {chat ! i}) next" using turn_free_mono[OF free] by blast
      ultimately show ?thesis by (rule turns_ok_insert)
    qed
    ultimately show ?thesis by simp
  qed
  ultimately show ?thesis using log_okD(1)[OF assms(1)] by (simp add: log_ok_def)
qed

lemma log_ok_insert:
  assumes "log_ok (xs @ ys)" "cm_id m \<notin> cm_id ` set (xs @ ys)" "distinct (tool_ids (cm_parts m))"
    and "running m \<Longrightarrow> filter running (xs @ ys) = []" "turn_free (set (xs @ ys)) m"
  shows "log_ok (xs @ m # ys)"
proof -
  have "turns_ok (set (xs @ m # ys))"
    using turns_ok_insert[OF log_okD(4)[OF assms(1)] assms(5)] by simp
  then show ?thesis using assms(1-4) by (auto simp: log_ok_def)
qed

lemma log_ok_insertAssistant:
  assumes "log_ok chat" "cm_id m \<notin> cm_id ` set chat" "distinct (tool_ids (cm_parts m))" "running m \<Longrightarrow> filter running chat = []"
    "turn_free (set chat) m"
  shows "log_ok (insertAssistant chat m)"
proof -
  have "log_ok (take n chat @ m # drop n chat)" for n
    by (rule log_ok_insert) (use assms in \<open>simp_all del: set_append\<close>)
  from this[of "length chat"] this show ?thesis by (simp add: insertAssistant_def Let_def)
qed

lemma replace_id_update:
  assumes "distinct (map cm_id chat)" "i < length chat"
  shows "replace_id chat (cm_id (chat ! i)) next = chat[i := next]"
proof -
  have "cm_id (chat ! j) = cm_id (chat ! i) \<longleftrightarrow> j = i" if "j < length chat" for j
    using assms that by (metis length_map nth_eq_iff_index_eq nth_map)
  then show ?thesis by (intro nth_equalityI) (auto simp: replace_id_def nth_list_update)
qed

lemma log_ok_index:
  assumes "log_ok chat" "0 \<le> findIndex (\<lambda>m. cm_id m = cm_id base) chat" "cm_id next = cm_id base"
    "distinct (tool_ids (cm_parts next))"
    and "\<And>m. m \<in> set chat \<Longrightarrow> cm_id m = cm_id base \<Longrightarrow> running next \<Longrightarrow> running m \<or> filter running chat = []"
    and "\<And>m. m \<in> set chat \<Longrightarrow> cm_id m = cm_id base \<Longrightarrow> same_turn next m \<or> turn_free (set chat) next"
  shows "log_ok (chat[nat (findIndex (\<lambda>m. cm_id m = cm_id base) chat) := next])"
  using findIndex_nth[OF assms(2)] assms by (intro log_ok_update) auto

lemma log_ok_upsert:
  assumes "log_ok chat" "cm_id next = cm_id base" "distinct (tool_ids (cm_parts next))"
    and "running next \<Longrightarrow> (base \<in> set chat \<and> running base) \<or> filter running chat = []"
    and "(base \<in> set chat \<and> same_turn next base) \<or> turn_free (set chat) next"
  shows "log_ok (upsert_assistant chat base next)"
proof (cases "list_ex (\<lambda>m. cm_id m = cm_id base) chat")
  case True
  then obtain i where i: "i < length chat" "cm_id (chat ! i) = cm_id base" by (auto simp: list_ex_length)
  have "running (chat ! i) \<or> filter running chat = []" if "running next"
    using assms(4)[OF that] i log_okD(1)[OF assms(1)] by (metis distinct_map inj_onD nth_mem)
  moreover have "same_turn next (chat ! i) \<or> turn_free (set chat) next"
    using assms(5) i log_okD(1)[OF assms(1)] by (metis distinct_map inj_onD nth_mem)
  ultimately have "log_ok (chat[i := next])" using assms i by (intro log_ok_update) auto
  then show ?thesis using True i replace_id_update[OF log_okD(1)[OF assms(1)] i(1)] by (simp add: upsert_assistant_def)
next
  case False
  have "filter running chat = []" if "running next" using assms(4)[OF that] False by (auto simp: list_ex_iff)
  moreover have "turn_free (set chat) next" using assms(5) False by (auto simp: list_ex_iff)
  ultimately have "log_ok (insertAssistant chat next)"
    using False assms by (intro log_ok_insertAssistant) (auto simp: list_ex_iff)
  then show ?thesis unfolding upsert_assistant_def using False by (simp only: if_False)
qed


section \<open>Every operation keeps the invariant\<close>

lemma new_message_simps [simp]:
  "cm_id (new_message i r t) = i" "cm_role (new_message i r t) = r" "cm_parts (new_message i r t) = []"
  "cm_optimistic (new_message i r t) = False" "cm_turnId (new_message i r t) = t" "cm_status (new_message i r t) = None"
  "cm_hasReadableMessage (new_message i r t) = False" "cm_sentContext (new_message i r t) = None"
  by (simp_all add: new_message_def)

lemma not_running_new [simp]: "\<not> running (new_message i r t)"
  by (simp add: running_def has_status_def)

lemma foreground_running: "foreground_of chat = Some f \<Longrightarrow> f \<in> set chat \<and> running f"
  unfolding foreground_of_def running_def by (drule find_SomeD) simp

lemma foreground_none: "foreground_of chat = None \<longleftrightarrow> filter running chat = []"
  by (auto simp: foreground_of_def running_def find_None_iff filter_empty_conv)

lemma assistantForTurn_cases:
  obtains (found) "assistantForTurn chat turn \<in> set chat" "cm_role (assistantForTurn chat turn) = Assistant"
      "cm_turnId (assistantForTurn chat turn) = Some turn"
    | (fresh) "assistantForTurn chat turn = new_message (''assistant-'' @ turn) Assistant (Some turn)"
        "\<And>m. m \<in> set chat \<Longrightarrow> cm_role m = Assistant \<Longrightarrow> cm_turnId m \<noteq> Some turn"
proof (cases "find (\<lambda>m. cm_role m = Assistant \<and> cm_turnId m = Some turn) chat")
  case None
  then show ?thesis using find_NoneD[OF None] by (intro fresh) (auto simp: assistantForTurn_def or_else_def)
next
  case (Some m)
  then show ?thesis using find_SomeD[OF Some] by (intro found) (auto simp: assistantForTurn_def or_else_def)
qed

lemma assistantForTurn_tools: "log_ok chat \<Longrightarrow> distinct (tool_ids (cm_parts (assistantForTurn chat turn)))"
  by (cases rule: assistantForTurn_cases[of chat turn]) (simp_all add: log_okD)

lemma assistantForTurn_turn:
  "assistantForTurn chat turn \<in> set chat \<or> turn_free (set chat) (assistantForTurn chat turn)"
  by (cases rule: assistantForTurn_cases[of chat turn]) (auto simp: turn_free_def same_turn_def)

lemma same_turn_settled [simp]: "same_turn (settled b r t) m = same_turn b m"
  by (simp add: settled_def)

lemma settled_simps [simp]:
  "cm_id (settled b r t) = cm_id b" "cm_role (settled b r t) = cm_role b" "cm_turnId (settled b r t) = cm_turnId b"
  "tool_ids (cm_parts (settled b r t)) = tool_ids (cm_parts b)"
  by (simp_all add: settled_def)

lemma has_status_settled: "has_status t (settled b r u) \<longleftrightarrow> t = (if r = ''end_turn'' then ''complete'' else ''incomplete'')"
  by (auto simp: settled_def has_status_def settle_status_def)

lemma not_running_settled [simp]: "\<not> running (settled b r t)"
  by (simp add: running_def has_status_settled)

lemma settle_ok:
  assumes "log_ok chat"
  shows "log_ok (settleLog chat reason failed stopped turn)"
proof -
  let ?b = "assistantForTurn chat turn"
  have same: "same_turn ?b m \<or> turn_free (set chat) ?b" if "m \<in> set chat" "cm_id m = cm_id ?b" for m
    using that assistantForTurn_turn[of chat turn] log_okD(1)[OF assms] by (metis distinct_map inj_onD same_turn_refl)
  have free: "turn_free (set chat) ?b" if "\<forall>m \<in> set chat. cm_id m \<noteq> cm_id ?b"
    using that assistantForTurn_turn[of chat turn] by blast
  have turn: "turn_free (set chat) (settled ?b reason t) = turn_free (set chat) ?b" for t
    by (rule turn_free_cong) simp
  show ?thesis
    using assms assistantForTurn_tools[OF assms, of turn] same free
    by (auto simp: settleLog_def Let_def findIndex_none not_le turn intro!: log_ok_index log_ok_insertAssistant)
qed

lemma fold_state_ok:
  assumes "log_ok chat"
  shows "log_ok (fold_state chat state failed stopped)"
proof -
  have "log_ok (upsert_assistant chat base (base\<lparr>cm_hasReadableMessage := False, cm_status := s\<rparr>))"
    if "distinct (tool_ids (cm_parts base))" "(base \<in> set chat \<and> running base) \<or> filter running chat = []"
      "base \<in> set chat \<or> turn_free (set chat) base" for base s
    using that assms turn_free_cong[of "base\<lparr>cm_hasReadableMessage := False, cm_status := s\<rparr>" base "set chat"]
    by (intro log_ok_upsert) auto
  moreover have "distinct (tool_ids (cm_parts f)) \<and> f \<in> set chat \<and> running f" if "foreground_of chat = Some f" for f
    using foreground_running[OF that] log_okD(2)[OF assms] by blast
  ultimately show ?thesis
    using assms assistantForTurn_tools[OF assms] assistantForTurn_turn[of chat]
    by (auto simp: fold_state_def settle_ok foreground_none split: session_state.splits option.splits)
qed

lemma fold_tool_ok:
  assumes "log_ok chat"
  shows "log_ok (fold_tool chat i update)"
proof -
  have "log_ok (upsert_assistant chat base
      (base\<lparr>cm_parts := upsertToolPart (cm_parts base) u True, cm_hasReadableMessage := False\<rparr>))" if "base \<in> set chat" for base u
    using that assms by (intro log_ok_upsert) (auto simp: distinct_tool_ids_upsert log_okD running_def has_status_def)
  then show ?thesis
    using assms by (auto simp: fold_tool_def split: option.splits dest: foreground_running find_SomeD)
qed


lemma log_ok_filter: "log_ok chat \<Longrightarrow> log_ok (filter P chat)"
proof -
  have "length (filter running (filter P chat)) \<le> length (filter running chat)" by (induction chat) auto
  then show "log_ok chat \<Longrightarrow> log_ok (filter P chat)"
    by (auto simp: log_ok_def distinct_map_filter elim: turns_ok_mono)
qed

lemma log_ok_append:
  assumes "log_ok chat" "cm_id m \<notin> cm_id ` set chat" "distinct (tool_ids (cm_parts m))" "running m \<Longrightarrow> filter running chat = []"
    "turn_free (set chat) m"
  shows "log_ok (chat @ [m])"
  using log_ok_insert[of chat "[]" m] assms by simp

lemma running_unique:
  assumes "log_ok chat" "a \<in> set chat" "b \<in> set chat" "running a" "running b"
  shows "cm_id a = cm_id b"
proof -
  have "a \<in> set (filter running chat)" "b \<in> set (filter running chat)" using assms by auto
  then show ?thesis using log_okD(3)[OF assms(1)] by (cases "filter running chat") auto
qed

lemma place_message_ok:
  assumes "log_ok chat" "cm_id next = cm_id base" "distinct (tool_ids (cm_parts next))" "running next = running base"
    and "base \<in> set chat \<or> \<not> running base \<and> turn_free (set chat) next" "same_turn next base"
  shows "log_ok (if c \<and> base \<in> set chat then filter (\<lambda>m. cm_id m \<noteq> cm_id base) chat @ [next]
           else if 0 \<le> findIndex (\<lambda>m. cm_id m = cm_id base) chat
           then chat[nat (findIndex (\<lambda>m. cm_id m = cm_id base) chat) := next]
           else if a then insertAssistant chat next else take n chat @ next # drop n chat)"
proof -
  have here: "m = base" if "m \<in> set chat" "cm_id m = cm_id base" "base \<in> set chat" for m
    using that log_okD(1)[OF assms(1)] by (meson distinct_map inj_onD)
  have moved: "log_ok (filter (\<lambda>m. cm_id m \<noteq> cm_id base) chat @ [next])" if "base \<in> set chat"
  proof (rule log_ok_append[OF log_ok_filter[OF assms(1)] _ assms(3)])
    show "cm_id next \<notin> cm_id ` set (filter (\<lambda>m. cm_id m \<noteq> cm_id base) chat)" using assms(2) by auto
    show "filter running (filter (\<lambda>m. cm_id m \<noteq> cm_id base) chat) = []" if "running next"
      using running_unique[OF assms(1) \<open>base \<in> set chat\<close>] assms(4) that by (auto simp: filter_empty_conv)
    show "turn_free (set (filter (\<lambda>m. cm_id m \<noteq> cm_id base) chat)) next"
      using that turns_okD[OF log_okD(4)[OF assms(1)]] same_turn_answers[OF assms(6)] by (auto simp: turn_free_iff)
  qed
  have kept: "log_ok (chat[nat (findIndex (\<lambda>m. cm_id m = cm_id base) chat) := next])"
    if "0 \<le> findIndex (\<lambda>m. cm_id m = cm_id base) chat"
    using assms that here by (intro log_ok_index) auto
  have added: "log_ok (insertAssistant chat next)" "log_ok (take n chat @ next # drop n chat)"
    if "\<not> 0 \<le> findIndex (\<lambda>m. cm_id m = cm_id base) chat"
  proof -
    have new: "cm_id next \<notin> cm_id ` set chat" "\<not> running next" "turn_free (set chat) next"
      using that assms(2,4,5) by (auto simp: findIndex_none not_le)
    show "log_ok (insertAssistant chat next)" using new assms by (intro log_ok_insertAssistant) auto
    show "log_ok (take n chat @ next # drop n chat)" using new assms by (intro log_ok_insert) (simp_all del: set_append)
  qed
  show ?thesis using moved kept added by simp
qed


definition folded_message :: "chat_message \<Rightarrow> message_kind \<Rightarrow> string \<Rightarrow> message_payload \<Rightarrow> chat_message" where
  "folded_message base kind mid payload =
     base\<lparr>cm_optimistic := False, cm_parts := payload_parts (if cm_optimistic base then [] else cm_parts base) kind mid payload,
          cm_hasReadableMessage := (if kind = UserKind then cm_hasReadableMessage base else readable kind payload)\<rparr>"

lemma folded_message_simps [simp]:
  "cm_id (folded_message b k mid p) = cm_id b" "cm_role (folded_message b k mid p) = cm_role b"
  "cm_status (folded_message b k mid p) = cm_status b" "cm_turnId (folded_message b k mid p) = cm_turnId b"
  "cm_optimistic (folded_message b k mid p) = False" "running (folded_message b k mid p) = running b"
  by (simp_all add: folded_message_def running_def has_status_def)

lemma folded_message_tools:
  "distinct (tool_ids (cm_parts b)) \<Longrightarrow> distinct (tool_ids (cm_parts (folded_message b k mid p)))"
  by (simp add: folded_message_def tool_ids_payload)

definition message_base :: "log \<Rightarrow> message_kind \<Rightarrow> string \<Rightarrow> chat_message option" where
  "message_base chat kind mid =
     (if kind = UserKind then Some (or_else (find (\<lambda>m. cm_id m = mid) chat) (new_message mid User None))
      else case foreground_of chat of
             Some f \<Rightarrow> Some f
           | None \<Rightarrow> find (\<lambda>m. cm_role m = Assistant \<and> list_ex (\<lambda>part. part_messageId part = Some mid) (cm_parts m)) chat)"

lemma message_base_cases:
  assumes "message_base chat kind mid = Some base"
  obtains "base \<in> set chat" | "kind = UserKind" "base = new_message mid User None" "mid \<notin> cm_id ` set chat"
proof (cases "base \<in> set chat")
  case False
  then have "kind = UserKind \<and> find (\<lambda>m. cm_id m = mid) chat = None \<and> base = new_message mid User None"
    using assms by (auto simp: message_base_def or_else_def split: if_splits option.splits dest: find_SomeD foreground_running)
  then show ?thesis using that(2) find_NoneD[of "\<lambda>m. cm_id m = mid" chat] by auto
qed (use that in blast)

lemma fold_message_base:
  "fold_message chat kind mid payload =
     (case message_base chat kind mid of
        None \<Rightarrow> chat
      | Some base \<Rightarrow>
          (let next = folded_message base kind mid payload; index = findIndex (\<lambda>m. cm_id m = cm_id base) chat
           in if kind = UserKind \<and> cm_optimistic base then filter (\<lambda>m. cm_id m \<noteq> cm_id base) chat @ [next]
              else if index \<ge> 0 then chat[nat index := next]
              else if kind \<noteq> UserKind then insertAssistant chat next
              else (let assistant = findIndex (\<lambda>m. cm_turnId m = Some mid) chat
                    in if assistant < 0 then chat @ [next] else take (nat assistant) chat @ next # drop (nat assistant) chat)))"
  by (simp only: fold_message_def message_base_def folded_message_def Let_def)

lemma fold_message_ok:
  assumes "log_ok chat"
  shows "log_ok (fold_message chat kind mid payload)"
proof (cases "message_base chat kind mid")
  case (Some base)
  let ?next = "folded_message base kind mid payload"
  have tools: "distinct (tool_ids (cm_parts ?next))"
    using log_okD(2)[OF assms] by (cases rule: message_base_cases[OF Some]) (auto intro!: folded_message_tools)
  have turn: "same_turn ?next base" by (simp add: same_turn_def)
  have place: "base \<in> set chat \<or> \<not> running base \<and> turn_free (set chat) ?next"
    by (cases rule: message_base_cases[OF Some]) (auto simp: turn_free_def)
  have opt: "base \<in> set chat" if "cm_optimistic base"
    using that by (cases rule: message_base_cases[OF Some]) auto
  note ok = place_message_ok[OF assms folded_message_simps(1) tools folded_message_simps(6) place turn]
  show ?thesis
    unfolding fold_message_base Some option.case Let_def
    using ok[of "cm_optimistic base" True 0] ok[of False True 0] ok[of False False "length chat"]
      ok[of False False "nat (findIndex (\<lambda>m. cm_turnId m = Some mid) chat)"] opt
    by (auto split: if_split_asm)
qed (simp add: fold_message_base assms)

lemma foldV2_ok: "log_ok chat \<Longrightarrow> log_ok (foldV2 chat update failed stopped)"
  by (auto simp: foldV2_def fold_state_ok fold_message_ok fold_tool_ok split: v2_update.splits)

lemma log_ok_map:
  assumes "log_ok chat" "\<And>m. cm_parts (f m) = cm_parts m \<and> running (f m) = running m \<and> same_turn (f m) m"
    and "distinct (map cm_id (map f chat))"
  shows "log_ok (map f chat)"
proof -
  have "filter running (map f chat) = map f (filter running chat)"
    using assms(2) by (induction chat) auto
  then show ?thesis using assms by (auto simp: log_ok_def intro!: turns_ok_image)
qed

lemma log_ok_map_id:
  assumes "log_ok chat" "\<And>m. cm_parts (f m) = cm_parts m \<and> running (f m) = running m \<and> cm_id (f m) = cm_id m \<and> same_turn (f m) m"
  shows "log_ok (map f chat)"
  using assms by (intro log_ok_map) (auto simp: comp_def log_okD)

lemma running_update [simp]:
  "running (m\<lparr>cm_sentContext := c\<rparr>) = running m" "running (m\<lparr>cm_id := i\<rparr>) = running m"
  "running (m\<lparr>cm_optimistic := b\<rparr>) = running m" "running (m\<lparr>cm_deliveryFailed := b\<rparr>) = running m"
  "running (m\<lparr>cm_parts := ps\<rparr>) = running m"
  by (simp_all add: running_def has_status_def)

lemma reconcile_ok:
  assumes "log_ok chat"
  shows "log_ok (reconcileUserMessage chat optimistic mid)"
proof (cases "list_ex (\<lambda>m. cm_id m = mid) chat")
  case True
  then show ?thesis
    unfolding reconcileUserMessage_def Let_def
    by (auto intro!: log_ok_map_id log_ok_filter assms split: if_splits)
next
  case False
  have "inj_on (\<lambda>m. cm_id (if cm_id m = optimistic then m\<lparr>cm_id := mid\<rparr> else m)) (set chat)"
    using False log_okD(1)[OF assms] by (auto simp: inj_on_def distinct_map list_ex_iff)
  then have "distinct (map cm_id (map (\<lambda>m. if cm_id m = optimistic then m\<lparr>cm_id := mid\<rparr> else m) chat))"
    using log_okD(1)[OF assms] by (simp add: distinct_map comp_def)
  with False show ?thesis
    by (auto simp: reconcileUserMessage_def intro!: log_ok_map assms split: if_splits)
qed


section \<open>Ids\<close>

definition chat_ids :: "log \<Rightarrow> string set" where
  "chat_ids chat = cm_id ` set chat"

lemma chat_ids_simps [simp]:
  "chat_ids [] = {}" "chat_ids (m # ms) = insert (cm_id m) (chat_ids ms)" "chat_ids (xs @ ys) = chat_ids xs \<union> chat_ids ys"
  by (auto simp: chat_ids_def)

lemma chat_ids_cut: "chat_ids (take n chat) \<subseteq> chat_ids chat" "chat_ids (drop n chat) \<subseteq> chat_ids chat"
  "chat_ids (filter P chat) \<subseteq> chat_ids chat"
  by (auto simp: chat_ids_def dest: in_set_takeD in_set_dropD)

lemma chat_ids_update: "chat_ids (chat[i := m]) \<subseteq> insert (cm_id m) (chat_ids chat)"
  using set_update_subset_insert[of chat i m] by (auto simp: chat_ids_def)

lemma chat_ids_insertAssistant: "chat_ids (insertAssistant chat m) \<subseteq> insert (cm_id m) (chat_ids chat)"
  using chat_ids_cut[of _ chat] by (auto simp: insertAssistant_def Let_def)

lemma chat_ids_replace: "chat_ids (replace_id chat i m) \<subseteq> insert (cm_id m) (chat_ids chat)"
  by (auto simp: replace_id_def chat_ids_def)

lemma chat_ids_upsert: "chat_ids (upsert_assistant chat b m) \<subseteq> insert (cm_id m) (chat_ids chat)"
  using chat_ids_insertAssistant[of chat m] chat_ids_replace[of chat _ m] by (simp add: upsert_assistant_def)

definition assistant_ids :: "string set" where
  "assistant_ids = range (append ''assistant-'')"

lemma assistantForTurn_id: "cm_id (assistantForTurn chat t) \<in> chat_ids chat \<union> assistant_ids"
  by (cases rule: assistantForTurn_cases[of chat t]) (auto simp: chat_ids_def assistant_ids_def)

lemma foreground_id: "foreground_of chat = Some f \<Longrightarrow> cm_id f \<in> chat_ids chat"
  by (auto simp: chat_ids_def dest: foreground_running)

lemma chat_ids_settle: "chat_ids (settleLog chat r f s t) \<subseteq> chat_ids chat \<union> assistant_ids"
proof -
  note i = assistantForTurn_id[of chat t]
  note u = chat_ids_update[of chat _ "settled (assistantForTurn chat t) r x" for x]
    chat_ids_insertAssistant[of chat "settled (assistantForTurn chat t) r x" for x]
  show ?thesis unfolding settleLog_def Let_def using i u by (auto split: if_split_asm) blast+
qed

lemma chat_ids_fold_state: "chat_ids (fold_state chat st f s) \<subseteq> chat_ids chat \<union> assistant_ids"
proof -
  have run: "chat_ids (upsert_assistant chat b (b\<lparr>cm_hasReadableMessage := x, cm_status := y\<rparr>)) \<subseteq> chat_ids chat \<union> assistant_ids"
    if "cm_id b \<in> chat_ids chat \<union> assistant_ids" for b x y
    using chat_ids_upsert[of chat b "b\<lparr>cm_hasReadableMessage := x, cm_status := y\<rparr>"] that by auto
  show ?thesis
    unfolding fold_state_def
    by (auto split: session_state.split option.split dest: foreground_id
        dest!: run[THEN subsetD, rotated] chat_ids_settle[THEN subsetD]) (use assistantForTurn_id in blast)+
qed


lemma chat_ids_fold_message: "chat_ids (fold_message chat kind mid payload) \<subseteq> insert mid (chat_ids chat)"
proof (cases "message_base chat kind mid")
  case (Some base)
  let ?next = "folded_message base kind mid payload"
  have i: "cm_id ?next \<in> insert mid (chat_ids chat)"
    by (cases rule: message_base_cases[OF Some]) (auto simp: chat_ids_def)
  show ?thesis
    unfolding fold_message_base Some option.case Let_def
    using i chat_ids_update[of chat _ ?next] chat_ids_insertAssistant[of chat ?next] chat_ids_cut[of _ chat] by (auto; blast)
qed (auto simp: fold_message_base)

lemma chat_ids_fold_tool: "chat_ids (fold_tool chat i u) \<subseteq> chat_ids chat"
proof (cases "case foreground_of chat of Some f \<Rightarrow> Some f
    | None \<Rightarrow> find (\<lambda>m. cm_role m = Assistant \<and> list_ex (is_tool i) (cm_parts m)) chat")
  case (Some b)
  then have "b \<in> set chat" by (auto split: option.splits dest: foreground_running find_SomeD)
  then have "chat_ids (upsert_assistant chat b (b\<lparr>cm_parts := x, cm_hasReadableMessage := y\<rparr>)) \<subseteq> chat_ids chat" for x y
    using chat_ids_upsert[of chat b "b\<lparr>cm_parts := x, cm_hasReadableMessage := y\<rparr>"] by (auto simp: chat_ids_def)
  then show ?thesis unfolding fold_tool_def Some by simp
next
  case None
  show ?thesis unfolding fold_tool_def None by simp
qed

text \<open>The ids an update may introduce: the id the server gave a message, or the id of the turn's assistant.\<close>

definition update_ids :: "v2_update \<Rightarrow> string set" where
  "update_ids update = assistant_ids \<union> (case update of MessageUpdate _ mid _ \<Rightarrow> {mid} | _ \<Rightarrow> {})"

lemma chat_ids_foldV2: "chat_ids (foldV2 chat update f s) \<subseteq> chat_ids chat \<union> update_ids update"
proof (cases update)
  case (StateUpdate st)
  then show ?thesis using chat_ids_fold_state by (auto simp: foldV2_def update_ids_def)
next
  case (MessageUpdate k mid p)
  then show ?thesis using chat_ids_fold_message[of chat k mid p] by (auto simp: foldV2_def update_ids_def)
next
  case (ToolCallUpdate u)
  then show ?thesis using chat_ids_fold_tool by (auto simp: foldV2_def update_ids_def)
next
  case (ToolCallContentChunk i c)
  then show ?thesis using chat_ids_fold_tool[of chat i] by (auto simp: foldV2_def update_ids_def)
qed (auto simp: foldV2_def)

lemma chat_ids_reconcile: "chat_ids (reconcileUserMessage chat oid mid) \<subseteq> insert mid (chat_ids chat)"
  by (auto simp: reconcileUserMessage_def Let_def chat_ids_def)


end
