(* ===== verification/AcpClaims.thy ===== *)
theory AcpClaims
  imports AcpFacts
begin

text \<open>
  What the transcript of the agent chat guarantees: the invariant of every reachable session, the
  end of a turn, streamed text, tool calls, and the independence of the echo order.
\<close>

section \<open>Sessions\<close>

definition local_ok :: "nat \<Rightarrow> string set \<Rightarrow> bool" where
  "local_ok n ids \<longleftrightarrow> (\<forall>i \<in> ids. startsWith i ''user-local-'' \<longrightarrow> (\<exists>k \<le> n. i = local_id k))"

text \<open>The steps of a version 2 session. Ids made by the server do not have the form of local ids.\<close>

inductive session_step :: "acp_session \<Rightarrow> acp_session \<Rightarrow> bool" where
  send: "session_step s (send_prompt s parts)"
    if "distinct (tool_ids parts)"
| refuse: "session_step s (refuse_prompt s parts)"
    if "distinct (tool_ids parts)"
| note_v2: "session_step s (s\<lparr>ses_chat := foldIntoLog (ses_chat s) (NoteV2 update) failed stopped\<rparr>)"
    if "\<forall>i \<in> update_ids update. \<not> startsWith i ''user-local-''"
| accepted: "session_step s (s\<lparr>ses_chat := reconcileUserMessage (ses_chat s) (local_id n) mid\<rparr>)"
    if "\<not> startsWith mid ''user-local-''"
| stopped_turn: "session_step s (s\<lparr>ses_chat := settleLog (ses_chat s) reason failed stopped (local_id n)\<rparr>)"
| carried: "session_step s (s\<lparr>ses_chat := mark_context (ses_chat s) (local_id n) c\<rparr>)"
| undelivered: "session_step s (s\<lparr>ses_chat := fail_delivery (ses_chat s) (local_id n)\<rparr>)"

definition session_ok :: "acp_session \<Rightarrow> bool" where
  "session_ok s \<longleftrightarrow> log_ok (ses_chat s) \<and> local_ok (ses_counter s) (chat_ids (ses_chat s))"

lemma local_ok_mono: "local_ok n A \<Longrightarrow> B \<subseteq> A \<union> C \<Longrightarrow> \<forall>i \<in> C. \<not> startsWith i ''user-local-'' \<Longrightarrow> local_ok n B"
  unfolding local_ok_def by blast

lemma assistant_not_local: "i \<in> assistant_ids \<Longrightarrow> \<not> startsWith i ''user-local-''"
  by (auto simp: assistant_ids_def startsWith_def)

lemma local_id_inj: "local_id m = local_id n \<Longrightarrow> m = n"
  by (simp add: local_id_def nat_str_inj)

lemma local_id_new: "local_ok n ids \<Longrightarrow> local_id (Suc n) \<notin> ids"
  using local_id_inj by (fastforce simp: local_ok_def startsWith_def local_id_def)

lemma local_ok_insert:
  assumes "local_ok n ids"
  shows "local_ok (n + 1) (insert (local_id (n + 1)) ids)"
  unfolding local_ok_def
proof (intro ballI impI)
  fix i assume i: "i \<in> insert (local_id (n + 1)) ids" "startsWith i ''user-local-''"
  show "\<exists>k \<le> n + 1. i = local_id k"
  proof (cases "i = local_id (n + 1)")
    case False
    then obtain k where "k \<le> n" "i = local_id k" using i assms unfolding local_ok_def by blast
    then show ?thesis by (intro exI[of _ k]) simp
  qed blast
qed

lemma chat_ids_map_id: "(\<And>m. cm_id (f m) = cm_id m) \<Longrightarrow> chat_ids (map f chat) = chat_ids chat"
  by (induction chat) auto

lemma echo_simps [simp]:
  "cm_id (echo_message n parts) = local_id n" "cm_parts (echo_message n parts) = parts" "cm_role (echo_message n parts) = User"
  by (simp_all add: echo_message_def)

lemma append_echo_ok:
  assumes "session_ok s" "distinct (tool_ids parts)" "cm_id m = local_id (ses_counter s + 1)" "cm_parts m = parts" "cm_role m = User"
  shows "session_ok (s\<lparr>ses_counter := ses_counter s + 1, ses_chat := (if c then ses_chat s else ses_chat s @ [m])\<rparr>)"
proof -
  have "cm_id m \<notin> cm_id ` set (ses_chat s)"
    using local_id_new[of "ses_counter s" "chat_ids (ses_chat s)"] assms(1,3) by (simp add: session_ok_def chat_ids_def)
  then have "log_ok (ses_chat s @ [m])"
    using assms by (intro log_ok_append) (auto simp: session_ok_def running_def turn_free_def)
  moreover have "local_ok (ses_counter s + 1) (insert (cm_id m) (chat_ids (ses_chat s)))"
    using local_ok_insert assms(1,3) by (simp add: session_ok_def)
  then have "local_ok (ses_counter s + 1) (chat_ids (ses_chat s))" "local_ok (ses_counter s + 1) (chat_ids (ses_chat s @ [m]))"
    by (auto simp: local_ok_def)
  ultimately show ?thesis using assms(1) by (simp add: session_ok_def)
qed

lemma session_chat_ok:
  assumes "session_ok s" "log_ok chat" "chat_ids chat \<subseteq> chat_ids (ses_chat s) \<union> new" "\<forall>i \<in> new. \<not> startsWith i ''user-local-''"
  shows "session_ok (s\<lparr>ses_chat := chat\<rparr>)"
  using assms local_ok_mono[of "ses_counter s" "chat_ids (ses_chat s)" "chat_ids chat" new] by (simp add: session_ok_def)

lemma session_step_ok: "session_step s t \<Longrightarrow> session_ok s \<Longrightarrow> session_ok t"
proof (induction rule: session_step.induct)
  case (send parts s)
  then show ?case unfolding send_prompt_def Let_def by (intro append_echo_ok) simp_all
next
  case (refuse parts s)
  then show ?case unfolding refuse_prompt_def Let_def by (intro append_echo_ok) simp_all
next
  case (note_v2 update s failed stopped)
  then show ?case
    using chat_ids_foldV2[of "ses_chat s" update failed stopped]
    by (intro session_chat_ok[where new = "update_ids update"]) (auto simp: foldIntoLog_def session_ok_def foldV2_ok)
next
  case (accepted mid s n)
  then show ?case
    using chat_ids_reconcile[of "ses_chat s" "local_id n" mid]
    by (intro session_chat_ok[where new = "{mid}"]) (auto simp: session_ok_def reconcile_ok)
next
  case (stopped_turn s reason failed stopped n)
  then show ?case
    using chat_ids_settle by (intro session_chat_ok[where new = assistant_ids]) (auto simp: session_ok_def settle_ok assistant_not_local)
next
  case (carried s n c)
  then show ?case
    by (intro session_chat_ok[where new = "{}"])
      (auto simp: session_ok_def mark_context_def chat_ids_map_id intro!: log_ok_map_id split: if_splits)
next
  case (undelivered s n)
  then show ?case
    by (intro session_chat_ok[where new = "{}"])
      (auto simp: session_ok_def fail_delivery_def chat_ids_map_id intro!: log_ok_map_id split: if_splits)
qed




section \<open>The end of a turn\<close>

lemma foreground_unique:
  assumes "log_ok chat" "f \<in> set chat" "running f"
  shows "foreground_of chat = Some f"
proof -
  obtain g where g: "foreground_of chat = Some g"
    using assms(2,3) foreground_none[of chat] by (cases "foreground_of chat") (auto simp: filter_empty_conv)
  then have "g = f"
    using foreground_running[OF g] running_unique[OF assms(1) _ assms(2) _ assms(3)] log_okD(1)[OF assms(1)] assms(2)
    by (metis distinct_map inj_onD)
  with g show ?thesis by simp
qed

lemma assistantForTurn_unique:
  assumes "log_ok chat" "f \<in> set chat" "answers t f"
  shows "assistantForTurn chat t = f"
proof (cases rule: assistantForTurn_cases[of chat t])
  case found
  then show ?thesis using turns_okD[OF log_okD(4)[OF assms(1)], of t _ f] assms(2,3) by (simp add: answers_def)
next
  case fresh
  then show ?thesis using assms(2,3) by (auto simp: answers_def)
qed

text \<open>The position of a message of the log.\<close>

lemma message_index:
  assumes "distinct (map cm_id chat)" "f \<in> set chat"
  obtains i where "i < length chat" "chat ! i = f" "findIndex (\<lambda>m. cm_id m = cm_id f) chat = int i"
proof -
  obtain us p vs where s: "chat = us @ p # vs" "cm_id p = cm_id f" "findIndex (\<lambda>m. cm_id m = cm_id f) chat = int (length us)"
    using findIndex_split[OF assms(2), of "\<lambda>m. cm_id m = cm_id f"] by auto
  then have "p = f" using assms by (metis distinct_map inj_onD in_set_conv_decomp)
  with s show ?thesis by (intro that[of "length us"]) auto
qed

lemma settle_running:
  assumes "log_ok chat" "f \<in> set chat" "answers t f" "running f"
  obtains i where "i < length chat" "chat ! i = f"
    "settleLog chat reason failed stopped t = chat[i := settled f reason (settle_text f reason failed stopped)]"
proof -
  have "\<not> has_status ''complete'' f" "\<not> has_status ''incomplete'' f"
    using assms(4) by (auto simp: running_def has_status_def split: option.splits)
  moreover obtain i where "i < length chat" "chat ! i = f" "findIndex (\<lambda>m. cm_id m = cm_id f) chat = int i"
    using message_index[OF log_okD(1)[OF assms(1)] assms(2)] .
  ultimately show ?thesis
    using that[of i] assistantForTurn_unique[OF assms(1-3)] by (simp add: settleLog_def Let_def)
qed

text \<open>
  C15: when the agent reports idle with a stop reason, the running turn ends: no message is left
  running, the turn's message is complete exactly when the agent ended its turn and incomplete
  otherwise, every other message is unchanged, and settling the turn again changes nothing.
\<close>

theorem idle_settles_turn:
  assumes "log_ok chat" "f \<in> set chat" "running f" "cm_turnId f = Some t" "t \<noteq> []" "reason \<noteq> []"
  shows "\<exists>i f'. i < length chat \<and> chat ! i = f \<and>
     foldV2 chat (StateUpdate (Idle (Some reason))) failed stopped = chat[i := f'] \<and>
     foreground_of (chat[i := f']) = None \<and> cm_id f' = cm_id f \<and>
     has_status ''complete'' f' = (reason = ''end_turn'') \<and> has_status ''incomplete'' f' = (reason \<noteq> ''end_turn'') \<and>
     settleLog (chat[i := f']) reason' failed stopped t = chat[i := f']"
proof -
  have ans: "answers t f" using assms(3,4) by (simp add: answers_def running_def)
  let ?f = "settled f reason (settle_text f reason failed stopped)"
  obtain i where i: "i < length chat" "chat ! i = f" "settleLog chat reason failed stopped t = chat[i := ?f]"
    using settle_running[OF assms(1,2) ans assms(3)] .
  have fold: "foldV2 chat (StateUpdate (Idle (Some reason))) failed stopped = chat[i := ?f]"
    using foreground_unique[OF assms(1-3)] assms(4-6) i(3) by (simp add: foldV2_def fold_state_def truthy_string_def)
  have ok: "log_ok (chat[i := ?f])" using settle_ok[OF assms(1), of reason failed stopped t] i(3) by simp
  have ins: "?f \<in> set (chat[i := ?f])" using i(1) by (simp add: set_update_memI)
  have "foreground_of (chat[i := ?f]) = None"
  proof (rule ccontr)
    assume "foreground_of (chat[i := ?f]) \<noteq> None"
    then obtain g where g: "g \<in> set (chat[i := ?f])" "running g" using foreground_running by (meson not_None_eq)
    then have "g \<in> set chat" using not_running_settled set_update_subset_insert[of chat i ?f] by blast
    then have "cm_id g = cm_id ?f" using running_unique[OF assms(1) _ assms(2) g(2) assms(3)] by simp
    then have "g = ?f" using log_okD(1)[OF ok] g(1) ins by (metis distinct_map inj_onD)
    then show False using g(2) by simp
  qed
  moreover have "assistantForTurn (chat[i := ?f]) t = ?f"
    by (rule assistantForTurn_unique[OF ok ins]) (use ans in \<open>simp add: answers_def\<close>)
  then have "settleLog (chat[i := ?f]) reason' failed stopped t = chat[i := ?f]"
    by (simp add: settleLog_def Let_def has_status_settled)
  ultimately show ?thesis using i(1,2) fold by (intro exI[of _ i] exI[of _ ?f]) (simp add: has_status_settled)
qed

definition sample_running :: chat_message where
  "sample_running = (new_message ''a1'' Assistant (Some ''u1''))\<lparr>cm_status := Some (MessageStatus ''running'' None)\<rparr>"

lemma sample_running_ok: "log_ok [sample_running]" "running sample_running" "cm_turnId sample_running = Some ''u1''"
  by (simp_all add: log_ok_def sample_running_def running_def has_status_def turns_ok_def)

theorem idle_settles_turn_witness:
  "\<exists>i f'. i < 1 \<and> foldV2 [sample_running] (StateUpdate (Idle (Some ''end_turn''))) ''failed'' ''stopped'' = [sample_running][i := f'] \<and>
     has_status ''complete'' f'"
  using idle_settles_turn[of "[sample_running]" sample_running "''u1''" "''end_turn''" "''failed''" "''stopped''"] sample_running_ok
  by auto



section \<open>Streamed text\<close>

text \<open>The text of one kind that a message shows for a message id of the agent.\<close>

definition shown_text :: "bool \<Rightarrow> string \<Rightarrow> chat_part list \<Rightarrow> string" where
  "shown_text thought mid parts = concat (map (\<lambda>p. or_else (run_text thought (Some mid) p) []) parts)"

lemma shown_text_append [simp]: "shown_text k m (ps @ qs) = shown_text k m ps @ shown_text k m qs"
  by (simp add: shown_text_def)

lemma shown_text_single: "shown_text k m [mk_text k' t (Some m')] = (if k = k' \<and> m = m' then t else [])"
  by (auto simp: shown_text_def mk_text_def run_text_def or_else_def)

lemma run_textD: "run_text k' (Some m') p = Some t \<Longrightarrow> p = mk_text k' t (Some m')"
  by (cases p) (auto simp: run_text_def mk_text_def split: if_splits)

lemma shown_text_appendText:
  assumes "m' \<noteq> []"
  shows "shown_text k m (appendText parts k' t (Some m')) = shown_text k m parts @ (if k = k' \<and> m = m' then t else [])"
proof (cases "if parts = [] then None else run_text k' (Some m') (last parts)")
  case None
  then show ?thesis using assms by (simp add: appendText_def truthy_string_def shown_text_single)
next
  case (Some before)
  then have "parts \<noteq> []" "last parts = mk_text k' before (Some m')"
    using run_textD[of k' m' "last parts" before] by (auto split: if_splits)
  then obtain ps where "parts = ps @ [mk_text k' before (Some m')]" by (metis append_butlast_last_id)
  with Some show ?thesis by (simp add: appendText_def shown_text_single)
qed

definition chunk_update :: "bool \<times> string \<times> string \<Rightarrow> v2_update" where
  "chunk_update = (\<lambda>(thought, mid, text). MessageUpdate (if thought then ThoughtKind else AgentKind) mid (Chunk (TextBlock text)))"

definition stream_chunks :: "log \<Rightarrow> (bool \<times> string \<times> string) list \<Rightarrow> string \<Rightarrow> string \<Rightarrow> log" where
  "stream_chunks chat chunks failed stopped = foldl (\<lambda>c u. foldV2 c (chunk_update u) failed stopped) chat chunks"

lemma stream_step:
  assumes "log_ok chat" "i < length chat" "running (chat ! i)" "\<not> cm_optimistic (chat ! i)" "mid \<noteq> []"
  shows "\<exists>f'. foldV2 chat (chunk_update (thought, mid, text)) failed stopped = chat[i := f'] \<and> log_ok (chat[i := f']) \<and>
     running f' \<and> \<not> cm_optimistic f' \<and> cm_parts f' = appendText (cm_parts (chat ! i)) thought text (Some mid)"
proof -
  let ?k = "if thought then ThoughtKind else AgentKind"
  let ?f = "folded_message (chat ! i) ?k mid (Chunk (TextBlock text))"
  have base: "message_base chat ?k mid = Some (chat ! i)"
    using foreground_unique[OF assms(1) nth_mem[OF assms(2)] assms(3)] by (simp add: message_base_def)
  obtain j where j: "j < length chat" "chat ! j = chat ! i" "findIndex (\<lambda>m. cm_id m = cm_id (chat ! i)) chat = int j"
    using message_index[OF log_okD(1)[OF assms(1)] nth_mem[OF assms(2)]] .
  then have "j = i" using log_okD(1)[OF assms(1)] assms(2) by (metis distinct_map nth_eq_iff_index_eq)
  then have "fold_message chat ?k mid (Chunk (TextBlock text)) = chat[i := ?f]"
    using base j(3) by (simp add: fold_message_base)
  moreover from this have "log_ok (chat[i := ?f])" using fold_message_ok[OF assms(1)] by metis
  moreover have "cm_parts ?f = appendText (cm_parts (chat ! i)) thought text (Some mid)"
    using assms(4) by (simp add: folded_message_def payload_parts_def)
  ultimately show ?thesis using assms(3) by (intro exI[of _ ?f]) (simp add: foldV2_def chunk_update_def)
qed

text \<open>
  While a turn runs, streamed chunks of text and thought go to its message and to no other,
  and what the message shows for each kind and message id is what it showed before followed by
  the chunks of that kind and id in the order of arrival.
\<close>

theorem stream_chunks_text:
  assumes "log_ok chat" "i < length chat" "running (chat ! i)" "\<not> cm_optimistic (chat ! i)"
    and "\<forall>(thought, mid, text) \<in> set chunks. mid \<noteq> []"
  shows "\<exists>f'. stream_chunks chat chunks failed stopped = chat[i := f'] \<and>
     (\<forall>k m. shown_text k m (cm_parts f') =
        shown_text k m (cm_parts (chat ! i)) @ concat (map (\<lambda>(k', m', t). if k = k' \<and> m = m' then t else []) chunks))"
  using assms
proof (induction chunks arbitrary: chat)
  case Nil
  then show ?case by (intro exI[of _ "chat ! i"]) (simp add: stream_chunks_def)
next
  case (Cons u chunks)
  obtain k' m' t where u: "u = (k', m', t)" by (cases u)
  have m': "m' \<noteq> []" using Cons.prems(5) u by auto
  obtain f' where f': "foldV2 chat (chunk_update u) failed stopped = chat[i := f']" "log_ok (chat[i := f'])" "running f'"
      "\<not> cm_optimistic f'" "cm_parts f' = appendText (cm_parts (chat ! i)) k' t (Some m')"
    using stream_step[OF Cons.prems(1-4) m'] u by metis
  have step: "stream_chunks chat (u # chunks) failed stopped = stream_chunks (chat[i := f']) chunks failed stopped"
    by (simp add: stream_chunks_def f'(1))
  obtain g where "stream_chunks (chat[i := f']) chunks failed stopped = (chat[i := f'])[i := g]"
      "\<forall>k m. shown_text k m (cm_parts g) = shown_text k m (cm_parts f') @
         concat (map (\<lambda>(k', m', t). if k = k' \<and> m = m' then t else []) chunks)"
    using Cons.IH[of "chat[i := f']"] f' Cons.prems(2,5) by auto
  then show ?case
    using step by (intro exI[of _ g]) (simp add: u f'(5) shown_text_appendText[OF m'])
qed

theorem stream_chunks_text_witness:
  "\<exists>f'. stream_chunks [sample_running] [(False, ''m1'', ''Hel''), (True, ''m1'', ''hm''), (False, ''m1'', ''lo'')] [] [] = [f'] \<and>
     shown_text False ''m1'' (cm_parts f') = ''Hello''"
proof -
  obtain f' where "stream_chunks [sample_running] [(False, ''m1'', ''Hel''), (True, ''m1'', ''hm''), (False, ''m1'', ''lo'')] [] [] = [sample_running][0 := f']"
    and shown: "\<forall>k m. shown_text k m (cm_parts f') = shown_text k m (cm_parts ([sample_running] ! 0)) @
      concat (map (\<lambda>(k', m', t). if k = k' \<and> m = m' then t else []) [(False, ''m1'', ''Hel''), (True, ''m1'', ''hm''), (False, ''m1'', ''lo'')])"
    using stream_chunks_text[of "[sample_running]" 0 "[(False, ''m1'', ''Hel''), (True, ''m1'', ''hm''), (False, ''m1'', ''lo'')]" "[]" "[]"]
      sample_running_ok by (auto simp: sample_running_def)
  moreover have "shown_text False ''m1'' (cm_parts f') = ''Hello''"
    using shown[THEN spec, THEN spec, of False "''m1''"] by (simp add: sample_running_def shown_text_def)
  ultimately show ?thesis by auto
qed

section \<open>Tool calls\<close>

lemma find_tool_Cons: "find_tool i (p # ps) = (if is_tool i p then tool_of p else find_tool i ps)"
  by (simp add: find_tool_def)

lemma find_tool_append: "find_tool i (ps @ qs) = (if list_ex (is_tool i) ps then find_tool i ps else find_tool i qs)"
  by (induction ps) (auto simp: find_tool_Cons)

lemma find_tool_none: "\<not> list_ex (is_tool i) ps \<Longrightarrow> find_tool i ps = None"
  by (induction ps) (auto simp: find_tool_Cons find_tool_def)

lemma find_tool_some: "list_ex (is_tool i) ps \<Longrightarrow> find_tool i ps \<noteq> None"
proof (induction ps)
  case (Cons p ps)
  then show ?case by (cases p) (auto simp: find_tool_Cons)
qed simp

lemma find_tool_merge_into:
  "find_tool i (map (merge_into u) parts) =
     (if i = tu_toolCallId u then map_option (\<lambda>t. mergeToolPart (Some t) u) (find_tool i parts) else find_tool i parts)"
proof (induction parts)
  case (Cons p parts)
  then show ?case by (cases p) (auto simp: find_tool_Cons)
qed (simp add: find_tool_def)

text \<open>
  An update of a tool call merges into the call of that id when the message shows one,
  otherwise it adds the call if it may create one, and no other call changes.
\<close>

theorem upsertToolPart_merges:
  "find_tool i (upsertToolPart parts u create) =
     (if i \<noteq> tu_toolCallId u then find_tool i parts
      else case find_tool i parts of
             Some t \<Rightarrow> Some (mergeToolPart (Some t) u)
           | None \<Rightarrow> if create then Some (mergeToolPart None u) else None)"
proof (cases "list_ex (is_tool (tu_toolCallId u)) parts")
  case True
  then show ?thesis using find_tool_some[OF True] by (auto simp: upsertToolPart_def find_tool_merge_into split: option.splits)
next
  case False
  have single: "find_tool j [ToolPart (mergeToolPart None u) None] = (if j = tu_toolCallId u then Some (mergeToolPart None u) else None)" for j
    by (simp add: find_tool_Cons find_tool_def)
  show ?thesis
    using False find_tool_none[OF False] find_tool_none[of i parts] by (auto simp: upsertToolPart_def find_tool_append single)
qed


section \<open>Echo order\<close>

lemma find_id:
  assumes "distinct (map cm_id chat)" "m \<in> set chat"
  shows "find (\<lambda>x. cm_id x = cm_id m) chat = Some m"
  using assms by (induction chat) auto

lemma echo_new:
  assumes "mid \<notin> chat_ids chat" "\<And>m. m \<in> set chat \<Longrightarrow> cm_turnId m \<noteq> Some mid"
  shows "fold_message chat UserKind mid payload = chat @ [folded_message (new_message mid User None) UserKind mid payload]"
proof -
  have "find (\<lambda>m. cm_id m = mid) chat = None" using assms(1) by (auto simp: find_None_iff chat_ids_def)
  moreover have "findIndex (\<lambda>m. cm_id m = mid) chat < 0" "findIndex (\<lambda>m. cm_turnId m = Some mid) chat < 0"
    unfolding findIndex_none using assms by (auto simp: chat_ids_def)
  ultimately show ?thesis by (simp add: fold_message_base message_base_def or_else_def)
qed

text \<open>
  C16: a prompt's log is the same whether the server's echo or the response with the message id
  arrives first.
\<close>

theorem echo_order_independent:
  assumes "log_ok chat" "p \<in> set chat" "oid \<noteq> mid" "mid \<notin> chat_ids chat" "\<forall>m \<in> set chat. cm_turnId m \<noteq> Some mid"
    and "p = (new_message oid User None)\<lparr>cm_optimistic := True, cm_parts := parts, cm_sentContext := c\<rparr>"
  shows "foldV2 (reconcileUserMessage chat oid mid) (MessageUpdate UserKind mid payload) failed stopped =
         reconcileUserMessage (foldV2 chat (MessageUpdate UserKind mid payload) failed stopped) oid mid"
proof -
  have p: "cm_id p = oid" "cm_sentContext p = c" using assms(6) by simp_all
  have find: "find (\<lambda>m. cm_id m = oid) chat = Some p" using find_id[OF log_okD(1)[OF assms(1)] assms(2)] p(1) by simp
  let ?e = "folded_message (new_message mid User None) UserKind mid payload"
  let ?rename = "\<lambda>m. if cm_id m = oid then m\<lparr>cm_id := mid\<rparr> else m"
  let ?rest = "filter (\<lambda>m. cm_id m \<noteq> oid) chat"
  have absent: "\<not> list_ex (\<lambda>m. cm_id m = mid) chat" using assms(4) by (auto simp: list_ex_iff chat_ids_def)
  have renamed: "reconcileUserMessage chat oid mid = map ?rename chat" using absent by (simp add: reconcileUserMessage_def)
  have "find (\<lambda>m. cm_id m = mid) (map ?rename chat) = Some (p\<lparr>cm_id := mid\<rparr>)"
    using find absent p(1) by (induction chat) (auto split: if_splits)
  then have base: "message_base (map ?rename chat) UserKind mid = Some (p\<lparr>cm_id := mid\<rparr>)"
    by (simp add: message_base_def or_else_def)
  have rest: "filter (\<lambda>m. cm_id m \<noteq> mid) (map ?rename chat) = ?rest"
    using absent by (induction chat) auto
  have left: "fold_message (reconcileUserMessage chat oid mid) UserKind mid payload = ?rest @ [folded_message (p\<lparr>cm_id := mid\<rparr>) UserKind mid payload]"
    unfolding renamed fold_message_base base option.case Let_def using rest assms(6) by simp
  have "map (\<lambda>m. if cm_id m = mid \<and> d \<noteq> None then m\<lparr>cm_sentContext := d\<rparr> else m) ?rest = ?rest" for d
    using absent by (induction chat) auto
  moreover have "find (\<lambda>m. cm_id m = oid) (chat @ [?e]) = Some p" using find by (induction chat) (auto split: if_splits)
  then have ctx: "Option.bind (find (\<lambda>m. cm_id m = oid) (chat @ [?e])) cm_sentContext = c" using p(2) by simp
  ultimately have right: "reconcileUserMessage (chat @ [?e]) oid mid = ?rest @ [if c \<noteq> None then ?e\<lparr>cm_sentContext := c\<rparr> else ?e]"
    using assms(3) unfolding reconcileUserMessage_def Let_def ctx by simp
  have "folded_message (p\<lparr>cm_id := mid\<rparr>) UserKind mid payload = (if c \<noteq> None then ?e\<lparr>cm_sentContext := c\<rparr> else ?e)"
    using assms(6) by (cases c) (simp_all add: folded_message_def new_message_def)
  then show ?thesis using left right echo_new[OF assms(4)] assms(5) by (simp add: foldV2_def)
qed

definition sample_prompt :: chat_message where
  "sample_prompt = (new_message ''user-local-1'' User None)\<lparr>cm_optimistic := True, cm_parts := [TextPart ''hi'' None], cm_sentContext := None\<rparr>"

theorem echo_order_independent_witness:
  "foldV2 (reconcileUserMessage [sample_prompt] ''user-local-1'' ''m7'') (MessageUpdate UserKind ''m7'' (Whole (Sent [TextBlock ''hi'']))) [] [] =
   reconcileUserMessage (foldV2 [sample_prompt] (MessageUpdate UserKind ''m7'' (Whole (Sent [TextBlock ''hi'']))) [] []) ''user-local-1'' ''m7''"
  by (rule echo_order_independent[where p = sample_prompt and parts = "[TextPart ''hi'' None]" and c = None])
    (simp_all add: sample_prompt_def log_ok_def turns_ok_def running_def)


end
