(* ===== verification/KeysetFeed.thy ===== *)
theory KeysetFeed
  imports JsValues Positions
begin

text \<open>
  Keyset feeds of \<open>packages/refine/src/dialect/keyset-feed.ts\<close>: pages of history read through
  cursors, refreshed inside their original cuts, and the row list derived from them.

  The reads of the server are parameters. A read takes the number of reads made before it, so that
  answers may change from one request to the next, and may fail, which also stands for an aborted
  request. Where the code only tests a cursor for \<open>null\<close> and \<open>undefined\<close> alike, both are \<open>None\<close>.
\<close>

record keyset_row =
  kr_id :: string

record ('r, 'm) feed_window =
  fw_rows :: "'r list"
  fw_count :: int
  fw_older_cursor :: "string option"
  fw_has_older :: bool
  fw_has_more_in_window :: bool
  fw_has_older_than_through :: bool
  fw_metadata :: 'm
  fw_newer_cursor :: "string option"
  fw_has_newer :: bool
  fw_has_newer_than_before :: bool

datatype feed_cursor = Older string | NullCursor | After string | Start

record 'r feed_revalidation =
  fr_rows :: "'r list"
  fr_absent_ids :: "string list"

record ('r, 'm) feed_page =
  fp_rows :: "'r list"
  fp_through :: "string option"
  fp_hasOlder :: bool
  fp_count :: int
  fp_metadata :: 'm
  fp_before :: "string option"
  fp_newer :: "string option"
  fp_hasNewer :: bool

record ('r, 'm) feed_reads =
  rd_pageSize :: nat
  rd_window :: "nat \<Rightarrow> string option \<Rightarrow> string option \<Rightarrow> nat \<Rightarrow> ('r, 'm) feed_window result"
  rd_revalidate :: "(nat \<Rightarrow> string list \<Rightarrow> 'r feed_revalidation result) option"
  rd_newer :: "(nat \<Rightarrow> string \<Rightarrow> nat \<Rightarrow> ('r, 'm) feed_window result) option"

text \<open>Loaded pages with the cursors they were read with.\<close>

record ('r, 'm) feed_data =
  fd_pageParams :: "feed_cursor list"
  fd_pages :: "('r, 'm) feed_page list"

definition keysetFeedOptions_ok :: "int \<Rightarrow> unit result" where
  "keysetFeedOptions_ok pageSize =
     (if pageSize < 1 \<or> pageSize > 200 then Inl (JsError ''Keyset feed page size must be between 1 and 200.'') else Inr ())"

definition page_ids :: "('r keyset_row_scheme, 'm) feed_page list \<Rightarrow> string list" where
  "page_ids pages = concat (map (\<lambda>p. map kr_id (fp_rows p)) pages)"

definition normal_cursor :: "feed_cursor \<Rightarrow> feed_cursor" where
  "normal_cursor c = (if c = NullCursor then Start else c)"

section \<open>Refreshing a page\<close>

definition collect_fresh :: "string set \<Rightarrow> 'r keyset_row_scheme list \<Rightarrow> 'r keyset_row_scheme list \<Rightarrow> 'r keyset_row_scheme list" where
  "collect_fresh owned fresh rows =
     foldl (\<lambda>acc row. if kr_id row \<notin> owned \<and> kr_id row \<notin> kr_id ` set acc then acc @ [row] else acc) fresh rows"

text \<open>
  The loop over the windows of the page's cut; \<open>None\<close> when the fuel does not suffice. The result
  is the new rows, the first and the last window, and the number of reads.
\<close>

fun walk_windows ::
  "nat \<Rightarrow> (nat \<Rightarrow> string option \<Rightarrow> ('r keyset_row_scheme, 'm) feed_window result) \<Rightarrow> string set \<Rightarrow> nat \<Rightarrow> string option \<Rightarrow>
   string option set \<Rightarrow> 'r keyset_row_scheme list \<Rightarrow> ('r keyset_row_scheme, 'm) feed_window option \<Rightarrow>
   ('r keyset_row_scheme list \<times> ('r keyset_row_scheme, 'm) feed_window \<times> ('r keyset_row_scheme, 'm) feed_window \<times> nat) result option" where
  "walk_windows 0 read owned time before visited fresh first = None"
| "walk_windows (Suc fuel) read owned time before visited fresh first =
     (case read time before of
        Inl e \<Rightarrow> Some (Inl e)
      | Inr page \<Rightarrow>
          (let visited' = insert before visited; first' = or_else first page;
               fresh' = collect_fresh owned fresh (fw_rows page); before' = fw_older_cursor page
           in if fw_has_more_in_window page \<and> (before' = None \<or> before' \<in> visited')
              then Some (Inl (JsError ''Keyset feed returned no advancing window cursor.''))
              else if fw_has_more_in_window page
              then walk_windows fuel read owned (Suc time) before' visited' fresh' (Some first')
              else Some (Inr (fresh', first', page, Suc time))))"

definition partitions :: "string list \<Rightarrow> 'r keyset_row_scheme feed_revalidation \<Rightarrow> bool" where
  "partitions ids answer =
     (let represented = map kr_id (fr_rows answer) @ fr_absent_ids answer
      in length represented = length ids \<and> card (set represented) = length ids \<and> list_all (\<lambda>i. i \<in> set represented) ids)"

text \<open>The ids of the page are checked in batches; the page size is positive.\<close>

function revalidate_ids ::
  "nat \<Rightarrow> (nat \<Rightarrow> string list \<Rightarrow> 'r keyset_row_scheme feed_revalidation result) \<Rightarrow> nat \<Rightarrow> string list \<Rightarrow> 'r keyset_row_scheme list result" where
  "revalidate_ids pageSize check time ids =
     (if ids = [] \<or> pageSize = 0 then Inr []
      else rbind (check time (take pageSize ids)) (\<lambda>answer.
             if \<not> partitions (take pageSize ids) answer
             then Inl (JsError ''Keyset feed revalidation did not partition every requested ID.'')
             else rbind (revalidate_ids pageSize check (Suc time) (drop pageSize ids)) (\<lambda>rest. Inr (fr_rows answer @ rest))))"
  by pat_completeness auto
termination
  by (relation "measure (\<lambda>(pageSize, check, time, ids). length ids)") auto

declare revalidate_ids.simps [simp del]

definition own_ids :: "('r keyset_row_scheme, 'm) feed_data \<Rightarrow> nat \<Rightarrow> ('r keyset_row_scheme, 'm) feed_page \<Rightarrow> string list" where
  "own_ids data index page =
     (let earlier = set (page_ids (take index (fd_pages data)))
      in dedupeBy (filter (\<lambda>i. i \<notin> earlier) (map kr_id (fp_rows page))) (\<lambda>i. i))"

definition is_newer :: "feed_cursor \<Rightarrow> bool" where
  "is_newer param = (case param of After _ \<Rightarrow> True | _ \<Rightarrow> False)"

definition walk_page ::
  "nat \<Rightarrow> ('r keyset_row_scheme, 'm) feed_reads \<Rightarrow> string set \<Rightarrow> ('r keyset_row_scheme, 'm) feed_page \<Rightarrow> feed_cursor \<Rightarrow>
   ('r keyset_row_scheme list \<times> ('r keyset_row_scheme, 'm) feed_window \<times> ('r keyset_row_scheme, 'm) feed_window \<times> nat) result option" where
  "walk_page fuel reads owned oldPage param =
     walk_windows fuel (\<lambda>time b. rd_window reads time b (fp_through oldPage) (rd_pageSize reads)) owned 0
       (if is_newer param then fp_before oldPage else (case param of Older c \<Rightarrow> Some c | _ \<Rightarrow> None)) {} [] None"

definition refresh_page ::
  "nat \<Rightarrow> ('r keyset_row_scheme, 'm) feed_reads \<Rightarrow> (nat \<Rightarrow> string list \<Rightarrow> 'r keyset_row_scheme feed_revalidation result) \<Rightarrow>
   ('r keyset_row_scheme, 'm) feed_data \<Rightarrow> nat \<Rightarrow> ('r keyset_row_scheme, 'm) feed_page \<Rightarrow> feed_cursor \<Rightarrow>
   ('r keyset_row_scheme, 'm) feed_page result option" where
  "refresh_page fuel reads check data index oldPage param =
     map_option (\<lambda>walked. rbind walked (\<lambda>(fresh, first, page, time).
       rbind (revalidate_ids (rd_pageSize reads) check time (own_ids data index oldPage)) (\<lambda>survivors. Inr
         \<lparr>fp_rows = survivors @ fresh, fp_through = fp_through oldPage, fp_hasOlder = fw_has_older_than_through page,
          fp_count = fw_count page, fp_metadata = fw_metadata page, fp_before = fp_before oldPage,
          fp_newer = (if is_newer param then fp_newer oldPage else fw_newer_cursor first),
          fp_hasNewer = (if is_newer param then fw_has_newer_than_before first else fw_has_newer first)\<rparr>)))
     (walk_page fuel reads (set (page_ids (fd_pages data))) oldPage param)"

section \<open>Reading a page\<close>

definition first_read ::
  "('r keyset_row_scheme, 'm) feed_reads \<Rightarrow> string set \<Rightarrow> feed_cursor \<Rightarrow> ('r keyset_row_scheme, 'm) feed_page result" where
  "first_read reads owned param =
     rbind (case param of
              After c \<Rightarrow> (case rd_newer reads of
                            None \<Rightarrow> Inl (JsError ''Keyset feed does not support newer-page reads.'')
                          | Some newer \<Rightarrow> newer 0 c (rd_pageSize reads))
            | Older c \<Rightarrow> rd_window reads 0 (Some c) None (rd_pageSize reads)
            | _ \<Rightarrow> rd_window reads 0 None None (rd_pageSize reads)) (\<lambda>page. Inr
       \<lparr>fp_rows = (if rd_revalidate reads \<noteq> None then filter (\<lambda>row. kr_id row \<notin> owned) (fw_rows page) else fw_rows page),
        fp_through = fw_older_cursor page, fp_hasOlder = fw_has_older page, fp_count = fw_count page,
        fp_metadata = fw_metadata page,
        fp_before = (case param of After _ \<Rightarrow> fw_newer_cursor page | _ \<Rightarrow> None),
        fp_newer = fw_newer_cursor page, fp_hasNewer = fw_has_newer page\<rparr>)"

definition page_index :: "('r, 'm) feed_data option \<Rightarrow> feed_cursor \<Rightarrow> int" where
  "page_index previous param =
     (case previous of None \<Rightarrow> -1 | Some d \<Rightarrow> findIndex (\<lambda>p. normal_cursor p = normal_cursor param) (fd_pageParams d))"

text \<open>\<open>previous\<close> is what the query client has cached.\<close>

definition queryFn ::
  "nat \<Rightarrow> ('r keyset_row_scheme, 'm) feed_reads \<Rightarrow> ('r keyset_row_scheme, 'm) feed_data option \<Rightarrow> feed_cursor \<Rightarrow>
   ('r keyset_row_scheme, 'm) feed_page result option" where
  "queryFn fuel reads cached param =
     (let previous = (if rd_revalidate reads \<noteq> None then cached else None);
          index = page_index previous param;
          owned = (case previous of Some d \<Rightarrow> set (page_ids (fd_pages d)) | None \<Rightarrow> {})
      in case (rd_revalidate reads, previous) of
           (Some check, Some data) \<Rightarrow>
             if index < 0 \<or> nat index \<ge> length (fd_pages data) then Some (first_read reads owned param)
             else (let oldPage = fd_pages data ! nat index
                   in if fp_through oldPage = None then Some (first_read reads owned param)
                      else refresh_page fuel reads check data (nat index) oldPage param)
         | _ \<Rightarrow> Some (first_read reads owned param))"

text \<open>The cursors of the next and the previous page; \<open>None\<close> is \<open>undefined\<close>.\<close>

definition getNextPageParam ::
  "('r, 'm) feed_reads \<Rightarrow> ('r, 'm) feed_data option \<Rightarrow> ('r, 'm) feed_page \<Rightarrow> nat \<Rightarrow> feed_cursor option" where
  "getNextPageParam reads cached lastPage loaded =
     (let saved = (if rd_revalidate reads \<noteq> None
                   then (case cached of Some d \<Rightarrow> if loaded < length (fd_pageParams d) then Some (fd_pageParams d ! loaded) else None | None \<Rightarrow> None)
                   else None)
      in case saved of
           Some NullCursor \<Rightarrow> Some Start
         | Some c \<Rightarrow> Some c
         | None \<Rightarrow> if fp_hasOlder lastPage then map_option Older (fp_through lastPage) else None)"

definition getPreviousPageParam :: "('r, 'm) feed_reads \<Rightarrow> ('r, 'm) feed_page \<Rightarrow> feed_cursor option" where
  "getPreviousPageParam reads firstPage =
     (if rd_newer reads \<noteq> None \<and> fp_hasNewer firstPage then map_option After (truthy_string (fp_newer firstPage)) else None)"

definition keysetFeedRows ::
  "('r keyset_row_scheme, 'm) feed_data option \<Rightarrow> ('r keyset_row_scheme \<Rightarrow> 'r keyset_row_scheme \<Rightarrow> int) \<Rightarrow> 'r keyset_row_scheme list" where
  "keysetFeedRows data compare =
     js_sort compare (dedupeBy (rev (case data of Some d \<Rightarrow> concat (map fp_rows (fd_pages d)) | None \<Rightarrow> [])) kr_id)"


section \<open>Rows of a refreshed page\<close>

definition new_rows :: "string set \<Rightarrow> 'r keyset_row_scheme list \<Rightarrow> bool" where
  "new_rows owned rows \<longleftrightarrow> distinct (map kr_id rows) \<and> kr_id ` set rows \<inter> owned = {}"

lemma collect_fresh_simps [simp]:
  "collect_fresh owned fresh [] = fresh"
  "collect_fresh owned fresh (row # rows) =
     collect_fresh owned (if kr_id row \<notin> owned \<and> kr_id row \<notin> kr_id ` set fresh then fresh @ [row] else fresh) rows"
  by (simp_all add: collect_fresh_def)

lemma collect_fresh_new: "new_rows owned fresh \<Longrightarrow> new_rows owned (collect_fresh owned fresh rows)"
proof (induction rows arbitrary: fresh)
  case (Cons row rows)
  have "new_rows owned (if kr_id row \<notin> owned \<and> kr_id row \<notin> kr_id ` set fresh then fresh @ [row] else fresh)"
    using Cons.prems by (auto simp: new_rows_def)
  from Cons.IH[OF this] show ?case by simp
qed simp

lemma collect_fresh_ids:
  "kr_id ` set (collect_fresh owned fresh rows) = kr_id ` set fresh \<union> (kr_id ` set rows - owned)"
  by (induction rows arbitrary: fresh) auto

lemma walk_windows_new:
  assumes "walk_windows fuel read owned time before visited fresh first = Some (Inr (fresh', first', page, time'))" "new_rows owned fresh"
  shows "new_rows owned fresh'"
  using assms
  by (induction fuel read owned time before visited fresh first rule: walk_windows.induct)
    (auto simp: Let_def collect_fresh_new split: sum.splits if_splits)

lemma partitions_rows:
  assumes "partitions ids answer" "distinct ids"
  shows "distinct (map kr_id (fr_rows answer))" "kr_id ` set (fr_rows answer) = set ids - set (fr_absent_ids answer)"
proof -
  let ?r = "map kr_id (fr_rows answer) @ fr_absent_ids answer"
  have r: "length ?r = length ids" "card (set ?r) = length ids" "set ids \<subseteq> set ?r"
    using assms(1) by (auto simp: partitions_def Let_def list_all_iff)
  then have d: "distinct ?r" by (metis card_distinct)
  have "set ?r = set ids"
    using r assms(2) by (metis card_subset_eq distinct_card List.finite_set)
  with d show "distinct (map kr_id (fr_rows answer))" "kr_id ` set (fr_rows answer) = set ids - set (fr_absent_ids answer)"
    by auto
qed

lemma revalidate_ids_rows:
  assumes "revalidate_ids n check time ids = Inr rows" "distinct ids"
  shows "distinct (map kr_id rows) \<and> kr_id ` set rows \<subseteq> set ids"
  using assms
proof (induction n check time ids arbitrary: rows rule: revalidate_ids.induct)
  case (1 n check time ids)
  show ?case
  proof (cases "ids = [] \<or> n = 0")
    case True
    then show ?thesis using "1.prems"(1) by (simp add: revalidate_ids.simps)
  next
    case False
    then obtain answer rest where a: "check time (take n ids) = Inr answer" "partitions (take n ids) answer"
        "revalidate_ids n check (Suc time) (drop n ids) = Inr rest" "rows = fr_rows answer @ rest"
      using "1.prems"(1) by (subst (asm) revalidate_ids.simps) (auto simp: rbind_Inr_iff split: if_splits)
    have d: "distinct (take n ids)" "distinct (drop n ids)" "set (take n ids) \<inter> set (drop n ids) = {}"
      using "1.prems"(2) by (simp_all add: set_take_disj_set_drop_if_distinct)
    from "1.IH"[OF False a(1) _ a(3) d(2)] a(2)
    have rest: "distinct (map kr_id rest)" "kr_id ` set rest \<subseteq> set (drop n ids)" by auto
    have "kr_id ` set (fr_rows answer) \<subseteq> set (take n ids)" "distinct (map kr_id (fr_rows answer))"
      using partitions_rows[OF a(2) d(1)] by auto
    with rest d(3) show ?thesis unfolding a(4) using set_take_subset[of n ids] set_drop_subset[of n ids] by auto
  qed
qed

lemma own_ids_ok:
  "distinct (own_ids data index page)"
  "set (own_ids data index page) = kr_id ` set (fp_rows page) - set (page_ids (take index (fd_pages data)))"
  by (auto simp: own_ids_def Let_def)

text \<open>
  C17: refreshing a page keeps its cut, and its rows are the rows of its own ids that the server
  confirmed followed by rows that no loaded page had: their ids are distinct and none belongs to
  an earlier page.
\<close>

theorem refresh_page_rows:
  assumes "refresh_page fuel reads check data index oldPage param = Some (Inr page)"
    and "index < length (fd_pages data)" "oldPage = fd_pages data ! index"
  shows "fp_through page = fp_through oldPage \<and> distinct (map kr_id (fp_rows page)) \<and>
         kr_id ` set (fp_rows page) \<inter> set (page_ids (take index (fd_pages data))) = {} \<and>
         kr_id ` set (fp_rows page) \<inter> set (page_ids (fd_pages data)) \<subseteq> kr_id ` set (fp_rows oldPage)"
proof -
  let ?owned = "set (page_ids (fd_pages data))" and ?earlier = "set (page_ids (take index (fd_pages data)))"
  obtain fresh first last time survivors where
    walk: "walk_page fuel reads ?owned oldPage param = Some (Inr (fresh, first, last, time))"
    and survivors: "revalidate_ids (rd_pageSize reads) check time (own_ids data index oldPage) = Inr survivors"
    and rows: "fp_rows page = survivors @ fresh" "fp_through page = fp_through oldPage"
    using assms(1) by (auto simp: refresh_page_def rbind_Inr_iff) 
  have fresh: "new_rows ?owned fresh"
    by (rule walk_windows_new[OF walk[unfolded walk_page_def]]) (simp add: new_rows_def)
  have s: "distinct (map kr_id survivors)" "kr_id ` set survivors \<subseteq> kr_id ` set (fp_rows oldPage) - ?earlier"
    using revalidate_ids_rows[OF survivors own_ids_ok(1)] own_ids_ok(2)[of data index oldPage] by simp_all
  have e: "?earlier \<subseteq> ?owned"
    unfolding page_ids_def by (auto dest: in_set_takeD)
  have o: "kr_id ` set (fp_rows oldPage) \<subseteq> ?owned"
    unfolding page_ids_def using assms(2,3) nth_mem[OF assms(2)] by force
  have f: "distinct (map kr_id fresh)" "kr_id ` set fresh \<inter> ?owned = {}" using fresh by (simp_all add: new_rows_def)
  have "kr_id ` set survivors \<inter> kr_id ` set fresh = {}" using s(2) o f(2) by blast
  with s f e o show ?thesis unfolding rows by (auto simp: image_Un)
qed


text \<open>A server whose history is the rows c, b and a, of which b was loaded before c arrived and a was deleted.\<close>

definition sample_window :: "string option \<Rightarrow> (keyset_row, unit) feed_window" where
  "sample_window before =
     \<lparr>fw_rows = (if before = None then [\<lparr>kr_id = ''c''\<rparr>] else [\<lparr>kr_id = ''b''\<rparr>]), fw_count = 2,
      fw_older_cursor = Some (if before = None then ''c'' else ''b''), fw_has_older = False,
      fw_has_more_in_window = (before = None), fw_has_older_than_through = False, fw_metadata = (),
      fw_newer_cursor = None, fw_has_newer = False, fw_has_newer_than_before = False\<rparr>"

definition sample_reads :: "(keyset_row, unit) feed_reads" where
  "sample_reads =
     \<lparr>rd_pageSize = 1, rd_window = (\<lambda>time before through limit. Inr (sample_window before)),
      rd_revalidate = Some (\<lambda>time ids. Inr \<lparr>fr_rows = map (\<lambda>i. \<lparr>kr_id = i\<rparr>) (filter (\<lambda>i. i \<noteq> ''a'') ids), fr_absent_ids = filter (\<lambda>i. i = ''a'') ids\<rparr>),
      rd_newer = None\<rparr>"

definition sample_page :: "(keyset_row, unit) feed_page" where
  "sample_page = \<lparr>fp_rows = [\<lparr>kr_id = ''b''\<rparr>, \<lparr>kr_id = ''a''\<rparr>], fp_through = Some ''a'', fp_hasOlder = False, fp_count = 2,
     fp_metadata = (), fp_before = None, fp_newer = None, fp_hasNewer = False\<rparr>"

definition sample_data :: "(keyset_row, unit) feed_data" where
  "sample_data = \<lparr>fd_pageParams = [Start], fd_pages = [sample_page]\<rparr>"

lemma sample_refresh:
  "refresh_page 5 sample_reads (the (rd_revalidate sample_reads)) sample_data 0 sample_page Start =
     Some (Inr (sample_page\<lparr>fp_rows := [\<lparr>kr_id = ''b''\<rparr>, \<lparr>kr_id = ''c''\<rparr>]\<rparr>))"
  by code_simp

theorem refresh_page_rows_witness:
  "distinct (map kr_id (fp_rows (sample_page\<lparr>fp_rows := [\<lparr>kr_id = ''b''\<rparr>, \<lparr>kr_id = ''c''\<rparr>]\<rparr>)))"
  using refresh_page_rows[OF sample_refresh] by (simp add: sample_data_def)

section \<open>The walk ends\<close>

lemma walk_windows_returns:
  assumes "finite C" "\<And>time before page. read time before = Inr page \<Longrightarrow> fw_older_cursor page \<in> insert None (Some ` C)"
    and "card (Some ` C - visited) + 1 < fuel \<or> before \<notin> visited \<and> before \<in> Some ` C \<and> card (Some ` C - visited) < fuel"
  shows "walk_windows fuel read owned time before visited fresh first \<noteq> None"
  using assms(2,3)
proof (induction fuel read owned time before visited fresh first rule: walk_windows.induct)
  case (2 fuel read owned time before visited fresh first)
  show ?case
  proof (cases "read time before")
    case (Inr page)
    let ?b = "fw_older_cursor page" and ?v = "insert before visited"
    show ?thesis
    proof (cases "fw_has_more_in_window page \<and> \<not> (?b = None \<or> ?b \<in> ?v)")
      case True
      then have b: "?b \<in> Some ` C" "?b \<notin> ?v" using 2(2)[OF Inr] by auto
      have fin: "finite (Some ` C - visited)" using assms(1) by simp
      have "card (Some ` C - ?v) < fuel"
        using 2(3)
      proof
        assume "card (Some ` C - visited) + 1 < Suc fuel"
        moreover have "card (Some ` C - ?v) \<le> card (Some ` C - visited)" by (intro card_mono fin) auto
        ultimately show ?thesis by simp
      next
        assume h: "before \<notin> visited \<and> before \<in> Some ` C \<and> card (Some ` C - visited) < Suc fuel"
        then have "card (Some ` C - ?v) < card (Some ` C - visited)" by (intro psubset_card_mono fin) auto
        with h show ?thesis by simp
      qed
      then have "walk_windows fuel read owned (Suc time) ?b ?v (collect_fresh owned fresh (fw_rows page)) (Some (or_else first page)) \<noteq> None"
        using 2(1)[OF Inr refl refl refl refl] True 2(2) b by auto
      with True show ?thesis by (simp add: Inr Let_def)
    next
      case False
      then show ?thesis by (auto simp: Inr Let_def)
    qed
  qed simp
qed auto



section \<open>The derived rows\<close>

lemma last_first:
  "{rev xs ! i |i. i < length xs \<and> (\<forall>j < i. k (rev xs ! j) \<noteq> k (rev xs ! i))} =
   {xs ! i |i. i < length xs \<and> (\<forall>j. i < j \<and> j < length xs \<longrightarrow> k (xs ! j) \<noteq> k (xs ! i))}" (is "?f = ?l")
proof
  show "?f \<subseteq> ?l"
  proof
    fix x assume "x \<in> ?f"
    then obtain i where i: "x = rev xs ! i" "i < length xs" "\<forall>j < i. k (rev xs ! j) \<noteq> k (rev xs ! i)" by blast
    have "k (xs ! j) \<noteq> k x" if "length xs - Suc i < j" "j < length xs" for j
      using i(3)[THEN spec, of "length xs - Suc j"] that i(1,2) by (simp add: rev_nth)
    with i show "x \<in> ?l" by (auto simp: rev_nth intro!: exI[of _ "length xs - Suc i"])
  qed
  show "?l \<subseteq> ?f"
  proof
    fix x assume "x \<in> ?l"
    then obtain i where i: "x = xs ! i" "i < length xs" "\<forall>j. i < j \<and> j < length xs \<longrightarrow> k (xs ! j) \<noteq> k (xs ! i)" by blast
    have "k (rev xs ! j) \<noteq> k x" if "j < length xs - Suc i" for j
      using i(3)[THEN spec, of "length xs - Suc j"] that i(1,2) by (auto simp: rev_nth)
    with i show "x \<in> ?f" by (auto simp: rev_nth intro!: exI[of _ "length xs - Suc i"])
  qed
qed

text \<open>
  The row list shows every loaded id once, in the order of the comparison, and each as the
  pages read it last.
\<close>

theorem keysetFeedRows_latest:
  assumes "js_comparator compare"
  shows "distinct (map kr_id (keysetFeedRows (Some data) compare)) \<and>
         kr_id ` set (keysetFeedRows (Some data) compare) = set (page_ids (fd_pages data)) \<and>
         sorted_wrt (\<lambda>a b. compare a b \<le> 0) (keysetFeedRows (Some data) compare) \<and>
         set (keysetFeedRows (Some data) compare) =
           (let rows = concat (map fp_rows (fd_pages data))
            in {rows ! i |i. i < length rows \<and> (\<forall>j. i < j \<and> j < length rows \<longrightarrow> kr_id (rows ! j) \<noteq> kr_id (rows ! i))})"
proof -
  let ?rows = "concat (map fp_rows (fd_pages data))"
  let ?kept = "dedupeBy (rev ?rows) kr_id"
  have rows: "keysetFeedRows (Some data) compare = js_sort compare ?kept" by (simp add: keysetFeedRows_def)
  have ids: "set (page_ids (fd_pages data)) = kr_id ` set ?rows" by (simp add: page_ids_def image_Union)
  have "set ?kept = {?rows ! i |i. i < length ?rows \<and> (\<forall>j. i < j \<and> j < length ?rows \<longrightarrow> kr_id (?rows ! j) \<noteq> kr_id (?rows ! i))}"
    (is "_ = ?last")
  proof -
    let ?n = "length ?rows"
    have "set ?kept = {rev ?rows ! i |i. i < ?n \<and> (\<forall>j < i. kr_id (rev ?rows ! j) \<noteq> kr_id (rev ?rows ! i))}"
      unfolding dedupeBy_def dedupe_loop_first by auto
    also have "\<dots> = ?last"
      using last_first[of ?rows kr_id] by simp
    finally show ?thesis .
  qed
  moreover have "kr_id ` set ?kept = kr_id ` set ?rows"
    using dedupe_loop_set[of kr_id "{}" "rev ?rows"] by (simp add: dedupeBy_def)
  moreover have "distinct (map kr_id ?kept)" by (simp add: dedupeBy_def dedupe_loop_distinct)
  ultimately show ?thesis
    unfolding rows ids Let_def by (simp add: js_comparator.sorted_js_sort[OF assms])
qed


definition id_compare :: "keyset_row \<Rightarrow> keyset_row \<Rightarrow> int" where
  "id_compare a b = (if kr_id a < kr_id b then -1 else if kr_id a = kr_id b then 0 else 1)"

theorem keysetFeedRows_latest_witness:
  "sorted_wrt (\<lambda>a b. id_compare a b \<le> 0) (keysetFeedRows (Some sample_data) id_compare)"
proof -
  have "js_comparator id_compare" by unfold_locales (auto simp: id_compare_def split: if_splits)
  from keysetFeedRows_latest[OF this, of sample_data] show ?thesis by blast
qed


end
