(* ===== verification/Layers.thy ===== *)
theory Layers
  imports Prelude "HOL-Library.Transitive_Closure_Table"
begin

text \<open>
  Layers of a composed application, \<open>packages/app/src/layers.ts\<close>: every add-on is a layer with the
  layers it depends on; a layer alters what its dependencies declare, and a dependent overrides
  its dependencies field by field.
\<close>

section \<open>Maps\<close>

text \<open>\<open>Map.prototype.set\<close>: the entry keeps its place, a new key goes to the end.\<close>

fun map_put :: "'k \<Rightarrow> 'v \<Rightarrow> ('k \<times> 'v) list \<Rightarrow> ('k \<times> 'v) list" where
  "map_put k v [] = [(k, v)]"
| "map_put k v ((k', v') # es) = (if k' = k then (k, v) # es else (k', v') # map_put k v es)"

definition new_Map :: "('k \<times> 'v) list \<Rightarrow> ('k \<times> 'v) list" where
  "new_Map es = foldl (\<lambda>m (k, v). map_put k v m) [] es"

definition map_keys :: "('k \<times> 'v) list \<Rightarrow> 'k set" where
  "map_keys m = fst ` set m"

lemma map_of_None_keys: "map_of m k = None \<longleftrightarrow> k \<notin> map_keys m"
  by (simp add: map_keys_def map_of_eq_None_iff)

lemma finite_map_keys [simp]: "finite (map_keys m)"
  by (simp add: map_keys_def)

lemma map_keys_Nil [simp]: "map_keys [] = {}"
  by (simp add: map_keys_def)

lemma map_of_map_put [simp]: "map_of (map_put k v es) x = (if x = k then Some v else map_of es x)"
  by (induction es) auto

lemma keys_map_put [simp]: "map_keys (map_put k v es) = insert k (map_keys es)"
proof (induction es)
  case (Cons e es)
  then show ?case by (cases e) (auto simp: map_keys_def)
qed (simp add: map_keys_def)

lemma set_map_put: "set (map_put k v es) \<subseteq> insert (k, v) (set es)"
  by (induction k v es rule: map_put.induct) auto

lemma distinct_map_put: "distinct (map fst es) \<Longrightarrow> distinct (map fst (map_put k v es))"
proof (induction es)
  case (Cons e es)
  then show ?case using keys_map_put[of k v es] by (cases e; cases "fst e = k") (simp_all add: map_keys_def)
qed simp

lemma new_Map_snoc: "new_Map (es @ [(k, v)]) = map_put k v (new_Map es)"
  by (simp add: new_Map_def)

lemma keys_new_Map: "map_keys (new_Map es) = fst ` set es"
proof (induction es rule: rev_induct)
  case (snoc e es)
  then show ?case by (cases e) (simp add: new_Map_snoc)
qed (simp add: new_Map_def)

lemma map_of_new_Map: "map_of (new_Map es) k = Some v \<Longrightarrow> (k, v) \<in> set es"
proof (induction es rule: rev_induct)
  case (snoc e es)
  then show ?case by (cases e) (auto simp: new_Map_snoc split: if_splits)
qed (simp add: new_Map_def)

lemma map_of_new_Map_distinct: "distinct (map fst es) \<Longrightarrow> (k, v) \<in> set es \<Longrightarrow> map_of (new_Map es) k = Some v"
proof (induction es rule: rev_induct)
  case (snoc e es)
  then show ?case by (cases e) (force simp: new_Map_snoc)
qed simp

lemma distinct_new_Map: "distinct (map fst (new_Map es))"
proof (induction es rule: rev_induct)
  case (snoc e es)
  then show ?case by (cases e) (simp add: new_Map_snoc distinct_map_put)
qed (simp add: new_Map_def)

section \<open>Dependencies\<close>

definition DEPLOYMENT_LAYER_ID :: string where
  "DEPLOYMENT_LAYER_ID = ''deployment''"

record layer =
  ly_id :: string
  ly_dependsOn :: "string list option"

type_synonym ancestry = "(string \<times> string set) list"

definition direct_of :: "'a layer_scheme list \<Rightarrow> (string \<times> string list) list" where
  "direct_of layers = new_Map (map (\<lambda>l. (ly_id l, or_else (ly_dependsOn l) [])) layers)"

definition deps :: "(string \<times> string list) list \<Rightarrow> string \<Rightarrow> string list" where
  "deps direct i = or_else (map_of direct i) []"

definition cycle_error :: "string list \<Rightarrow> js_error" where
  "cycle_error path = JsError (''Addon dependencies form a cycle: '' @ js_join '' -> '' path @ ''.'')"

function visit :: "(string \<times> string list) list \<Rightarrow> string \<Rightarrow> string list \<Rightarrow> ancestry \<Rightarrow> (ancestry \<times> string set) result"
  and visit_deps :: "(string \<times> string list) list \<Rightarrow> string list \<Rightarrow> string list \<Rightarrow> ancestry \<Rightarrow> string set \<Rightarrow> (ancestry \<times> string set) result" where
  "visit direct i path closures =
     (case map_of closures i of
        Some known \<Rightarrow> Inr (closures, known)
      | None \<Rightarrow>
          if i \<in> set path then Inl (cycle_error (path @ [i]))
          else if map_of direct i = None then Inr (map_put i {} closures, {})
          else rbind (visit_deps direct (deps direct i) (path @ [i]) closures {}) (\<lambda>(closures', reached).
                 Inr (map_put i reached closures', reached)))"
| "visit_deps direct [] path closures reached = Inr (closures, reached)"
| "visit_deps direct (d # ds) path closures reached =
     rbind (visit direct d path closures) (\<lambda>(closures', ancestors).
       visit_deps direct ds path closures' (insert d reached \<union> ancestors))"
  by pat_completeness auto
termination
proof (relation "measures [\<lambda>x. case x of Inl (direct, i, path, closures) \<Rightarrow> card (map_keys direct - set path)
      | Inr (direct, ds, path, closures, reached) \<Rightarrow> card (map_keys direct - set path),
    \<lambda>x. case x of Inl _ \<Rightarrow> 0 | Inr (direct, ds, path, closures, reached) \<Rightarrow> Suc (length ds)]", goal_cases)
  case (2 direct i path closures)
  then have "i \<in> map_keys direct - set path" by (auto simp: map_of_None_keys)
  then have "card (map_keys direct - set (path @ [i])) < card (map_keys direct - set path)"
    by (intro psubset_card_mono) auto
  then show ?case by simp
qed auto

definition visit_all :: "(string \<times> string list) list \<Rightarrow> ancestry result" where
  "visit_all direct = rbind (visit_deps direct (map fst direct) [] [] {}) (\<lambda>(closures, _). Inr closures)"

definition unknown_dependency :: "(string \<times> string list) list \<Rightarrow> (string \<times> string) option" where
  "unknown_dependency direct =
     find (\<lambda>(i, d). map_of direct d = None) (concat (map (\<lambda>(i, ds). map (\<lambda>d. (i, d)) ds) direct))"

definition layerAncestry :: "'a layer_scheme list \<Rightarrow> ancestry result" where
  "layerAncestry layers =
     (let direct = direct_of layers
      in case unknown_dependency direct of
           Some (i, d) \<Rightarrow> Inl (JsError (''Addon \"'' @ i @ ''\" depends on unknown addon \"'' @ d @ ''\".''))
         | None \<Rightarrow> visit_all direct)"

section \<open>Alterations\<close>

definition has_ancestor :: "ancestry \<Rightarrow> string \<Rightarrow> string \<Rightarrow> bool" where
  "has_ancestor ancestors layer other = (case map_of ancestors layer of Some s \<Rightarrow> other \<in> s | None \<Rightarrow> False)"

fun distinct_first :: "'a list \<Rightarrow> 'a list" where
  "distinct_first [] = []"
| "distinct_first (x # xs) = x # filter (\<lambda>y. y \<noteq> x) (distinct_first xs)"

lemma distinct_first_set [simp]: "set (distinct_first xs) = set xs"
  by (induction xs) auto

lemma distinct_first_distinct [simp]: "distinct (distinct_first xs)"
  by (induction xs) auto

definition commonBase :: "string list \<Rightarrow> ancestry \<Rightarrow> string option" where
  "commonBase candidates ancestors =
     (let ids = distinct_first candidates
      in find (\<lambda>i. list_all (\<lambda>other. other = i \<or> has_ancestor ancestors other i) ids) ids)"

definition assertMayAlter :: "ancestry \<Rightarrow> string \<Rightarrow> string \<Rightarrow> string \<Rightarrow> string \<Rightarrow> unit result" where
  "assertMayAlter ancestors layer owner what verb =
     (if owner \<noteq> layer \<and> \<not> has_ancestor ancestors layer owner
      then Inl (JsError (''Addon \"'' @ layer @ ''\" '' @ verb @ '' '' @ what @ '' of \"'' @ owner @ ''\", which it does not depend on.''))
      else Inr ())"

definition overridesField :: "ancestry \<Rightarrow> string option \<Rightarrow> string \<Rightarrow> string \<Rightarrow> bool result" where
  "overridesField ancestors previous layer what =
     (case previous of
        None \<Rightarrow> Inr True
      | Some p \<Rightarrow>
          if p = layer \<or> has_ancestor ancestors layer p then Inr True
          else if has_ancestor ancestors p layer then Inr False
          else Inl (JsError (''Unrelated addons \"'' @ p @ ''\" and \"'' @ layer @ ''\" both set '' @ what @ ''.'')))"


section \<open>The closure of the dependencies\<close>

definition dep :: "(string \<times> string list) list \<Rightarrow> (string \<times> string) set" where
  "dep direct = {(i, d). d \<in> set (deps direct i)}"

definition reach :: "(string \<times> string list) list \<Rightarrow> string \<Rightarrow> string set" where
  "reach direct i = {d. (i, d) \<in> (dep direct)\<^sup>+}"

lemma reach_unfold: "reach direct i = (\<Union>d \<in> set (deps direct i). insert d (reach direct d))"
  by (auto simp: reach_def dep_def dest: tranclD intro: trancl_into_trancl2 r_into_trancl elim: converse_tranclE)

text \<open>The memo holds finished layers, closed under their dependencies and without a cycle.\<close>

definition memo_ok :: "(string \<times> string list) list \<Rightarrow> ancestry \<Rightarrow> bool" where
  "memo_ok direct closures \<longleftrightarrow>
     (\<forall>i s. map_of closures i = Some s \<longrightarrow> s = reach direct i \<and> s \<subseteq> map_keys closures \<and> i \<notin> s)"

lemma memo_okD:
  assumes "memo_ok direct closures" "i \<in> map_keys closures"
  shows "map_of closures i = Some (reach direct i)" "reach direct i \<subseteq> map_keys closures" "i \<notin> reach direct i"
proof -
  obtain s where "map_of closures i = Some s" using assms(2) by (metis map_of_None_keys not_None_eq)
  then show "map_of closures i = Some (reach direct i)" "reach direct i \<subseteq> map_keys closures" "i \<notin> reach direct i"
    using assms(1) by (auto simp: memo_ok_def)
qed

lemma memo_ok_put:
  assumes "memo_ok direct closures" "reach direct i \<subseteq> map_keys closures" "i \<notin> map_keys closures"
  shows "memo_ok direct (map_put i (reach direct i) closures)"
  using assms by (auto simp: memo_ok_def)

lemma visit_correct:
  "visit direct i path closures = Inr (closures', s) \<Longrightarrow> memo_ok direct closures \<Longrightarrow> map_keys closures \<inter> set path = {} \<Longrightarrow>
     memo_ok direct closures' \<and> s = reach direct i \<and> insert i (map_keys closures) \<subseteq> map_keys closures' \<and> map_keys closures' \<inter> set path = {}"
  "visit_deps direct ds path closures reached = Inr (closures', s) \<Longrightarrow> memo_ok direct closures \<Longrightarrow> map_keys closures \<inter> set path = {} \<Longrightarrow>
     memo_ok direct closures' \<and> s = reached \<union> (\<Union>d \<in> set ds. insert d (reach direct d)) \<and>
     set ds \<union> map_keys closures \<subseteq> map_keys closures' \<and> map_keys closures' \<inter> set path = {}"
proof (induction direct i path closures and direct ds path closures reached arbitrary: closures' s and closures' s rule: visit_visit_deps.induct)
  case (1 direct i path closures)
  show ?case
  proof (cases "map_of closures i")
    case (Some known)
    then have "i \<in> map_keys closures" by (metis map_of_None_keys option.distinct(1))
    with Some show ?thesis using 1(2-4) by (auto dest: memo_okD)
  next
    case None
    then have i: "i \<notin> map_keys closures" by (simp add: map_of_None_keys)
    have path: "i \<notin> set path" using 1(2) None by (auto split: if_splits)
    show ?thesis
    proof (cases "map_of direct i = None")
      case True
      then have "reach direct i = {}" by (subst reach_unfold) (simp add: deps_def or_else_def)
      with True None path i 1(2-4) memo_ok_put[of direct closures i] show ?thesis by auto
    next
      case False
      obtain cl where cl: "visit_deps direct (deps direct i) (path @ [i]) closures {} = Inr (cl, s)" "closures' = map_put i s cl"
        using 1(2) None path False by (auto simp: rbind_Inr_iff)
      have *: "memo_ok direct cl \<and> s = {} \<union> (\<Union>d \<in> set (deps direct i). insert d (reach direct d)) \<and>
          set (deps direct i) \<union> map_keys closures \<subseteq> map_keys cl \<and> map_keys cl \<inter> set (path @ [i]) = {}"
        using 1(1)[OF None path False cl(1) 1(3)] i 1(4) by auto
      then have s: "s = reach direct i" by (subst reach_unfold) simp
      moreover have "s \<subseteq> map_keys cl" using * memo_okD(2)[of direct cl] by auto
      ultimately show ?thesis using * memo_ok_put[of direct cl i] cl(2) path by auto
    qed
  qed
next
  case (3 direct d ds path closures reached)
  obtain cl anc where cl: "visit direct d path closures = Inr (cl, anc)" "visit_deps direct ds path cl (insert d reached \<union> anc) = Inr (closures', s)"
    using 3(3) by (auto simp: rbind_Inr_iff)
  from 3(1)[OF cl(1) 3(4,5)] have v: "memo_ok direct cl" "anc = reach direct d" "insert d (map_keys closures) \<subseteq> map_keys cl" "map_keys cl \<inter> set path = {}"
    by auto
  from 3(2)[OF cl(1) refl cl(2) v(1,4)] v show ?case by auto
qed auto

lemma visit_cycle:
  "visit direct i path closures = Inl e \<Longrightarrow> (\<forall>p \<in> set path. (p, i) \<in> (dep direct)\<^sup>+) \<Longrightarrow> \<exists>x. (x, x) \<in> (dep direct)\<^sup>+"
  "visit_deps direct ds path closures reached = Inl e \<Longrightarrow> (\<forall>d \<in> set ds. \<forall>p \<in> set path. (p, d) \<in> (dep direct)\<^sup>+) \<Longrightarrow> \<exists>x. (x, x) \<in> (dep direct)\<^sup>+"
proof (induction direct i path closures and direct ds path closures reached rule: visit_visit_deps.induct)
  case (1 direct i path closures)
  show ?case
  proof (cases "i \<in> set path")
    case False
    then have "map_of closures i = None \<and> map_of direct i \<noteq> None \<and>
        visit_deps direct (deps direct i) (path @ [i]) closures {} = Inl e"
      using 1(2) by (simp only: visit.simps rbind_Inl_iff split: option.splits if_splits) (auto split: prod.splits)
    then have v: "map_of closures i = None" "map_of direct i \<noteq> None"
        "visit_deps direct (deps direct i) (path @ [i]) closures {} = Inl e" by auto
    have "\<forall>d \<in> set (deps direct i). \<forall>p \<in> set (path @ [i]). (p, d) \<in> (dep direct)\<^sup>+"
      using 1(3) by (auto simp: dep_def intro: trancl_into_trancl r_into_trancl)
    from 1(1)[OF v(1) False v(2,3) this] show ?thesis .
  qed (use 1(3) in blast)
next
  case (3 direct d ds path closures reached)
  then show ?case by (auto simp: rbind_Inl_iff)
qed auto


text \<open>The dependencies a set of layers declares, and when they are in order.\<close>

definition known_deps :: "(string \<times> string list) list \<Rightarrow> bool" where
  "known_deps direct \<longleftrightarrow> list_all (\<lambda>(i, ds). list_all (\<lambda>d. d \<in> map_keys direct) ds) direct"

definition acyclic_deps :: "(string \<times> string list) list \<Rightarrow> bool" where
  "acyclic_deps direct \<longleftrightarrow> (\<forall>x. (x, x) \<notin> (dep direct)\<^sup>+)"

lemma unknown_dependency_None: "unknown_dependency direct = None \<longleftrightarrow> known_deps direct"
proof -
  have "unknown_dependency direct = None \<longleftrightarrow> (\<forall>(i, ds) \<in> set direct. \<forall>d \<in> set ds. map_of direct d \<noteq> None)"
  proof -
    have "set (concat (map (\<lambda>(i, ds). map (\<lambda>d. (i, d)) ds) direct)) = {(i, d). \<exists>ds. (i, ds) \<in> set direct \<and> d \<in> set ds}"
      by (auto simp: image_iff)
    then show ?thesis unfolding unknown_dependency_def find_None_iff by fastforce
  qed
  then show ?thesis by (simp only: known_deps_def list_all_iff map_of_None_keys not_not)
qed

lemma visit_all_result:
  assumes "distinct (map fst direct)"
  shows "(\<exists>cl. visit_all direct = Inr cl) \<longleftrightarrow> acyclic_deps direct"
    and "visit_all direct = Inr cl \<Longrightarrow> i \<in> map_keys direct \<Longrightarrow> map_of cl i = Some (reach direct i)"
    and "visit_all direct = Inr cl \<Longrightarrow> memo_ok direct cl"
proof -
  have start: "memo_ok direct []" by (simp add: memo_ok_def)
  have done_ok: "memo_ok direct cl \<and> map_keys direct \<subseteq> map_keys cl" if v: "visit_all direct = Inr cl" for cl
  proof -
    obtain s where "visit_deps direct (map fst direct) [] [] {} = Inr (cl, s)"
      using v by (auto simp: visit_all_def rbind_Inr_iff)
    from visit_correct(2)[OF this start] show ?thesis by (simp add: map_keys_def)
  qed
  show "visit_all direct = Inr cl \<Longrightarrow> i \<in> map_keys direct \<Longrightarrow> map_of cl i = Some (reach direct i)"
    using done_ok memo_okD(1) by blast
  show "visit_all direct = Inr cl \<Longrightarrow> memo_ok direct cl" using done_ok by blast
  show "(\<exists>cl. visit_all direct = Inr cl) \<longleftrightarrow> acyclic_deps direct"
  proof
    assume "\<exists>cl. visit_all direct = Inr cl"
    then obtain cl where cl: "visit_all direct = Inr cl" ..
    show "acyclic_deps direct"
      unfolding acyclic_deps_def
    proof (rule allI, rule notI)
      fix x assume c: "(x, x) \<in> (dep direct)\<^sup>+"
      then obtain d where "d \<in> set (deps direct x)" by (auto simp: dep_def dest: tranclD)
      then have "x \<in> map_keys direct" using map_of_None_keys[of direct x] by (auto simp: deps_def or_else_def split: option.splits)
      with done_ok[OF cl] memo_okD(3)[of direct cl x] c show False by (auto simp: reach_def)
    qed
  next
    assume a: "acyclic_deps direct"
    show "\<exists>cl. visit_all direct = Inr cl"
    proof (cases "visit_deps direct (map fst direct) [] [] {}")
      case (Inl e)
      then show ?thesis using visit_cycle(2)[OF Inl] a by (auto simp: acyclic_deps_def)
    qed (auto simp: visit_all_def)
  qed
qed

text \<open>
  C19: the ancestry of a set of layers is found exactly when every dependency is a layer and no
  layer depends on itself through others; it then maps each layer to all its direct and indirect
  dependencies.
\<close>

theorem layerAncestry_closure:
  "(\<exists>cl. layerAncestry layers = Inr cl) = (known_deps (direct_of layers) \<and> acyclic_deps (direct_of layers)) \<and>
   (\<forall>cl. layerAncestry layers = Inr cl \<longrightarrow>
      (\<forall>l \<in> set layers. map_of cl (ly_id l) = Some (reach (direct_of layers) (ly_id l))))"
proof -
  let ?d = "direct_of layers"
  have d: "distinct (map fst ?d)" by (simp add: direct_of_def distinct_new_Map)
  have keys: "map_keys ?d = ly_id ` set layers" by (simp add: direct_of_def keys_new_Map image_image)
  have "layerAncestry layers = (if known_deps ?d then visit_all ?d else layerAncestry layers)"
    using unknown_dependency_None[of ?d] by (cases "unknown_dependency ?d") (simp_all add: layerAncestry_def Let_def)
  moreover have "\<exists>e. layerAncestry layers = Inl e" if "\<not> known_deps ?d"
    using that unknown_dependency_None[of ?d] by (auto simp: layerAncestry_def Let_def split: option.splits)
  ultimately show ?thesis using visit_all_result[OF d] keys by (cases "known_deps ?d") auto
qed

definition sample_layers :: "layer list" where
  "sample_layers = [\<lparr>ly_id = ''base'', ly_dependsOn = None\<rparr>, \<lparr>ly_id = ''crm'', ly_dependsOn = Some [''base'']\<rparr>,
                    \<lparr>ly_id = ''site'', ly_dependsOn = Some [''crm'']\<rparr>]"

lemma sample_ancestry: "layerAncestry sample_layers = Inr [(''base'', {}), (''crm'', {''base''}), (''site'', {''crm'', ''base''})]"
  by code_simp

theorem layerAncestry_closure_witness: "reach (direct_of sample_layers) ''site'' = {''crm'', ''base''}"
proof -
  have "\<forall>l \<in> set sample_layers. map_of [(''base'', {}), (''crm'', {''base''}), (''site'', {''crm'', ''base''})] (ly_id l) =
      Some (reach (direct_of sample_layers) (ly_id l))"
    using layerAncestry_closure[of sample_layers] sample_ancestry by blast
  from bspec[OF this, of "\<lparr>ly_id = ''site'', ly_dependsOn = Some [''crm'']\<rparr>"] show ?thesis
    by (simp add: sample_layers_def)
qed


section \<open>Overriding\<close>

text \<open>One field set by several layers in turn, as \<open>overridesField\<close> decides.\<close>

definition set_field :: "ancestry \<Rightarrow> string \<Rightarrow> (string \<times> 'v) option \<Rightarrow> string \<times> 'v \<Rightarrow> (string \<times> 'v) option result" where
  "set_field ancestors what previous setting =
     rbind (overridesField ancestors (map_option fst previous) (fst setting) what) (\<lambda>wins. Inr (if wins then Some setting else previous))"

fun set_fields :: "ancestry \<Rightarrow> string \<Rightarrow> (string \<times> 'v) option \<Rightarrow> (string \<times> 'v) list \<Rightarrow> (string \<times> 'v) option result" where
  "set_fields ancestors what previous [] = Inr previous"
| "set_fields ancestors what previous (s # ss) =
     rbind (set_field ancestors what previous s) (\<lambda>next. set_fields ancestors what next ss)"

definition related :: "ancestry \<Rightarrow> string \<Rightarrow> string \<Rightarrow> bool" where
  "related ancestors a b \<longleftrightarrow> a = b \<or> has_ancestor ancestors a b \<or> has_ancestor ancestors b a"

definition derives :: "ancestry \<Rightarrow> string \<Rightarrow> string \<Rightarrow> bool" where
  "derives ancestors a b \<longleftrightarrow> a = b \<or> has_ancestor ancestors a b"

lemma find_holds: "find P xs = Some x \<Longrightarrow> x \<in> set xs \<and> P x"
  by (induction xs) (auto split: if_splits)

text \<open>What the alteration rules need of an ancestry: a strict order.\<close>

locale layer_order =
  fixes ancestors :: ancestry
  assumes irreflexive: "\<not> has_ancestor ancestors a a"
    and transitive: "has_ancestor ancestors a b \<Longrightarrow> has_ancestor ancestors b c \<Longrightarrow> has_ancestor ancestors a c"
begin

lemma asymmetric: "has_ancestor ancestors a b \<Longrightarrow> \<not> has_ancestor ancestors b a"
  using irreflexive transitive by blast

lemma overridesField_related: "(\<exists>b. overridesField ancestors (Some p) l what = Inr b) \<longleftrightarrow> related ancestors p l"
  by (auto simp: overridesField_def related_def)

lemma overridesField_wins: "overridesField ancestors (Some p) l what = Inr True \<longleftrightarrow> p = l \<or> has_ancestor ancestors l p"
  by (auto simp: overridesField_def)

lemma derives_trans: "derives ancestors a b \<Longrightarrow> derives ancestors b c \<Longrightarrow> derives ancestors a c"
  using transitive by (auto simp: derives_def)

lemma set_fields_most_derived:
  assumes "\<forall>a \<in> insert (fst p) (fst ` set ss). \<forall>b \<in> insert (fst p) (fst ` set ss). related ancestors a b"
  shows "\<exists>w \<in> insert p (set ss). set_fields ancestors what (Some p) ss = Inr (Some w) \<and>
           (\<forall>l \<in> insert (fst p) (fst ` set ss). derives ancestors (fst w) l)"
  using assms
proof (induction ss arbitrary: p)
  case Nil
  then show ?case by (simp add: derives_def)
next
  case (Cons s ss)
  have rel: "related ancestors (fst p) (fst s)" using Cons.prems by simp
  show ?case
  proof (cases "derives ancestors (fst s) (fst p)")
    case True
    then have "set_field ancestors what (Some p) s = Inr (Some s)"
      by (auto simp: set_field_def overridesField_def derives_def)
    moreover obtain w where "w \<in> insert s (set ss)" "set_fields ancestors what (Some s) ss = Inr (Some w)"
        "\<forall>l \<in> insert (fst s) (fst ` set ss). derives ancestors (fst w) l"
      using Cons.IH[of s] Cons.prems by (simp only: set_simps image_insert) blast
    ultimately show ?thesis using derives_trans[OF _ True, of "fst w"] by (intro bexI[of _ w]) auto
  next
    case False
    then have "derives ancestors (fst p) (fst s)" using rel by (auto simp: derives_def related_def)
    with False have d: "derives ancestors (fst p) (fst s)" "set_field ancestors what (Some p) s = Inr (Some p)"
      by (auto simp: set_field_def overridesField_def derives_def)
    obtain w where "w \<in> insert p (set ss)" "set_fields ancestors what (Some p) ss = Inr (Some w)"
        "\<forall>l \<in> insert (fst p) (fst ` set ss). derives ancestors (fst w) l"
      using Cons.IH[of p] Cons.prems by (simp only: set_simps image_insert) blast
    then show ?thesis using derives_trans[OF _ d(1), of "fst w"] d(2) by (intro bexI[of _ w]) auto
  qed
qed

lemma commonBase_unique:
  assumes "commonBase candidates ancestors = Some b" "c \<in> set candidates"
    and "\<forall>other \<in> set candidates. other = c \<or> has_ancestor ancestors other c"
  shows "c = b"
proof -
  have "b \<in> set candidates \<and> (\<forall>other \<in> set candidates. other = b \<or> has_ancestor ancestors other b)"
    using find_holds[OF assms(1)[unfolded commonBase_def Let_def]] by (simp add: list_all_iff)
  then have "c = b \<or> has_ancestor ancestors c b" "b = c \<or> has_ancestor ancestors b c" using assms(2,3) by blast+
  then show ?thesis using asymmetric[of b c] by blast
qed

end

text \<open>The ancestry the compilation found; empty when it failed.\<close>

definition ancestry_of :: "'a layer_scheme list \<Rightarrow> ancestry" where
  "ancestry_of layers = (case layerAncestry layers of Inr cl \<Rightarrow> cl | Inl _ \<Rightarrow> [])"

lemma ancestry_of_order: "layer_order (ancestry_of layers)"
proof (cases "layerAncestry layers")
  case (Inl e)
  then show ?thesis by unfold_locales (simp_all add: ancestry_of_def has_ancestor_def)
next
  case (Inr cl)
  then have "visit_all (direct_of layers) = Inr cl"
    by (auto simp: layerAncestry_def Let_def split: option.splits)
  then have ok: "memo_ok (direct_of layers) cl"
    by (rule visit_all_result(3)[rotated]) (simp add: direct_of_def distinct_new_Map)
  have anc: "has_ancestor cl a b \<longleftrightarrow> a \<in> map_keys cl \<and> b \<in> reach (direct_of layers) a" for a b
    using memo_okD(1)[OF ok, of a] map_of_None_keys[of cl a] by (auto simp: has_ancestor_def split: option.splits)
  show ?thesis
  proof
    show "\<not> has_ancestor (ancestry_of layers) a a" for a
      using memo_okD(3)[OF ok, of a] Inr by (auto simp: ancestry_of_def anc)
    show "has_ancestor (ancestry_of layers) a c" if "has_ancestor (ancestry_of layers) a b" "has_ancestor (ancestry_of layers) b c" for a b c
      using that Inr by (auto simp: ancestry_of_def anc reach_def)
  qed
qed

interpretation composed: layer_order "ancestry_of layers" for layers :: "'a layer_scheme list"
  by (rule ancestry_of_order)



lemma sample_related:
  "\<forall>a \<in> fst ` set [(''site'', 1 :: nat), (''base'', 2), (''crm'', 3)]. \<forall>b \<in> fst ` set [(''site'', 1 :: nat), (''base'', 2), (''crm'', 3)].
     related (ancestry_of sample_layers) a b"
  by (simp add: ancestry_of_def sample_ancestry related_def has_ancestor_def)



end
