(* ===== verification/Routes.thy ===== *)
theory Routes
  imports Layers JsValues
begin

text \<open>
  Route declarations of add-ons: \<open>packages/app/src/route-paths.ts\<close> resolves the paths of nested
  routes, \<open>packages/app/src/mounts.ts\<close> adds the alias routes of mounted pages, and
  \<open>resourcePageRoutes\<close> of \<open>define-base-addon.ts\<close> declares the list and record routes of a resource.
  A component is a value of the type \<open>'c\<close>.
\<close>

record record_match =
  rm_field :: string
  rm_equals :: "string list"

record 'c addon_route =
  ar_name :: string
  ar_path :: string
  ar_parent :: "string option"
  ar_layout :: "string option"
  ar_component :: "'c option"
  ar_indexComponent :: "'c option"
  ar_menu :: "string option"
  ar_resource :: "string option"
  ar_recordModel :: "string option"
  ar_recordMatch :: "record_match option"
  ar_defaultResourceView :: "string option"
  ar_defaultFilter :: "jsval option"
  ar_title :: "jsval option"
  ar_icon :: "string option"

definition new_route :: "string \<Rightarrow> string \<Rightarrow> 'c addon_route" where
  "new_route name path =
     \<lparr>ar_name = name, ar_path = path, ar_parent = None, ar_layout = None, ar_component = None, ar_indexComponent = None,
      ar_menu = None, ar_resource = None, ar_recordModel = None, ar_recordMatch = None, ar_defaultResourceView = None,
      ar_defaultFilter = None, ar_title = None, ar_icon = None\<rparr>"

section \<open>Paths\<close>

definition normalizeRoutePath :: "string \<Rightarrow> string" where
  "normalizeRoutePath path =
     (if path = ''/'' then ''/''
      else rev (dropWhile (\<lambda>c. c = CHR ''/'') (rev (if startsWith path ''/'' then path else CHR ''/'' # path))))"

definition routePathUnderParent :: "'c addon_route \<Rightarrow> 'c addon_route option \<Rightarrow> string" where
  "routePathUnderParent route parent =
     (case parent of
        None \<Rightarrow> ar_path route
      | Some p \<Rightarrow>
          (let parentPath = normalizeRoutePath (ar_path p); childPath = normalizeRoutePath (ar_path route)
           in if parentPath = childPath then []
              else if parentPath = ''/'' then drop 1 childPath
              else if startsWith childPath (parentPath @ ''/'') then drop (length parentPath + 1) childPath
              else drop 1 childPath))"

definition fullRoutePath :: "'c addon_route \<Rightarrow> 'c addon_route option \<Rightarrow> string" where
  "fullRoutePath route parent =
     (case parent of
        None \<Rightarrow> normalizeRoutePath (ar_path route)
      | Some p \<Rightarrow>
          (let childPath = routePathUnderParent route (Some p); parentPath = normalizeRoutePath (ar_path p)
           in if childPath = [] then parentPath
              else if parentPath = ''/'' then normalizeRoutePath (CHR ''/'' # childPath)
              else normalizeRoutePath (parentPath @ ''/'' @ childPath)))"

definition identifier_start :: "char \<Rightarrow> bool" where
  "identifier_start c \<longleftrightarrow> c = CHR ''_'' \<or> (65 \<le> (of_char c :: nat) \<and> of_char c \<le> (90 :: nat)) \<or> (97 \<le> (of_char c :: nat) \<and> of_char c \<le> (122 :: nat))"

definition routeParameterName :: "string \<Rightarrow> string option" where
  "routeParameterName segment =
     (case segment of
        d # c # cs \<Rightarrow> if d = CHR ''$'' \<and> identifier_start c \<and> list_all (\<lambda>x. identifier_start x \<or> digit_char x) cs then Some (c # cs) else None
      | _ \<Rightarrow> None)"

definition trailingRouteParamName :: "string \<Rightarrow> string option" where
  "trailingRouteParamName path =
     (let segment = last (js_split (CHR ''/'') (normalizeRoutePath path))
      in if segment = [] then None else routeParameterName segment)"

definition routeChildHasTrailingParam :: "'c addon_route \<Rightarrow> 'c addon_route \<Rightarrow> bool" where
  "routeChildHasTrailingParam route parent \<longleftrightarrow>
     truthy_string (trailingRouteParamName (routePathUnderParent route (Some parent))) \<noteq> None"

section \<open>Resolution\<close>

type_synonym 'c routes_map = "(string \<times> 'c addon_route) list"

definition routes_by_name :: "'c addon_route list \<Rightarrow> 'c routes_map" where
  "routes_by_name routes = new_Map (map (\<lambda>r. (ar_name r, r)) routes)"

definition route_names :: "'c routes_map \<Rightarrow> string set" where
  "route_names byName = (ar_name \<circ> snd) ` set byName"

lemma route_names_mem: "map_of byName p = Some r \<Longrightarrow> ar_name r \<in> route_names byName"
  by (force simp: route_names_def dest: map_of_SomeD)

function resolve_route ::
  "'c routes_map \<Rightarrow> 'c addon_route \<Rightarrow> string set \<Rightarrow> 'c routes_map \<Rightarrow> ('c routes_map \<times> 'c addon_route) result" where
  "resolve_route byName route visiting resolved =
     (case map_of resolved (ar_name route) of
        Some cached \<Rightarrow> Inr (resolved, cached)
      | None \<Rightarrow>
          if ar_name route \<in> visiting then Inl (JsError (''Route \"'' @ ar_name route @ ''\" creates a parent cycle.''))
          else case truthy_string (ar_parent route) of
            None \<Rightarrow>
              (let r = route\<lparr>ar_path := fullRoutePath route None\<rparr> in Inr (map_put (ar_name route) r resolved, r))
          | Some p \<Rightarrow>
              (case map_of byName p of
                 None \<Rightarrow> Inl (JsError (''Route \"'' @ ar_name route @ ''\" references unknown parent route \"'' @ p @ ''\".''))
               | Some parent \<Rightarrow>
                   rbind (resolve_route byName parent (insert (ar_name route) visiting) resolved) (\<lambda>(resolved', parent').
                     let r = route\<lparr>ar_path := fullRoutePath route (Some parent')\<rparr> in Inr (map_put (ar_name route) r resolved', r))))"
  by pat_completeness auto
termination
proof (relation "measure (\<lambda>(byName, route, visiting, resolved).
    2 * card (route_names byName - visiting) + (if ar_name route \<in> route_names byName then 0 else 1))", goal_cases)
  case (2 byName route visiting resolved p parent)
  then have parent: "ar_name parent \<in> route_names byName"
    by (auto intro: route_names_mem)
  show ?case
  proof (cases "ar_name route \<in> route_names byName")
    case True
    then have "card (route_names byName - insert (ar_name route) visiting) < card (route_names byName - visiting)"
      using 2(2) by (intro psubset_card_mono) (auto simp: route_names_def)
    then show ?thesis using True parent by simp
  next
    case False
    then have "route_names byName - insert (ar_name route) visiting = route_names byName - visiting" by auto
    then show ?thesis using False parent by simp
  qed
qed auto

declare resolve_route.simps [simp del]

fun resolve_routes :: "'c routes_map \<Rightarrow> 'c addon_route list \<Rightarrow> 'c routes_map \<Rightarrow> 'c addon_route list result" where
  "resolve_routes byName [] resolved = Inr []"
| "resolve_routes byName (route # routes) resolved =
     rbind (resolve_route byName route {} resolved) (\<lambda>(resolved', r).
       rbind (resolve_routes byName routes resolved') (\<lambda>rs. Inr (r # rs)))"

definition resolveRoutePaths :: "'c addon_route list \<Rightarrow> 'c addon_route list result" where
  "resolveRoutePaths routes = resolve_routes (routes_by_name routes) routes []"

text \<open>Endless recursion along a parent cycle ends in the engine's stack error.\<close>

function inherited_fact ::
  "'c addon_route \<Rightarrow> 'c routes_map \<Rightarrow> ('c addon_route \<Rightarrow> 'f option) \<Rightarrow> string set \<Rightarrow> 'f option result" where
  "inherited_fact route byName fact_of seen =
     (case fact_of route of
        Some value \<Rightarrow> Inr (Some value)
      | None \<Rightarrow>
          (case Option.bind (truthy_string (ar_parent route)) (map_of byName) of
             None \<Rightarrow> Inr None
           | Some parent \<Rightarrow>
               if ar_name route \<in> seen then Inl (JsError ''Maximum call stack size exceeded'')
               else inherited_fact parent byName fact_of (insert (ar_name route) seen)))"
  by pat_completeness auto
termination
proof (relation "measure (\<lambda>(route, byName, fact_of, seen).
    2 * card (route_names byName - seen) + (if ar_name route \<in> route_names byName then 0 else 1))", goal_cases)
  case (2 route byName fact_of seen parent)
  then have parent: "ar_name parent \<in> route_names byName"
    by (auto simp: bind_eq_Some_conv intro: route_names_mem)
  show ?case
  proof (cases "ar_name route \<in> route_names byName")
    case True
    then have "card (route_names byName - insert (ar_name route) seen) < card (route_names byName - seen)"
      using 2(3) by (intro psubset_card_mono) (auto simp: route_names_def)
    then show ?thesis using True parent by simp
  next
    case False
    then have "route_names byName - insert (ar_name route) seen = route_names byName - seen" by auto
    then show ?thesis using False parent by simp
  qed
qed auto

declare inherited_fact.simps [simp del]

definition inheritedRouteFact ::
  "'c addon_route \<Rightarrow> 'c routes_map \<Rightarrow> ('c addon_route \<Rightarrow> 'f option) \<Rightarrow> 'f option result" where
  "inheritedRouteFact route byName fact_of = inherited_fact route byName fact_of {}"

definition childRoutesByParentName :: "'c addon_route list \<Rightarrow> (string \<times> 'c addon_route list) list" where
  "childRoutesByParentName routes =
     foldl (\<lambda>children route. case truthy_string (ar_parent route) of
              None \<Rightarrow> children
            | Some p \<Rightarrow> map_put p (or_else (map_of children p) [] @ [route]) children) [] routes"

section \<open>Mounted pages\<close>

record menu_mount =
  mm_id :: string
  mm_route :: string
  mm_path :: string
  mm_by :: string
  mm_recordMatch :: "record_match option"
  mm_defaultResourceView :: "string option"
  mm_defaultFilter :: "jsval option"

definition claim_name :: "string set \<Rightarrow> menu_mount \<Rightarrow> string \<Rightarrow> string set result" where
  "claim_name names mount name =
     (if name \<in> names
      then Inl (JsError (''Menu item \"'' @ mm_id mount @ ''\" mounts \"'' @ mm_route mount @ ''\" as route \"'' @ name @ ''\", which another route already names.''))
      else Inr (insert name names))"

definition mount_error :: "menu_mount \<Rightarrow> string \<Rightarrow> string \<Rightarrow> js_error" where
  "mount_error mount what rest = JsError (''Menu item \"'' @ mm_id mount @ ''\" mounts '' @ what @ '' \"'' @ mm_route mount @ ''\"'' @ rest)"

text \<open>The alias routes of one mount, the names claimed so far, and its family of names.\<close>

definition mount_route ::
  "'c routes_map \<Rightarrow> (string \<times> 'c addon_route list) list \<Rightarrow> string set \<Rightarrow> menu_mount \<Rightarrow>
   (string set \<times> 'c addon_route list \<times> (string \<times> string) list) result" where
  "mount_route byName children names mount =
     (case map_of byName (mm_route mount) of
        None \<Rightarrow> Inl (mount_error mount ''unknown route'' ''.'')
      | Some source \<Rightarrow>
          if CHR ''$'' \<in> set (ar_path source)
          then Inl (mount_error mount ''parameterized route'' ''; mount a collection or page route.'')
          else
            (let records = filter (\<lambda>child. routeChildHasTrailingParam child source) (or_else (map_of children (ar_name source)) [])
             in if length records > 1
                then Inl (JsError (''Route \"'' @ ar_name source @ ''\" has multiple record routes, which a mount cannot choose between.''))
                else
                  rbind (inheritedRouteFact source byName ar_layout) (\<lambda>layout.
                  rbind (inheritedRouteFact source byName (\<lambda>r. case ar_recordModel r of Some m \<Rightarrow> Some m | None \<Rightarrow> ar_resource r)) (\<lambda>model.
                  rbind (case mm_defaultResourceView mount of Some v \<Rightarrow> Inr (Some v) | None \<Rightarrow> inheritedRouteFact source byName ar_defaultResourceView) (\<lambda>view.
                  rbind (case mm_defaultFilter mount of Some f \<Rightarrow> Inr (Some f) | None \<Rightarrow> inheritedRouteFact source byName ar_defaultFilter) (\<lambda>flt.
                  rbind (claim_name names mount (mm_id mount)) (\<lambda>names'.
                    let collection = (new_route (mm_id mount) (mm_path mount))\<lparr>ar_menu := Some (mm_id mount), ar_layout := truthy_string layout,
                          ar_component := ar_component source, ar_indexComponent := ar_indexComponent source, ar_recordModel := truthy_string model,
                          ar_defaultResourceView := truthy_string view, ar_defaultFilter := flt, ar_recordMatch := mm_recordMatch mount\<rparr>
                    in case records of
                         [] \<Rightarrow> Inr (names', [collection], [(ar_name source, mm_id mount)])
                       | record # _ \<Rightarrow>
                           rbind (claim_name names' mount (mm_id mount @ ''.record'')) (\<lambda>names''.
                             let path = fullRoutePath (new_route (mm_id mount @ ''.record'') (routePathUnderParent record (Some source))) (Some collection);
                                 alias = (new_route (mm_id mount @ ''.record'') path)\<lparr>ar_parent := Some (mm_id mount),
                                   ar_component := ar_component record, ar_indexComponent := ar_indexComponent record\<rparr>
                             in Inr (names'', [collection, alias],
                                     map_put (ar_name record) (mm_id mount @ ''.record'') [(ar_name source, mm_id mount)])))))))))"

fun mount_loop ::
  "'c routes_map \<Rightarrow> (string \<times> 'c addon_route list) list \<Rightarrow> string set \<Rightarrow> menu_mount list \<Rightarrow>
   ('c addon_route list \<times> (string \<times> string) list list) result" where
  "mount_loop byName children names [] = Inr ([], [])"
| "mount_loop byName children names (mount # mounts) =
     rbind (mount_route byName children names mount) (\<lambda>(names', aliases, family).
       rbind (mount_loop byName children names' mounts) (\<lambda>(more, families). Inr (aliases @ more, family # families)))"

definition mountRoutes :: "'c addon_route list \<Rightarrow> menu_mount list \<Rightarrow> ('c addon_route list \<times> (string \<times> string) list list) result" where
  "mountRoutes routes mounts =
     (let byName = routes_by_name routes
      in rbind (mount_loop byName (childRoutesByParentName routes) (map_keys byName) mounts) (\<lambda>(aliases, families).
           Inr (routes @ aliases, families)))"

section \<open>Resource pages\<close>

record 'c page_options =
  po_layout :: "string option"
  po_menu :: "string option"
  po_detailName :: "string option"
  po_param :: "string option"
  po_detailMenu :: "string option"
  po_detailComponent :: "'c option"
  po_recordModel :: "string option"
  po_recordMatch :: "record_match option"
  po_defaultResourceView :: "string option"
  po_defaultFilter :: "jsval option"

definition resourcePageRoutes :: "string \<Rightarrow> string \<Rightarrow> 'c \<Rightarrow> string option \<Rightarrow> 'c page_options \<Rightarrow> 'c addon_route list" where
  "resourcePageRoutes name path component resource options =
     (let layout = or_else (po_layout options) ''console''; param = or_else (po_param options) ''id''
      in [(new_route name path)\<lparr>ar_layout := Some layout,
            ar_indexComponent := (if po_detailComponent options \<noteq> None then Some component else None),
            ar_component := (if po_detailComponent options \<noteq> None then None else Some component),
            ar_resource := truthy_string resource, ar_recordModel := truthy_string (po_recordModel options),
            ar_recordMatch := po_recordMatch options, ar_menu := truthy_string (po_menu options),
            ar_defaultResourceView := truthy_string (po_defaultResourceView options), ar_defaultFilter := po_defaultFilter options\<rparr>,
          (new_route (or_else (po_detailName options) (name @ ''.record'')) (path @ ''/$'' @ param))\<lparr>ar_layout := Some layout,
            ar_parent := Some name, ar_menu := truthy_string (po_detailMenu options), ar_component := po_detailComponent options\<rparr>])"


end
