(* ===== verification/RouteClaims.thy ===== *)
theory RouteClaims
  imports Routes
begin

text \<open>
  Properties of route resolution: nested paths lie below their parents, resolving succeeds exactly
  on declarations whose parents lead to a root, and mounted pages get new names of their own.
\<close>

section \<open>Paths\<close>

definition plain_end :: "string \<Rightarrow> bool" where
  "plain_end s \<longleftrightarrow> s = [] \<or> last s \<noteq> CHR ''/''"

definition normal_path :: "string \<Rightarrow> bool" where
  "normal_path s \<longleftrightarrow> s = ''/'' \<or> s = [] \<or> (hd s = CHR ''/'' \<and> plain_end s)"

lemma dropWhile_rev_plain: "plain_end (rev (dropWhile (\<lambda>c. c = CHR ''/'') (rev s)))"
proof -
  have "rev (dropWhile (\<lambda>c. c = CHR ''/'') (rev s)) = [] \<or> last (rev (dropWhile (\<lambda>c. c = CHR ''/'') (rev s))) \<noteq> CHR ''/''"
    using hd_dropWhile[of "\<lambda>c. c = CHR ''/''" "rev s"] by (auto simp: last_rev)
  then show ?thesis by (simp add: plain_end_def)
qed

lemma dropWhile_rev_id: "plain_end s \<Longrightarrow> rev (dropWhile (\<lambda>c. c = CHR ''/'') (rev s)) = s"
  by (cases s rule: rev_cases) (auto simp: plain_end_def)

lemma hd_dropWhile_rev: "rev (dropWhile P (rev s)) \<noteq> [] \<Longrightarrow> hd (rev (dropWhile P (rev s))) = hd s"
proof -
  obtain t where "rev s = takeWhile P (rev s) @ dropWhile P (rev s)" by simp
  then have s: "s = rev (dropWhile P (rev s)) @ rev (takeWhile P (rev s))" by (metis rev_append rev_rev_ident)
  assume "rev (dropWhile P (rev s)) \<noteq> []"
  then show ?thesis by (metis s hd_append2)
qed

lemma startsWith_slash: "startsWith s ''/'' \<longleftrightarrow> s \<noteq> [] \<and> hd s = CHR ''/''"
  by (cases s) (auto simp: startsWith_def)

lemma normalize_normal: "normal_path (normalizeRoutePath s)"
proof (cases "s = ''/''")
  case False
  let ?t = "if startsWith s ''/'' then s else CHR ''/'' # s"
  have "hd ?t = CHR ''/''" by (auto simp: startsWith_slash)
  moreover define r where "r = rev (dropWhile (\<lambda>c. c = CHR ''/'') (rev ?t))"
  ultimately have "r = [] \<or> hd r = CHR ''/''" using hd_dropWhile_rev[of "\<lambda>c. c = CHR ''/''" ?t] by metis
  moreover have "plain_end r" unfolding r_def by (rule dropWhile_rev_plain)
  moreover have "normalizeRoutePath s = r" using False unfolding normalizeRoutePath_def r_def by (simp only: if_False)
  ultimately show ?thesis by (auto simp: normal_path_def)
qed (simp add: normalizeRoutePath_def normal_path_def)

lemma normalize_fixed: "normal_path s \<Longrightarrow> normalizeRoutePath s = s"
proof -
  assume n: "normal_path s"
  consider "s = ''/''" | "s = []" | "s \<noteq> []" "hd s = CHR ''/''" "plain_end s" using n by (auto simp: normal_path_def)
  then show ?thesis
  proof cases
    case 3
    then show ?thesis using dropWhile_rev_id[of s] by (auto simp: normalizeRoutePath_def startsWith_slash plain_end_def)
  qed (simp_all add: normalizeRoutePath_def startsWith_slash)
qed

text \<open>What a child adds to its parent's path.\<close>

definition below :: "string \<Rightarrow> string \<Rightarrow> string" where
  "below parent c = (if c = [] then parent else if parent = ''/'' then CHR ''/'' # c else parent @ ''/'' @ c)"

lemma plain_drop: "normal_path s \<Longrightarrow> drop n s \<noteq> [] \<Longrightarrow> n \<noteq> 0 \<Longrightarrow> drop n s \<noteq> [] \<and> last (drop n s) \<noteq> CHR ''/''"
  by (auto simp: normal_path_def plain_end_def last_drop drop_Cons' split: if_splits)

lemma below_normal: "normal_path p \<Longrightarrow> c \<noteq> [] \<Longrightarrow> last c \<noteq> CHR ''/'' \<Longrightarrow> normal_path (below p c)"
  by (cases p) (auto simp: below_def normal_path_def plain_end_def)

lemma routePathUnderParent_plain:
  "routePathUnderParent route (Some p) = [] \<or> last (routePathUnderParent route (Some p)) \<noteq> CHR ''/''"
  using plain_drop[OF normalize_normal[of "ar_path route"]]
  by (auto simp: routePathUnderParent_def Let_def)

lemma fullRoutePath_below:
  "fullRoutePath route (Some p) = below (normalizeRoutePath (ar_path p)) (routePathUnderParent route (Some p))"
proof -
  let ?c = "routePathUnderParent route (Some p)" and ?p = "normalizeRoutePath (ar_path p)"
  have "normalizeRoutePath (below ?p ?c) = below ?p ?c"
    using routePathUnderParent_plain[of route p] normalize_normal[of "ar_path p"] below_normal[of ?p ?c]
    by (cases "?c = []") (auto simp: below_def intro!: normalize_fixed)
  then show ?thesis by (auto simp: fullRoutePath_def Let_def below_def)
qed

lemma under_below:
  assumes "normalizeRoutePath (ar_path p) = q" "normal_path (below q c)" "c \<noteq> []"
  shows "routePathUnderParent (route\<lparr>ar_path := below q c\<rparr>) (Some p) = c"
  using assms(1,3) normalize_fixed[OF assms(2)]
  by (auto simp: routePathUnderParent_def Let_def below_def startsWith_iff_prefix)

text \<open>
  The resolved path of a nested route is its parent's path or lies below it, and resolving a
  resolved route under the same parent changes nothing.
\<close>

theorem fullRoutePath_nested:
  "(\<exists>c. fullRoutePath route (Some p) = below (normalizeRoutePath (ar_path p)) c) \<and>
   fullRoutePath (route\<lparr>ar_path := fullRoutePath route (Some p)\<rparr>) (Some p) = fullRoutePath route (Some p)"
proof
  let ?c = "routePathUnderParent route (Some p)" and ?p = "normalizeRoutePath (ar_path p)"
  show "\<exists>c. fullRoutePath route (Some p) = below ?p c" using fullRoutePath_below by blast
  show "fullRoutePath (route\<lparr>ar_path := fullRoutePath route (Some p)\<rparr>) (Some p) = fullRoutePath route (Some p)"
  proof (cases "?c = []")
    case True
    then have "fullRoutePath route (Some p) = ?p" by (simp add: fullRoutePath_below below_def)
    moreover have "routePathUnderParent (route\<lparr>ar_path := ?p\<rparr>) (Some p) = []"
      using normalize_fixed[OF normalize_normal[of "ar_path p"]] by (simp add: routePathUnderParent_def)
    ultimately show ?thesis by (simp add: fullRoutePath_below below_def)
  next
    case False
    have "normal_path (below ?p ?c)"
      using False routePathUnderParent_plain[of route p] normalize_normal[of "ar_path p"] by (intro below_normal) auto
    from under_below[OF refl this False, of route] show ?thesis by (simp add: fullRoutePath_below)
  qed
qed


section \<open>Resolution\<close>

text \<open>The names from a route up to its root, and the path the route resolves to.\<close>

inductive route_chain :: "'c routes_map \<Rightarrow> 'c addon_route \<Rightarrow> string list \<Rightarrow> string \<Rightarrow> bool" for byName where
  root: "truthy_string (ar_parent r) = None \<Longrightarrow> route_chain byName r [ar_name r] (fullRoutePath r None)"
| child: "truthy_string (ar_parent r) = Some p \<Longrightarrow> map_of byName p = Some q \<Longrightarrow> route_chain byName q ns path \<Longrightarrow>
    route_chain byName r (ar_name r # ns) (fullRoutePath r (Some (q\<lparr>ar_path := path\<rparr>)))"

definition named :: "'c routes_map \<Rightarrow> bool" where
  "named byName \<longleftrightarrow> (\<forall>n r. map_of byName n = Some r \<longrightarrow> ar_name r = n)"

lemma named_self: "named byName \<Longrightarrow> map_of byName p = Some q \<Longrightarrow> map_of byName (ar_name q) = Some q"
  unfolding named_def by force

lemma route_chain_root:
  assumes "truthy_string (ar_parent r) = None" "route_chain byName r ns path"
  shows "ns = [ar_name r] \<and> path = fullRoutePath r None"
  using assms(2)
proof (cases rule: route_chain.cases)
  case root
  then show ?thesis by blast
next
  case (child p q ms path')
  then show ?thesis using assms(1) by simp
qed

lemma route_chain_child:
  assumes "truthy_string (ar_parent r) = Some p" "map_of byName p = Some q" "route_chain byName r ns path"
  obtains ms path' where "ns = ar_name r # ms" "route_chain byName q ms path'" "path = fullRoutePath r (Some (q\<lparr>ar_path := path'\<rparr>))"
  using assms(3)
proof (cases rule: route_chain.cases)
  case root
  then show ?thesis using assms(1) by simp
next
  case (child p' q' ms path')
  then have "p' = p" using assms(1) by (metis option.inject)
  with child(4) assms(2) have "q' = q" by (metis option.inject)
  with child that show ?thesis by blast
qed

lemma route_chain_unique: "route_chain byName r ns path \<Longrightarrow> route_chain byName r ms path' \<Longrightarrow> ns = ms \<and> path = path'"
proof (induction arbitrary: ms path' rule: route_chain.induct)
  case (root r)
  then show ?case using route_chain_root[OF root(1) root(2)] by simp
next
  case (child r p q ns path)
  obtain ms' path'' where "ms = ar_name r # ms'" "route_chain byName q ms' path''"
      "path' = fullRoutePath r (Some (q\<lparr>ar_path := path''\<rparr>))"
    using route_chain_child[OF child.hyps(1,2) child.prems] .
  with child.IH[of ms' path''] show ?case by simp
qed

lemma route_chain_member:
  assumes "named byName"
  shows "route_chain byName r ns path \<Longrightarrow> map_of byName (ar_name r) = Some r \<Longrightarrow> n \<in> set ns \<Longrightarrow>
    \<exists>q ms path'. map_of byName n = Some q \<and> route_chain byName q ms path' \<and> length ms \<le> length ns"
proof (induction rule: route_chain.induct)
  case (root r)
  then show ?case using route_chain.root[OF root(1), of byName] by (intro exI[of _ r] exI[of _ "[ar_name r]"]) auto
next
  case (child r p q ns path)
  have q: "map_of byName (ar_name q) = Some q" using named_self[OF assms child.hyps(2)] .
  show ?case
  proof (cases "n = ar_name r")
    case True
    then show ?thesis using child.prems(1) route_chain.child[OF child.hyps(1-3)] by blast
  next
    case False
    then have "n \<in> set ns" using child.prems(2) by simp
    from child.IH[OF q this] obtain q' ms path' where "map_of byName n = Some q'" "route_chain byName q' ms path'" "length ms \<le> length ns" by blast
    then show ?thesis by (intro exI[of _ q'] exI[of _ ms] exI[of _ path']) simp
  qed
qed

lemma route_chain_head:
  assumes "named byName" "map_of byName (ar_name r) = Some r" "truthy_string (ar_parent r) = Some p" "map_of byName p = Some q"
    "route_chain byName q ns path"
  shows "ar_name r \<notin> set ns"
proof
  assume n: "ar_name r \<in> set ns"
  have q: "map_of byName (ar_name q) = Some q" using named_self[OF assms(1,4)] .
  obtain ms path' where "route_chain byName r ms path'" "length ms \<le> length ns"
    using route_chain_member[OF assms(1,5) q n] assms(2) by auto
  then show False using route_chain_unique[OF route_chain.child[OF assms(3-5)]] by fastforce
qed

definition resolved_ok :: "'c routes_map \<Rightarrow> 'c routes_map \<Rightarrow> bool" where
  "resolved_ok byName resolved \<longleftrightarrow>
     (\<forall>n r. map_of resolved n = Some r \<longrightarrow> (\<exists>q ns path. map_of byName n = Some q \<and> route_chain byName q ns path \<and> r = q\<lparr>ar_path := path\<rparr>))"

lemma resolved_ok_put:
  assumes "resolved_ok byName resolved" "map_of byName (ar_name route) = Some route" "route_chain byName route ns path"
  shows "resolved_ok byName (map_put (ar_name route) (route\<lparr>ar_path := path\<rparr>) resolved)"
  unfolding resolved_ok_def
proof (intro allI impI)
  fix n r
  assume "map_of (map_put (ar_name route) (route\<lparr>ar_path := path\<rparr>) resolved) n = Some r"
  then have "n = ar_name route \<and> r = route\<lparr>ar_path := path\<rparr> \<or> map_of resolved n = Some r"
    by (simp split: if_splits)
  then show "\<exists>q ns path. map_of byName n = Some q \<and> route_chain byName q ns path \<and> r = q\<lparr>ar_path := path\<rparr>"
    using assms unfolding resolved_ok_def by blast
qed

lemma resolve_route_sound:
  "named byName \<Longrightarrow> resolve_route byName route visiting resolved = Inr (resolved', r) \<Longrightarrow> map_of byName (ar_name route) = Some route \<Longrightarrow>
    resolved_ok byName resolved \<Longrightarrow> resolved_ok byName resolved' \<and> (\<exists>ns path. route_chain byName route ns path \<and> r = route\<lparr>ar_path := path\<rparr>)"
proof (induction byName route visiting resolved arbitrary: resolved' r rule: resolve_route.induct)
  case (1 byName route visiting resolved)
  show ?case
  proof (cases "map_of resolved (ar_name route)")
    case (Some cached)
    then have "resolved' = resolved" "r = cached" using 1(3) by (simp_all add: resolve_route.simps)
    moreover obtain q ns path where "map_of byName (ar_name route) = Some q" "route_chain byName q ns path" "cached = q\<lparr>ar_path := path\<rparr>"
      using 1(5) Some unfolding resolved_ok_def by blast
    ultimately show ?thesis using 1(4,5) by auto
  next
    case None
    have fresh: "ar_name route \<notin> visiting" using 1(3) None by (auto simp: resolve_route.simps split: if_splits)
    show ?thesis
    proof (cases "truthy_string (ar_parent route)")
      case noparent: None
      then show ?thesis
        using 1(3-5) None fresh route_chain.root[OF noparent, of byName]
        by (auto simp: resolve_route.simps Let_def intro: resolved_ok_put)
    next
      case (Some p)
      then obtain parent res' parent' where step: "map_of byName p = Some parent"
          "resolve_route byName parent (insert (ar_name route) visiting) resolved = Inr (res', parent')"
          "r = route\<lparr>ar_path := fullRoutePath route (Some parent')\<rparr>" "resolved' = map_put (ar_name route) r res'"
        using 1(3) None fresh by (auto simp: resolve_route.simps[of byName route] rbind_Inr_iff Let_def split: option.splits)
      from 1(1)[OF None fresh Some step(1) 1(2) step(2) named_self[OF 1(2) step(1)] 1(5)] obtain ns path where ok: "resolved_ok byName res'"
          and chain: "route_chain byName parent ns path" and parent': "parent' = parent\<lparr>ar_path := path\<rparr>" by blast
      have r: "route_chain byName route (ar_name route # ns) (fullRoutePath route (Some parent'))"
        unfolding parent' using route_chain.child[OF Some step(1) chain] .
      show ?thesis unfolding step(4) step(3) using resolved_ok_put[OF ok 1(4) r] r by blast
    qed
  qed
qed

lemma resolve_route_complete:
  assumes "named byName"
  shows "route_chain byName route ns path \<Longrightarrow> map_of byName (ar_name route) = Some route \<Longrightarrow> set ns \<inter> visiting = {} \<Longrightarrow>
    \<exists>res. resolve_route byName route visiting resolved = Inr res"
proof (induction arbitrary: visiting resolved rule: route_chain.induct)
  case (root r)
  then show ?case by (auto simp: resolve_route.simps Let_def split: option.splits)
next
  case (child r p q ns path)
  have q: "map_of byName (ar_name q) = Some q" using named_self[OF assms child.hyps(2)] .
  have "ar_name r \<notin> set ns"
    using route_chain_head[OF assms child.prems(1) child.hyps(1-3)] .
  then have "set ns \<inter> insert (ar_name r) visiting = {}" using child.prems(2) by auto
  from child.IH[OF q this, of resolved] obtain res where "resolve_route byName q (insert (ar_name r) visiting) resolved = Inr res" ..
  then show ?case
    using child.hyps(1,2) child.prems(2) by (cases res) (auto simp: resolve_route.simps[of byName r] Let_def split: option.splits)
qed


definition resolves :: "'c routes_map \<Rightarrow> 'c addon_route \<Rightarrow> 'c addon_route \<Rightarrow> bool" where
  "resolves byName route r \<longleftrightarrow> (\<exists>ns path. route_chain byName route ns path \<and> r = route\<lparr>ar_path := path\<rparr>)"

lemma resolves_unique: "resolves byName route r \<Longrightarrow> resolves byName route r' \<Longrightarrow> r = r'"
  unfolding resolves_def using route_chain_unique by blast

lemma resolve_routes_sound:
  assumes "named byName"
  shows "resolve_routes byName routes resolved = Inr rs \<Longrightarrow> list_all (\<lambda>r. map_of byName (ar_name r) = Some r) routes \<Longrightarrow>
    resolved_ok byName resolved \<Longrightarrow> list_all2 (resolves byName) routes rs"
proof (induction routes arbitrary: resolved rs)
  case (Cons route routes)
  from Cons.prems(1) obtain resolved' r rs' where step: "resolve_route byName route {} resolved = Inr (resolved', r)"
      "resolve_routes byName routes resolved' = Inr rs'" "rs = r # rs'"
    by (auto simp: rbind_Inr_iff)
  have r: "resolved_ok byName resolved'" "resolves byName route r"
    using resolve_route_sound[OF assms step(1)] Cons.prems(2,3) unfolding resolves_def by simp_all
  from Cons.IH[OF step(2) _ r(1)] Cons.prems(2) r(2) show ?case by (simp add: step(3))
qed simp

lemma resolve_routes_complete:
  assumes "named byName"
  shows "list_all2 (resolves byName) routes rs \<Longrightarrow> list_all (\<lambda>r. map_of byName (ar_name r) = Some r) routes \<Longrightarrow>
    \<exists>rs'. resolve_routes byName routes resolved = Inr rs'"
proof (induction routes rs arbitrary: resolved rule: list_all2_induct)
  case (Cons route routes r rs)
  from Cons.hyps(1) obtain ns path where "route_chain byName route ns path" unfolding resolves_def by blast
  with resolve_route_complete[OF assms this, of "{}" resolved] Cons.prems
  obtain resolved' r' where "resolve_route byName route {} resolved = Inr (resolved', r')" by auto
  moreover from Cons.IH[of resolved'] Cons.prems obtain rs' where "resolve_routes byName routes resolved' = Inr rs'" by auto
  ultimately show ?case by simp
qed simp

lemma routes_by_name_self:
  assumes "distinct (map ar_name routes)"
  shows "named (routes_by_name routes)" "list_all (\<lambda>r. map_of (routes_by_name routes) (ar_name r) = Some r) routes"
proof -
  have d: "distinct (map fst (map (\<lambda>r. (ar_name r, r)) routes))" using assms by (simp add: comp_def)
  show "named (routes_by_name routes)"
    unfolding named_def routes_by_name_def by (auto dest: map_of_new_Map)
  show "list_all (\<lambda>r. map_of (routes_by_name routes) (ar_name r) = Some r) routes"
    unfolding list_all_iff routes_by_name_def by (auto intro: map_of_new_Map_distinct[OF d])
qed

text \<open>
  C21: resolving the paths of routes with distinct names succeeds exactly when every route's chain of
  parents ends at a root, and then every route gets the path its chain of parents gives; an unknown
  parent or a cycle of parents is an error.
\<close>

theorem resolveRoutePaths_chains:
  assumes "distinct (map ar_name routes)"
  shows "resolveRoutePaths routes = Inr rs \<longleftrightarrow> list_all2 (resolves (routes_by_name routes)) routes rs"
proof
  note byName = routes_by_name_self[OF assms]
  show sound: "list_all2 (resolves (routes_by_name routes)) routes rs" if "resolveRoutePaths routes = Inr rs" for rs
    using resolve_routes_sound[OF byName(1), of routes "[]" rs] byName(2) that
    by (simp add: resolveRoutePaths_def resolved_ok_def)
  assume rs: "list_all2 (resolves (routes_by_name routes)) routes rs"
  then obtain rs' where rs': "resolveRoutePaths routes = Inr rs'"
    using resolve_routes_complete[OF byName(1) rs byName(2), of "[]"] by (auto simp: resolveRoutePaths_def)
  from sound[OF rs'] rs have "rs' = rs"
    by (auto simp: list_all2_conv_all_nth intro!: nth_equalityI resolves_unique)
  with rs' show "resolveRoutePaths routes = Inr rs" by simp
qed

definition sample_routes :: "nat addon_route list" where
  "sample_routes = [(new_route ''deal.record'' ''$id'')\<lparr>ar_parent := Some ''deals''\<rparr>, new_route ''deals'' ''crm/deals/'']"

theorem resolveRoutePaths_chains_witness:
  "list_all2 (resolves (routes_by_name sample_routes)) sample_routes
     [(new_route ''deal.record'' ''/crm/deals/$id'')\<lparr>ar_parent := Some ''deals''\<rparr>, new_route ''deals'' ''/crm/deals'']"
proof -
  have "resolveRoutePaths sample_routes =
      Inr [(new_route ''deal.record'' ''/crm/deals/$id'')\<lparr>ar_parent := Some ''deals''\<rparr>, new_route ''deals'' ''/crm/deals'']"
    by code_simp
  moreover have "distinct (map ar_name sample_routes)" by code_simp
  ultimately show ?thesis using resolveRoutePaths_chains by blast
qed


section \<open>Mounted pages\<close>

text \<open>The route that a mount adds shows the page of the mounted route at the mount's path.\<close>

definition mounted :: "'c routes_map \<Rightarrow> menu_mount \<Rightarrow> 'c addon_route \<Rightarrow> bool" where
  "mounted byName mount r \<longleftrightarrow> ar_name r = mm_id mount \<and> ar_path r = mm_path mount \<and>
     (\<exists>source. map_of byName (mm_route mount) = Some source \<and> CHR ''$'' \<notin> set (ar_path source) \<and>
        ar_component r = ar_component source \<and> ar_indexComponent r = ar_indexComponent source)"

lemma claim_name_Inr: "claim_name names mount name = Inr names' \<longleftrightarrow> name \<notin> names \<and> names' = insert name names"
  by (auto simp: claim_name_def)

lemma mount_route_Inr:
  assumes "mount_route byName children names mount = Inr (names', aliases, family)"
  shows "distinct (map ar_name aliases) \<and> set (map ar_name aliases) \<inter> names = {} \<and>
    names' = names \<union> set (map ar_name aliases) \<and> list_ex (mounted byName mount) aliases"
proof -
  from assms obtain source where source: "map_of byName (mm_route mount) = Some source"
    by (auto simp: mount_route_def split: option.splits)
  define records where "records = filter (\<lambda>child. routeChildHasTrailingParam child source) (or_else (map_of children (ar_name source)) [])"
  have plain: "CHR ''$'' \<notin> set (ar_path source)" and one: "length records \<le> 1"
    using assms by (auto simp: mount_route_def source records_def Let_def split: if_splits)
  show ?thesis
    using assms plain one
    by (cases records) (auto simp: mount_route_def source records_def[symmetric] Let_def rbind_Inr_iff claim_name_Inr
        new_route_def mounted_def)
qed

lemma mount_loop_Inr:
  "mount_loop byName children names mounts = Inr (aliases, families) \<Longrightarrow>
   distinct (map ar_name aliases) \<and> set (map ar_name aliases) \<inter> names = {} \<and>
   list_all (\<lambda>mount. list_ex (mounted byName mount) aliases) mounts"
proof (induction mounts arbitrary: names aliases families)
  case (Cons mount mounts)
  from Cons.prems obtain names' here family more rest where step: "mount_route byName children names mount = Inr (names', here, family)"
      "mount_loop byName children names' mounts = Inr (more, rest)" "aliases = here @ more"
    by (auto simp: rbind_Inr_iff)
  note here = mount_route_Inr[OF step(1)] and more = Cons.IH[OF step(2)]
  have "set (map ar_name here) \<inter> set (map ar_name more) = {}" using here more by blast
  moreover have "list_all (\<lambda>mount. list_ex (mounted byName mount) aliases) mounts"
    using more by (auto simp: step(3) list_all_iff)
  ultimately show ?case using here more unfolding step(3) by auto
qed simp

text \<open>
  C22: mounting pages keeps every declared route, adds only routes with fresh and distinct names, and
  gives every mount a route at its path that shows the mounted page; a mount of an unknown or
  parameterized route, or of a name that is taken, is an error.
\<close>

theorem mountRoutes_names:
  assumes "mountRoutes routes mounts = Inr (rs, families)" "distinct (map ar_name routes)"
  shows "distinct (map ar_name rs) \<and> take (length routes) rs = routes \<and>
    list_all (\<lambda>mount. list_ex (mounted (routes_by_name routes) mount) (drop (length routes) rs)) mounts"
proof -
  let ?byName = "routes_by_name routes"
  from assms(1) obtain aliases where loop: "mount_loop ?byName (childRoutesByParentName routes) (map_keys ?byName) mounts = Inr (aliases, families)"
      and rs: "rs = routes @ aliases"
    by (auto simp: mountRoutes_def Let_def rbind_Inr_iff)
  have "map_keys ?byName = set (map ar_name routes)" by (simp add: routes_by_name_def keys_new_Map image_image)
  with mount_loop_Inr[OF loop] assms(2) show ?thesis by (auto simp: rs)
qed

definition sample_mount :: menu_mount where
  "sample_mount = \<lparr>mm_id = ''sales.deals'', mm_route = ''deals'', mm_path = ''/sales/deals'', mm_by = ''sales'',
     mm_recordMatch = None, mm_defaultResourceView = None, mm_defaultFilter = None\<rparr>"

theorem mountRoutes_names_witness:
  "(case mountRoutes sample_routes [sample_mount] of
      Inl e \<Rightarrow> False
    | Inr (rs, families) \<Rightarrow> map ar_name rs = [''deal.record'', ''deals'', ''sales.deals'', ''sales.deals.record''] \<and> distinct (map ar_name rs))"
proof -
  have "(case mountRoutes sample_routes [sample_mount] of Inl e \<Rightarrow> []
      | Inr r \<Rightarrow> map ar_name (fst r)) = [''deal.record'', ''deals'', ''sales.deals'', ''sales.deals.record'']"
    by code_simp
  then obtain rs families where m: "mountRoutes sample_routes [sample_mount] = Inr (rs, families)"
      and rs: "map ar_name rs = [''deal.record'', ''deals'', ''sales.deals'', ''sales.deals.record'']"
    by (cases "mountRoutes sample_routes [sample_mount]") (auto split: prod.splits)
  have "distinct (map ar_name sample_routes)" by code_simp
  then have "distinct (map ar_name rs)" using mountRoutes_names[OF m] by blast
  with m rs show ?thesis by simp
qed

end
