(* ===== verification/Menus.thy ===== *)
theory Menus
  imports Routes Filters Positions
begin

text \<open>
  Menus of composed add-ons, \<open>packages/app/src/menus.ts\<close>: every layer declares menu nodes in its own
  namespace and alters nodes of the layers it depends on; the compiler applies the alterations,
  checks the resulting tree, drops removed subtrees, and projects the logical tree and the
  navigation the chrome shows.

  An entry is a JavaScript value, as the source validates it; the fields of a node are a table of
  JavaScript values. Layers' menus are a mapping or an array, sequences are finite numbers.
\<close>

section \<open>Declarations\<close>

definition ROOT_FIELDS :: "string list" where
  "ROOT_FIELDS = [''home'', ''brand'', ''theme'', ''railExpanded'']"

definition DECLARATION_FIELDS :: "string list" where
  "DECLARATION_FIELDS =
     [''label'', ''route'', ''params'', ''defaultResourceView'', ''to'', ''icon'', ''requires'',
      ''description'', ''group'', ''status'', ''tone'', ''personal'', ''parent'', ''sequence'', ''before'', ''after'']
     @ ROOT_FIELDS @ [''mount'', ''path'', ''recordMatch'', ''defaultFilter'']"

definition OPERATION_FIELDS :: "string list" where
  "OPERATION_FIELDS = [''include'', ''remove'', ''hide'', ''only'', ''force'']"

definition RESOLUTION_FIELDS :: "string list" where
  "RESOLUTION_FIELDS = [''parent'', ''sequence'', ''before'', ''after'', ''hide'', ''remove'', ''mount'', ''path'', ''recordMatch'', ''defaultFilter'']"

record only_rule =
  on_layer :: string
  on_ids :: "string set"
  on_force :: bool

record menu_node =
  mn_id :: string
  mn_owner :: string
  mn_declaredRoot :: bool
  mn_index :: nat
  mn_fields :: "jsval table"
  mn_setBy :: "string table"
  mn_only :: "only_rule list"

record menu_layer = layer +
  ml_menus :: jsval
  ml_routes :: "string list option"

type_synonym menu_nodes = "(string \<times> menu_node) list"

definition routeOwners :: "menu_layer list \<Rightarrow> string table" where
  "routeOwners layers = obj_of (concat (map (\<lambda>l. map (\<lambda>r. (r, ly_id l)) (or_else (ml_routes l) [])) layers))"

section \<open>Validation\<close>

definition assertBrand :: "string \<Rightarrow> jsval \<Rightarrow> unit result" where
  "assertBrand where' brand =
     guard (case brand of
              Obj es \<Rightarrow> list_all (\<lambda>k. k = ''name'' \<or> k = ''mark'') (keys es) \<and>
                list_all (\<lambda>v. case v of Str s \<Rightarrow> js_trim s \<noteq> [] | _ \<Rightarrow> False) [prop_of es ''name'', prop_of es ''mark'']
            | _ \<Rightarrow> False)
       (where' @ '': brand must be { name, mark } with a non-empty name and mark.'')"

definition menu_ids_ok :: "string \<Rightarrow> jsval \<Rightarrow> bool" where
  "menu_ids_ok key v =
     (case v of
        Arr xs \<Rightarrow> list_all (\<lambda>item. string_value item \<noteq> None \<or>
          (key = ''include'' \<and> (case item of Obj es \<Rightarrow> string_value (prop_of es ''id'') \<noteq> None | _ \<Rightarrow> False))) xs
      | _ \<Rightarrow> False)"

definition record_match_ok :: "jsval \<Rightarrow> bool" where
  "record_match_ok v =
     (case v of
        Obj es \<Rightarrow> string_value (prop_of es ''field'') \<noteq> None \<and>
          (case prop_of es ''equals'' of
             Str _ \<Rightarrow> True
           | Arr xs \<Rightarrow> xs \<noteq> [] \<and> list_all (\<lambda>x. string_value x \<noteq> None) xs
           | _ \<Rightarrow> False)
      | _ \<Rightarrow> False)"

definition each_key :: "jsval table \<Rightarrow> string list \<Rightarrow> (jsval \<Rightarrow> bool) \<Rightarrow> string \<Rightarrow> string \<Rightarrow> unit result" where
  "each_key es ks ok where' message =
     (case find (\<lambda>k. prop_of es k \<noteq> Undefined \<and> \<not> ok (prop_of es k)) ks of
        None \<Rightarrow> Inr ()
      | Some k \<Rightarrow> Inl (JsError (where' @ '': '' @ k @ message)))"

definition validateEntry :: "host \<Rightarrow> string \<Rightarrow> string \<Rightarrow> jsval \<Rightarrow> jsval table result" where
  "validateEntry h layer i entry =
     (let where' = ''Menu entry \"'' @ i @ ''\" of \"'' @ layer @ ''\"''
      in case entry of
           Obj es \<Rightarrow>
             rbind (case find (\<lambda>k. k \<notin> set (DECLARATION_FIELDS @ OPERATION_FIELDS)) (keys es) of
                      None \<Rightarrow> Inr () | Some k \<Rightarrow> Inl (JsError (where' @ '' has unknown key \"'' @ k @ ''\".''))) (\<lambda>_.
             rbind (each_key es [''include''] (menu_ids_ok ''include'') where' '' must be a list of menu ids.'') (\<lambda>_.
             rbind (each_key es [''only''] (menu_ids_ok ''only'') where' '' must be a list of menu ids.'') (\<lambda>_.
             rbind (each_key es [''remove'', ''hide'', ''personal'', ''force'', ''railExpanded''] is_boolean where' '' must be true or false.'') (\<lambda>_.
             rbind (guard (prop_of es ''force'' = Undefined \<or> (layer = DEPLOYMENT_LAYER_ID \<and> prop_of es ''only'' \<noteq> Undefined))
                     (where' @ '': only the deployment forces, with force beside an only.'')) (\<lambda>_.
             rbind (each_key es [''sequence''] is_number where' '' must be a number.'') (\<lambda>_.
             rbind (each_key es [''label'', ''route'', ''mount'', ''path'', ''to'', ''icon'', ''requires'', ''before'', ''after'', ''home'', ''theme'']
                     (\<lambda>v. string_value v \<noteq> None) where' '' must be a string.'') (\<lambda>_.
             rbind (if prop_of es ''brand'' \<noteq> Undefined then assertBrand where' (prop_of es ''brand'') else Inr ()) (\<lambda>_.
             rbind (guard (prop_of es ''defaultFilter'' = Undefined \<or> isQueryFilter h (prop_of es ''defaultFilter''))
                     (where' @ '': defaultFilter must be a filter mapping.'')) (\<lambda>_.
             rbind (guard (prop_of es ''recordMatch'' = Undefined \<or> record_match_ok (prop_of es ''recordMatch''))
                     (where' @ '': recordMatch must be { field, equals } with a string or a non-empty list of strings.'')) (\<lambda>_.
             rbind (guard (prop_of es ''parent'' = Undefined \<or> prop_of es ''parent'' = Null \<or> string_value (prop_of es ''parent'') \<noteq> None)
                     (where' @ '': parent must be a menu id or null.'')) (\<lambda>_.
             Inr es)))))))))))
         | _ \<Rightarrow> Inl (JsError (where' @ '' must be a mapping.'')))"

definition pick :: "jsval table \<Rightarrow> jsval table" where
  "pick es = filter (\<lambda>(k, v). v \<noteq> Undefined) (map (\<lambda>k. (k, prop_of es k)) DECLARATION_FIELDS)"

section \<open>Compilation\<close>

record alteration =
  al_layer :: string
  al_id :: string
  al_entry :: "jsval table"

definition declare_node :: "menu_nodes \<Rightarrow> string \<Rightarrow> string \<Rightarrow> jsval table \<Rightarrow> menu_nodes result" where
  "declare_node nodes layer i fs =
     (if map_of nodes i \<noteq> None
      then Inl (JsError (''Addon \"'' @ layer @ ''\" redefines menu item id \"'' @ i @ ''\" already contributed by another addon.''))
      else Inr (map_put i \<lparr>mn_id = i, mn_owner = layer, mn_declaredRoot = is_nullish (prop_of fs ''parent''), mn_index = length nodes,
                  mn_fields = fs, mn_setBy = map (\<lambda>(k, _). (k, layer)) fs, mn_only = []\<rparr> nodes))"

definition owns :: "string \<Rightarrow> string \<Rightarrow> bool" where
  "owns layer i \<longleftrightarrow> layer \<noteq> DEPLOYMENT_LAYER_ID \<and> (i = layer \<or> startsWith i (layer @ ''.''))"

definition declare_entry ::
  "host \<Rightarrow> string \<Rightarrow> menu_nodes \<times> alteration list \<Rightarrow> string \<times> jsval \<Rightarrow> (menu_nodes \<times> alteration list) result" where
  "declare_entry h layer acc e =
     rbind (validateEntry h layer (fst e) (snd e)) (\<lambda>es.
       if owns layer (fst e)
       then rbind (declare_node (fst acc) layer (fst e) (pick es)) (\<lambda>nodes.
              Inr (nodes, snd acc @
                (if js_truthy (prop_of es ''include'') \<or> prop_of es ''hide'' \<noteq> Undefined \<or> js_truthy (prop_of es ''remove'') \<or> js_truthy (prop_of es ''only'')
                 then [\<lparr>al_layer = layer, al_id = fst e,
                        al_entry = map (\<lambda>k. (k, prop_of es k)) [''include'', ''hide'', ''remove'', ''only'']\<rparr>]
                 else [])))
       else Inr (fst acc, snd acc @ [\<lparr>al_layer = layer, al_id = fst e, al_entry = es\<rparr>]))"

definition menu_entries :: "jsval \<Rightarrow> jsval table" where
  "menu_entries v = (case v of Obj es \<Rightarrow> es | _ \<Rightarrow> [])"

definition declare_layer :: "host \<Rightarrow> menu_nodes \<times> alteration list \<Rightarrow> menu_layer \<Rightarrow> (menu_nodes \<times> alteration list) result" where
  "declare_layer h acc layer =
     (case ml_menus layer of
        Arr _ \<Rightarrow> Inl (JsError (''Addon \"'' @ ly_id layer @ ''\" menus must be a mapping of menu ids to entries.''))
      | menus \<Rightarrow> fold_res (declare_entry h (ly_id layer)) acc (menu_entries menus))"

definition target :: "ancestry \<Rightarrow> menu_nodes \<Rightarrow> string \<Rightarrow> string \<Rightarrow> menu_node result" where
  "target ancestors nodes layer i =
     (case map_of nodes i of
        None \<Rightarrow> Inl (JsError (''Addon \"'' @ layer @ ''\" alters unknown menu item \"'' @ i @ ''\".''))
      | Some node \<Rightarrow>
          rbind (assertMayAlter ancestors layer (mn_owner node) (''menu item \"'' @ i @ ''\"'') ''alters'') (\<lambda>_. Inr node))"

definition set_node_field :: "ancestry \<Rightarrow> string \<Rightarrow> string \<Rightarrow> menu_nodes \<Rightarrow> string \<times> jsval \<Rightarrow> menu_nodes result" where
  "set_node_field ancestors layer i nodes setting =
     rbind (target ancestors nodes layer i) (\<lambda>node.
     rbind (overridesField ancestors (map_of (mn_setBy node) (fst setting)) layer (''menu \"'' @ i @ ''\" '' @ fst setting)) (\<lambda>wins.
       Inr (if wins
            then map_put i (node\<lparr>mn_fields := obj_put (fst setting) (snd setting) (mn_fields node),
                                 mn_setBy := obj_put (fst setting) layer (mn_setBy node)\<rparr>) nodes
            else nodes)))"

definition add_only :: "ancestry \<Rightarrow> string \<Rightarrow> string \<Rightarrow> menu_nodes \<Rightarrow> only_rule \<Rightarrow> menu_nodes result" where
  "add_only ancestors layer i nodes rule =
     rbind (target ancestors nodes layer i) (\<lambda>node. Inr (map_put i (node\<lparr>mn_only := mn_only node @ [rule]\<rparr>) nodes))"

definition array_items :: "jsval \<Rightarrow> jsval list" where
  "array_items v = (case v of Arr xs \<Rightarrow> xs | _ \<Rightarrow> [])"

definition include_of :: "jsval \<Rightarrow> string \<times> bool" where
  "include_of v = (case v of Str s \<Rightarrow> (s, False)
     | Obj es \<Rightarrow> (or_else (string_value (prop_of es ''id'')) [], js_truthy (prop_of es ''flatten''))
     | _ \<Rightarrow> ([], False))"

definition include_node ::
  "ancestry \<Rightarrow> string \<Rightarrow> string \<Rightarrow> menu_nodes \<times> nat \<Rightarrow> string \<times> bool \<Rightarrow> (menu_nodes \<times> nat) result" where
  "include_node ancestors layer i acc included =
     rbind (target ancestors (fst acc) layer i) (\<lambda>_.
     rbind (set_node_field ancestors layer (fst included) (fst acc) (''parent'', Str i)) (\<lambda>nodes.
       let (nodes', order) =
             (case map_of nodes (fst included) of
                None \<Rightarrow> (nodes, snd acc)
              | Some node \<Rightarrow>
                  if map_of (mn_setBy node) ''parent'' = Some layer
                  then (map_put (fst included) (node\<lparr>mn_index := snd acc\<rparr>) nodes, Suc (snd acc))
                  else (nodes, snd acc))
       in if snd included
          then rbind (set_node_field ancestors layer (fst included) nodes' (''flatten'', Bool True)) (\<lambda>nodes''. Inr (nodes'', order))
          else Inr (nodes', order)))"

text \<open>The five parts of one alteration.\<close>

definition alter_fields :: "ancestry \<Rightarrow> alteration \<Rightarrow> menu_nodes \<Rightarrow> menu_nodes result" where
  "alter_fields ancestors alt nodes =
     fold_res (set_node_field ancestors (al_layer alt) (al_id alt)) nodes (pick (al_entry alt))"

definition alter_hide :: "ancestry \<Rightarrow> alteration \<Rightarrow> menu_nodes \<Rightarrow> menu_nodes result" where
  "alter_hide ancestors alt nodes =
     (let hide = prop_of (al_entry alt) ''hide''
      in if hide \<noteq> Undefined then set_node_field ancestors (al_layer alt) (al_id alt) nodes (''hide'', hide) else Inr nodes)"

definition alter_remove :: "ancestry \<Rightarrow> alteration \<Rightarrow> menu_nodes \<Rightarrow> menu_nodes result" where
  "alter_remove ancestors alt nodes =
     (if js_truthy (prop_of (al_entry alt) ''remove'')
      then set_node_field ancestors (al_layer alt) (al_id alt) nodes (''remove'', Bool True) else Inr nodes)"

definition alter_only :: "ancestry \<Rightarrow> alteration \<Rightarrow> menu_nodes \<Rightarrow> menu_nodes result" where
  "alter_only ancestors alt nodes =
     (let only = prop_of (al_entry alt) ''only''
      in if js_truthy only
         then add_only ancestors (al_layer alt) (al_id alt) nodes
                \<lparr>on_layer = al_layer alt, on_ids = set (List.map_filter string_value (array_items only)),
                 on_force = (prop_of (al_entry alt) ''force'' = Bool True)\<rparr>
         else Inr nodes)"

definition alter_include :: "ancestry \<Rightarrow> alteration \<Rightarrow> menu_nodes \<times> nat \<Rightarrow> (menu_nodes \<times> nat) result" where
  "alter_include ancestors alt acc =
     fold_res (include_node ancestors (al_layer alt) (al_id alt)) acc (map include_of (array_items (prop_of (al_entry alt) ''include'')))"

definition apply_alteration :: "ancestry \<Rightarrow> menu_nodes \<times> nat \<Rightarrow> alteration \<Rightarrow> (menu_nodes \<times> nat) result" where
  "apply_alteration ancestors acc alt =
     rbind (alter_fields ancestors alt (fst acc)) (\<lambda>nodes.
     rbind (alter_hide ancestors alt nodes) (\<lambda>nodes.
     rbind (alter_remove ancestors alt nodes) (\<lambda>nodes.
     rbind (alter_only ancestors alt nodes) (\<lambda>nodes.
     alter_include ancestors alt (nodes, snd acc)))))"

section \<open>Resolution\<close>

abbreviation field_of :: "menu_node \<Rightarrow> string \<Rightarrow> jsval" where
  "field_of node k \<equiv> prop_of (mn_fields node) k"

definition parent_id :: "menu_node \<Rightarrow> string option" where
  "parent_id node = string_value (field_of node ''parent'')"

definition parentOf :: "menu_nodes \<Rightarrow> menu_node \<Rightarrow> string option result" where
  "parentOf nodes node =
     (case parent_id node of
        None \<Rightarrow> Inr None
      | Some p \<Rightarrow>
          if map_of nodes p = None
          then Inl (JsError (''Menu item \"'' @ mn_id node @ ''\" names unknown parent \"'' @ p @ ''\".''))
          else Inr (Some p))"

abbreviation nodes_of :: "menu_nodes \<Rightarrow> menu_node list" where
  "nodes_of nodes \<equiv> map snd nodes"

text \<open>The children of a node (\<open>None\<close>: the roots), in the order of the map.\<close>

definition children_of :: "menu_nodes \<Rightarrow> string option \<Rightarrow> menu_node list" where
  "children_of nodes parent = filter (\<lambda>node. parent_id node = parent) (nodes_of nodes)"

definition menu_error :: "menu_node \<Rightarrow> string \<Rightarrow> string" where
  "menu_error node what = ''Menu item \"'' @ mn_id node @ ''\" '' @ what"

definition check_node :: "menu_nodes \<Rightarrow> menu_node \<Rightarrow> unit result" where
  "check_node nodes node =
     rbind (parentOf nodes node) (\<lambda>parent.
     rbind (case find (\<lambda>a. map_of nodes a = None) (List.map_filter string_value [field_of node ''before'', field_of node ''after'']) of
              None \<Rightarrow> Inr ()
            | Some a \<Rightarrow> Inl (JsError (menu_error node (''positions itself against unknown menu item \"'' @ a @ ''\".'')))) (\<lambda>_.
     rbind (guard (field_of node ''before'' = Undefined \<or> field_of node ''after'' = Undefined) (menu_error node ''sets both before and after.'')) (\<lambda>_.
     rbind (guard (\<not> (js_truthy (field_of node ''personal'') \<and> (parent \<noteq> None \<or> field_of node ''group'' \<noteq> Str ''platform'')))
       (menu_error node ''is personal, which only a Settings root (group \"platform\", no parent) may be.'')) (\<lambda>_.
     rbind (case find (\<lambda>k. field_of node k \<noteq> Undefined) ROOT_FIELDS of
              None \<Rightarrow> Inr ()
            | Some k \<Rightarrow> guard (parent = None \<or> mn_declaredRoot node) (menu_error node (''sets '' @ k @ '', which only a root (no parent) may.''))) (\<lambda>_.
     rbind (case filter (\<lambda>k. field_of node k \<noteq> Undefined) [''route'', ''mount'', ''to''] of
              a # b # _ \<Rightarrow> Inl (JsError (menu_error node (''declares both '' @ a @ '' and '' @ b @ ''; a node targets one of route, mount and to.'')))
            | _ \<Rightarrow> Inr ()) (\<lambda>_.
     if field_of node ''mount'' = Undefined
     then rbind (guard (field_of node ''recordMatch'' = Undefined) (menu_error node ''sets recordMatch, which only a mount claims.'')) (\<lambda>_.
          rbind (guard (field_of node ''defaultFilter'' = Undefined) (menu_error node ''sets defaultFilter, which only a mount owns.'')) (\<lambda>_.
          guard (field_of node ''path'' = Undefined \<or> mn_declaredRoot node) (menu_error node ''sets path, which only an app or a mount has.'')))
     else guard (field_of node ''path'' \<noteq> Undefined \<and> field_of node ''params'' = Undefined)
            (menu_error node (''mounts \"'' @ or_else (string_value (field_of node ''mount'')) [] @ ''\" with '' @
               (if field_of node ''path'' = Undefined then ''no path'' else ''params'') @ ''; a mount takes a path and no params.''))))))))"

text \<open>The walk along the parents of a node; an empty id ends it.\<close>

function check_cycle :: "menu_nodes \<Rightarrow> string set \<Rightarrow> string option \<Rightarrow> unit result" where
  "check_cycle nodes seen current =
     (case truthy_string current of
        None \<Rightarrow> Inr ()
      | Some c \<Rightarrow>
          if c \<in> seen then Inl (JsError (''Menu item \"'' @ c @ ''\" creates a parent cycle.''))
          else (case map_of nodes c of
                  None \<Rightarrow> Inl (TypeError ''fields of undefined'')
                | Some node \<Rightarrow> rbind (parentOf nodes node) (check_cycle nodes (insert c seen))))"
  by pat_completeness auto
termination
proof (relation "measure (\<lambda>(nodes, seen, current). card (map_keys nodes - seen))", goal_cases)
  case (2 nodes seen current c node parent)
  then have "c \<in> map_keys nodes" using map_of_None_keys[of nodes c] by auto
  then have "card (map_keys nodes - insert c seen) < card (map_keys nodes - seen)"
    using 2(2) by (intro psubset_card_mono) auto
  then show ?case by simp
qed auto

declare check_cycle.simps [simp del]

text \<open>The nodes above a node, from its parent up, which \<open>appOf\<close> and \<open>shownUnder\<close> walk.\<close>

function nodes_above :: "menu_nodes \<Rightarrow> string set \<Rightarrow> menu_node \<Rightarrow> menu_node list" where
  "nodes_above nodes seen node =
     (case parent_id node of
        None \<Rightarrow> []
      | Some p \<Rightarrow>
          if p \<in> seen then []
          else (case map_of nodes p of None \<Rightarrow> [] | Some q \<Rightarrow> q # nodes_above nodes (insert p seen) q))"
  by pat_completeness auto
termination
proof (relation "measure (\<lambda>(nodes, seen, node). card (map_keys nodes - seen))", goal_cases)
  case (2 nodes seen node p q)
  then have "p \<in> map_keys nodes" using map_of_None_keys[of nodes p] by auto
  then have "card (map_keys nodes - insert p seen) < card (map_keys nodes - seen)"
    using 2(2) by (intro psubset_card_mono) auto
  then show ?case by simp
qed auto

declare nodes_above.simps [simp del]

definition appOf :: "menu_nodes \<Rightarrow> menu_node \<Rightarrow> menu_node option" where
  "appOf nodes node = find mn_declaredRoot (nodes_above nodes {} node)"

definition record_match_of :: "jsval \<Rightarrow> record_match option" where
  "record_match_of v =
     (case v of
        Obj es \<Rightarrow> Some \<lparr>rm_field = or_else (string_value (prop_of es ''field'')) [],
          rm_equals = (case prop_of es ''equals'' of Str s \<Rightarrow> [s] | w \<Rightarrow> List.map_filter string_value (array_items w))\<rparr>
      | _ \<Rightarrow> None)"

definition mount_of :: "menu_nodes \<Rightarrow> menu_node \<Rightarrow> menu_mount result" where
  "mount_of nodes node =
     (case appOf nodes node of
        None \<Rightarrow> Inl (JsError (menu_error node (''mounts \"'' @ or_else (string_value (field_of node ''mount'')) [] @ ''\" outside an app; mount it under one.'')))
      | Some app \<Rightarrow>
          (let base = normalizeRoutePath (or_else (string_value (field_of app ''path'')) (CHR ''/'' # mn_id app));
               segment = dropWhile (\<lambda>c. c = CHR ''/'') (or_else (string_value (field_of node ''path'')) [])
           in Inr \<lparr>mm_id = mn_id node, mm_route = or_else (string_value (field_of node ''mount'')) [],
                   mm_path = normalizeRoutePath (if base = ''/'' then CHR ''/'' # segment else base @ ''/'' @ segment),
                   mm_by = or_else (map_of (mn_setBy node) ''mount'') [],
                   mm_recordMatch = record_match_of (field_of node ''recordMatch''),
                   mm_defaultResourceView = string_value (field_of node ''defaultResourceView''),
                   mm_defaultFilter = (if field_of node ''defaultFilter'' = Undefined then None else Some (field_of node ''defaultFilter''))\<rparr>))"

definition shownUnder :: "menu_nodes \<Rightarrow> menu_node \<Rightarrow> string option" where
  "shownUnder nodes node =
     (case dropWhile (\<lambda>q. js_truthy (field_of q ''flatten'') \<and> parent_id q \<noteq> None) (nodes_above nodes {} node) of
        [] \<Rightarrow> None | q # _ \<Rightarrow> Some (mn_id q))"

record removed_item =
  rv_id :: string
  rv_route :: "string option"
  rv_by :: string
  rv_parent :: "string option"
  rv_label :: "string option"
  rv_app :: bool

definition is_included_app :: "menu_node \<Rightarrow> bool" where
  "is_included_app node \<longleftrightarrow> mn_declaredRoot node \<and> parent_id node \<noteq> None \<and> \<not> js_truthy (field_of node ''flatten'')"

definition removed_entry :: "menu_nodes \<Rightarrow> menu_node \<Rightarrow> string \<Rightarrow> removed_item" where
  "removed_entry nodes node by' =
     \<lparr>rv_id = mn_id node,
      rv_route = (if field_of node ''mount'' \<noteq> Undefined then Some (mn_id node) else string_value (field_of node ''route'')),
      rv_by = by', rv_parent = shownUnder nodes node, rv_label = string_value (field_of node ''label''), rv_app = is_included_app node\<rparr>"

text \<open>\<open>collectRemoved\<close>: the nodes of the pending calls, in the order the recursion makes them.\<close>

function collectRemoved :: "menu_nodes \<Rightarrow> string \<Rightarrow> menu_node list \<Rightarrow> (string \<times> removed_item) list \<Rightarrow> (string \<times> removed_item) list" where
  "collectRemoved nodes by' [] removed = removed"
| "collectRemoved nodes by' (node # pending) removed =
     (if map_of removed (mn_id node) \<noteq> None then collectRemoved nodes by' pending removed
      else collectRemoved nodes by' (children_of nodes (Some (mn_id node)) @ pending)
             (map_put (mn_id node) (removed_entry nodes node by') removed))"
  by pat_completeness auto
termination
proof (relation "measures [\<lambda>(nodes, b, pending, removed). card (mn_id ` (set (nodes_of nodes) \<union> set pending) - map_keys removed),
    \<lambda>(nodes, b, pending, removed). length pending]", goal_cases)
  case (2 nodes by' node pending removed)
  have "card (mn_id ` (set (nodes_of nodes) \<union> set pending) - map_keys removed)
      \<le> card (mn_id ` (set (nodes_of nodes) \<union> set (node # pending)) - map_keys removed)"
    by (intro card_mono) auto
  then show ?case by auto
next
  case (3 nodes by' node pending removed)
  then have "mn_id node \<notin> map_keys removed" by (simp add: map_of_None_keys)
  then have "card (mn_id ` (set (nodes_of nodes) \<union> set (children_of nodes (Some (mn_id node)) @ pending)) - map_keys (map_put (mn_id node) (removed_entry nodes node by') removed))
      < card (mn_id ` (set (nodes_of nodes) \<union> set (node # pending)) - map_keys removed)"
    by (intro psubset_card_mono) (auto simp: children_of_def)
  then show ?case by simp
qed auto

definition removed_nodes :: "menu_nodes \<Rightarrow> (string \<times> removed_item) list" where
  "removed_nodes nodes =
     foldl (\<lambda>removed node. if js_truthy (field_of node ''remove'')
              then collectRemoved nodes (or_else (map_of (mn_setBy node) ''remove'') []) [node] removed else removed) [] (nodes_of nodes)"

definition survivors :: "menu_nodes \<Rightarrow> (string \<times> removed_item) list \<Rightarrow> string option \<Rightarrow> menu_node list" where
  "survivors nodes removed parent = filter (\<lambda>node. map_of removed (mn_id node) = None) (children_of nodes parent)"

section \<open>Projections\<close>

record menu_position = positioned +
  mp_node :: menu_node

definition position_entry :: "menu_node \<Rightarrow> menu_position" where
  "position_entry node =
     \<lparr>pos_id = mn_id node,
      pos_sequence = (case field_of node ''sequence'' of Num (Fin r) \<Rightarrow> Some r | _ \<Rightarrow> None),
      pos_before = string_value (field_of node ''before''), pos_after = string_value (field_of node ''after''), mp_node = node\<rparr>"

definition position :: "menu_node list \<Rightarrow> menu_node list result" where
  "position siblings =
     rbind (positionSiblings (map position_entry (js_sort (\<lambda>left right. int (mn_index left) - int (mn_index right)) siblings)) ''Menu items'')
       (\<lambda>entries. Inr (map mp_node entries))"

lemma position_set: "position siblings = Inr r \<Longrightarrow> set r \<subseteq> set siblings"
proof -
  assume "position siblings = Inr r"
  then obtain entries where e: "positionSiblings (map position_entry (js_sort (\<lambda>left right. int (mn_index left) - int (mn_index right)) siblings)) ''Menu items'' = Inr entries"
      and r: "r = map mp_node entries"
    by (auto simp: position_def rbind_Inr_iff)
  have "mp_node x \<in> set siblings" if "x \<in> position_entry ` set siblings" for x
    using that by (auto simp: position_entry_def)
  then show ?thesis using positionSiblings_set[OF e] by (auto simp: r set_js_sort)
qed

datatype menu_item = MenuItem (mi_id: string) (mi_fields: "jsval table") (mi_hidden: bool) (mi_children: "menu_item list")

definition emitted :: "menu_node \<Rightarrow> string list \<Rightarrow> jsval table" where
  "emitted node drop' =
     (let fs = foldl (\<lambda>fs k. obj_del k fs) (mn_fields node) drop';
          fs = (if parent_id node \<noteq> None then foldl (\<lambda>fs k. obj_del k fs) fs ROOT_FIELDS else fs);
          fs = (if is_included_app node then obj_put ''app'' (Bool True) fs else fs)
      in if field_of node ''mount'' \<noteq> Undefined
         then obj_del ''defaultResourceView'' (obj_put ''route'' (Str (mn_id node)) fs) else fs)"

definition stack_error :: js_error where
  "stack_error = JsError ''Maximum call stack size exceeded''"

text \<open>
  The logical tree below a node. \<open>path\<close> holds the ids of the calls under way: a call for one of
  them again would never return.
\<close>

abbreviation below_path :: "menu_nodes \<Rightarrow> menu_node \<Rightarrow> string set \<Rightarrow> nat" where
  "below_path nodes node path \<equiv> card (mn_id ` (set (nodes_of nodes) \<union> {node}) - path)"

lemma below_path_less:
  assumes "mn_id node \<notin> path" "child \<in> set (nodes_of nodes)"
  shows "below_path nodes child (insert (mn_id node) path) < below_path nodes node path"
  using assms by (intro psubset_card_mono) auto

lemma survivors_nodes: "set (survivors nodes removed parent) \<subseteq> set (nodes_of nodes)"
  by (auto simp: survivors_def children_of_def)

lemma position_survivors: "position (survivors nodes removed parent) = Inr cs \<Longrightarrow> child \<in> set cs \<Longrightarrow> child \<in> set (nodes_of nodes)"
  using position_set survivors_nodes by blast

function logical_item :: "menu_nodes \<Rightarrow> (string \<times> removed_item) list \<Rightarrow> string set \<Rightarrow> menu_node \<Rightarrow> menu_item result" where
  "logical_item nodes removed path node =
     (if mn_id node \<in> path then Inl stack_error
      else rbind (position (survivors nodes removed (Some (mn_id node)))) (\<lambda>cs.
           rbind (map_res (logical_item nodes removed (insert (mn_id node) path)) cs) (\<lambda>nested.
             Inr (MenuItem (mn_id node) (emitted node RESOLUTION_FIELDS) False nested))))"
  by pat_completeness auto
termination
proof (relation "measure (\<lambda>(nodes, removed, path, node). below_path nodes node path)", goal_cases)
  case (2 nodes removed path node cs child)
  then have "child \<in> set (nodes_of nodes)" using position_survivors by blast
  from below_path_less[OF 2(1) this] show ?case by simp
qed auto

declare logical_item.simps [simp del]

record hidden_item =
  hd_id :: string
  hd_by :: string
  hd_reason :: string

type_synonym hidden_map = "(string \<times> hidden_item) list"

record nav_entry =
  ne_child :: menu_node
  ne_app :: "menu_node option"
  ne_hidden :: bool

definition hides :: "menu_node \<Rightarrow> bool" where
  "hides node \<longleftrightarrow> field_of node ''hide'' = Bool True"

definition hide_entry :: "menu_node \<Rightarrow> hidden_map \<Rightarrow> hidden_map" where
  "hide_entry node hidden =
     (if hides node
      then map_put (mn_id node) \<lparr>hd_id = mn_id node, hd_by = or_else (map_of (mn_setBy node) ''hide'') [], hd_reason = ''hide''\<rparr> hidden
      else hidden)"

definition narrowing :: "menu_node \<Rightarrow> only_rule list" where
  "narrowing node = (let forced = filter on_force (mn_only node) in if forced \<noteq> [] then forced else mn_only node)"

definition excludes :: "ancestry \<Rightarrow> nav_entry \<Rightarrow> only_rule \<Rightarrow> bool" where
  "excludes ancestors entry rule \<longleftrightarrow>
     (let child = ne_child entry
      in \<not> (mn_id child \<in> on_ids rule
            \<or> (case ne_app entry of Some app \<Rightarrow> mn_id app \<in> on_ids rule | None \<Rightarrow> False)
            \<or> mn_owner child = on_layer rule \<or> has_ancestor ancestors (mn_owner child) (on_layer rule)))"

text \<open>One positioned child: the hidden map after it, and whether the rail leaves it out.\<close>

definition admit_child ::
  "ancestry \<Rightarrow> only_rule list \<Rightarrow> (string \<times> nav_entry) list \<Rightarrow> hidden_map \<Rightarrow> menu_node \<Rightarrow> (hidden_map \<times> (menu_node \<times> bool)) result" where
  "admit_child ancestors rules byId hidden child =
     (case map_of byId (mn_id child) of
        None \<Rightarrow> Inl (TypeError ''hidden of undefined'')
      | Some entry \<Rightarrow>
          (let hidden' = hide_entry child hidden; excluding = find (excludes ancestors (entry\<lparr>ne_child := child\<rparr>)) rules
           in Inr (case excluding of
                     Some rule \<Rightarrow>
                       if ne_hidden entry then (hidden', child, True)
                       else (map_put (mn_id child) \<lparr>hd_id = mn_id child, hd_by = on_layer rule, hd_reason = ''only''\<rparr> hidden', child, True)
                   | None \<Rightarrow> (hidden', child, ne_hidden entry))))"

fun admit_children ::
  "ancestry \<Rightarrow> only_rule list \<Rightarrow> (string \<times> nav_entry) list \<Rightarrow> hidden_map \<Rightarrow> menu_node list \<Rightarrow> (hidden_map \<times> (menu_node \<times> bool) list) result" where
  "admit_children ancestors rules byId hidden [] = Inr (hidden, [])"
| "admit_children ancestors rules byId hidden (child # cs) =
     rbind (admit_child ancestors rules byId hidden child) (\<lambda>(hidden', entry).
     rbind (admit_children ancestors rules byId hidden' cs) (\<lambda>(hidden'', entries). Inr (hidden'', entry # entries)))"

function navigationChildren ::
  "menu_nodes \<Rightarrow> (string \<times> removed_item) list \<Rightarrow> ancestry \<Rightarrow> string set \<Rightarrow> hidden_map \<Rightarrow> menu_node \<Rightarrow>
   (hidden_map \<times> (menu_node \<times> bool) list) result"
  and nav_entries ::
  "menu_nodes \<Rightarrow> (string \<times> removed_item) list \<Rightarrow> ancestry \<Rightarrow> string set \<Rightarrow> hidden_map \<Rightarrow> menu_node list \<Rightarrow>
   (hidden_map \<times> nav_entry list) result" where
  "navigationChildren nodes removed ancestors path hidden node =
     (if mn_id node \<in> path then Inl stack_error
      else rbind (nav_entries nodes removed ancestors (insert (mn_id node) path) hidden (survivors nodes removed (Some (mn_id node)))) (\<lambda>(hidden', entries).
           let byId = new_Map (map (\<lambda>entry. (mn_id (ne_child entry), entry)) entries)
           in rbind (position (map ne_child entries)) (\<lambda>cs.
                admit_children ancestors (narrowing node) byId hidden' cs)))"
| "nav_entries nodes removed ancestors path hidden [] = Inr (hidden, [])"
| "nav_entries nodes removed ancestors path hidden (child # cs) =
     rbind (if \<not> js_truthy (field_of child ''flatten'') then Inr (hidden, [\<lparr>ne_child = child, ne_app = None, ne_hidden = hides child\<rparr>])
            else rbind (navigationChildren nodes removed ancestors path hidden child) (\<lambda>(hidden', lifted).
                   Inr (hidden', map (\<lambda>(c, h). \<lparr>ne_child = c, ne_app = Some child, ne_hidden = (h \<or> hides child)\<rparr>) lifted))) (\<lambda>(hidden', here).
     rbind (nav_entries nodes removed ancestors path hidden' cs) (\<lambda>(hidden'', more). Inr (hidden'', here @ more)))"
  by pat_completeness auto
termination
proof (relation "measures [\<lambda>x. case x of Inl (nodes, removed, ancestors, path, hidden, node) \<Rightarrow> below_path nodes node path
      | Inr (nodes, removed, ancestors, path, hidden, cs) \<Rightarrow> card (mn_id ` (set (nodes_of nodes) \<union> set cs) - path),
    \<lambda>x. case x of Inl _ \<Rightarrow> 0 | Inr (nodes, removed, ancestors, path, hidden, cs) \<Rightarrow> Suc (length cs)]", goal_cases)
  case (2 nodes removed ancestors path hidden node)
  then have "card (mn_id ` (set (nodes_of nodes) \<union> set (survivors nodes removed (Some (mn_id node)))) - insert (mn_id node) path) < below_path nodes node path"
    using survivors_nodes[of nodes removed "Some (mn_id node)"] by (intro psubset_card_mono) auto
  then show ?case by simp
next
  case (3 nodes removed ancestors path hidden child cs)
  have "below_path nodes child path \<le> card (mn_id ` (set (nodes_of nodes) \<union> set (child # cs)) - path)"
    by (intro card_mono) auto
  then show ?case by auto
next
  case (4 nodes removed ancestors path hidden child cs)
  have "card (mn_id ` (set (nodes_of nodes) \<union> set cs) - path) \<le> card (mn_id ` (set (nodes_of nodes) \<union> set (child # cs)) - path)"
    by (intro card_mono) auto
  then show ?case by auto
qed auto

declare navigationChildren.simps [simp del] nav_entries.simps [simp del]

lemma admit_child_fst: "admit_child ancestors rules byId hidden child = Inr (hidden', entry) \<Longrightarrow> fst entry = child"
  by (auto simp: admit_child_def Let_def split: option.splits if_splits)

lemma admit_children_fst: "admit_children ancestors rules byId hidden cs = Inr (hidden', entries) \<Longrightarrow> map fst entries = cs"
  by (induction cs arbitrary: hidden hidden' entries) (auto simp: rbind_Inr_iff dest: admit_child_fst)

lemma navigation_nodes:
  "navigationChildren nodes removed ancestors path hidden node = Inr (hidden', entries) \<Longrightarrow> fst ` set entries \<subseteq> set (nodes_of nodes)"
  "nav_entries nodes removed ancestors path hidden cs = Inr (hidden', navs) \<Longrightarrow> set cs \<subseteq> set (nodes_of nodes) \<Longrightarrow>
     ne_child ` set navs \<subseteq> set (nodes_of nodes)"
proof (induction nodes removed ancestors path hidden node and nodes removed ancestors path hidden cs
    arbitrary: hidden' entries and hidden' navs rule: navigationChildren_nav_entries.induct)
  case (1 nodes removed ancestors path hidden node)
  then obtain hid navs cs where step: "mn_id node \<notin> path"
      "nav_entries nodes removed ancestors (insert (mn_id node) path) hidden (survivors nodes removed (Some (mn_id node))) = Inr (hid, navs)"
      "position (map ne_child navs) = Inr cs" "map fst entries = cs"
    by (auto simp: navigationChildren.simps Let_def rbind_Inr_iff split: if_splits dest: admit_children_fst)
  have "ne_child ` set navs \<subseteq> set (nodes_of nodes)" using 1(1)[OF step(1,2) survivors_nodes] .
  moreover have "set (map fst entries) \<subseteq> set (map ne_child navs)" using position_set[OF step(3)] step(4) by simp
  ultimately show ?case by auto
next
  case (2 nodes removed ancestors path hidden)
  then show ?case by (simp add: nav_entries.simps)
next
  case (3 nodes removed ancestors path hidden child cs)
  from 3(3) obtain hid here more where here: "(if \<not> js_truthy (field_of child ''flatten'') then Inr (hidden, [\<lparr>ne_child = child, ne_app = None, ne_hidden = hides child\<rparr>])
            else rbind (navigationChildren nodes removed ancestors path hidden child) (\<lambda>(hidden', lifted).
                   Inr (hidden', map (\<lambda>(c, h). \<lparr>ne_child = c, ne_app = Some child, ne_hidden = (h \<or> hides child)\<rparr>) lifted))) = Inr (hid, here)"
      and more: "nav_entries nodes removed ancestors path hid cs = Inr (hidden', more)" "navs = here @ more"
    by (auto simp: nav_entries.simps rbind_Inr_iff)
  have "ne_child ` set here \<subseteq> set (nodes_of nodes)"
  proof (cases "js_truthy (field_of child ''flatten'')")
    case True
    with here obtain lifted where "navigationChildren nodes removed ancestors path hidden child = Inr (hid, lifted)"
        and h: "here = map (\<lambda>(c, h). \<lparr>ne_child = c, ne_app = Some child, ne_hidden = (h \<or> hides child)\<rparr>) lifted"
      by (auto simp: rbind_Inr_iff)
    with 3(1) True have "fst ` set lifted \<subseteq> set (nodes_of nodes)" by blast
    then show ?thesis by (force simp: h)
  next
    case False
    then have "here = [\<lparr>ne_child = child, ne_app = None, ne_hidden = hides child\<rparr>]" using here by simp
    then show ?thesis using 3(4) by simp
  qed
  moreover have "ne_child ` set more \<subseteq> set (nodes_of nodes)" using 3(2)[OF here refl more(1)] 3(4) by simp
  ultimately show ?case by (auto simp: more(2))
qed

function navigationItem ::
  "menu_nodes \<Rightarrow> (string \<times> removed_item) list \<Rightarrow> ancestry \<Rightarrow> string set \<Rightarrow> hidden_map \<Rightarrow> menu_node \<Rightarrow> bool \<Rightarrow> (hidden_map \<times> menu_item) result"
  and navigation_items ::
  "menu_nodes \<Rightarrow> (string \<times> removed_item) list \<Rightarrow> ancestry \<Rightarrow> string set \<Rightarrow> hidden_map \<Rightarrow> (menu_node \<times> bool) list \<Rightarrow>
   (hidden_map \<times> menu_item list) result" where
  "navigationItem nodes removed ancestors path hidden node isHidden =
     (if mn_id node \<in> path then Inl stack_error
      else rbind (navigationChildren nodes removed ancestors {} hidden node) (\<lambda>(hidden', entries).
           rbind (navigation_items nodes removed ancestors (insert (mn_id node) path) hidden' entries) (\<lambda>(hidden'', nested).
             Inr (hidden'', MenuItem (mn_id node) (emitted node (RESOLUTION_FIELDS @ [''flatten''])) isHidden nested))))"
| "navigation_items nodes removed ancestors path hidden [] = Inr (hidden, [])"
| "navigation_items nodes removed ancestors path hidden ((child, isHidden) # entries) =
     rbind (navigationItem nodes removed ancestors path hidden child isHidden) (\<lambda>(hidden', item).
     rbind (navigation_items nodes removed ancestors path hidden' entries) (\<lambda>(hidden'', items). Inr (hidden'', item # items)))"
  by pat_completeness auto
termination
proof (relation "measures [\<lambda>x. case x of Inl (nodes, removed, ancestors, path, hidden, node, isHidden) \<Rightarrow> below_path nodes node path
      | Inr (nodes, removed, ancestors, path, hidden, entries) \<Rightarrow> card (mn_id ` (set (nodes_of nodes) \<union> fst ` set entries) - path),
    \<lambda>x. case x of Inl _ \<Rightarrow> 0 | Inr (nodes, removed, ancestors, path, hidden, entries) \<Rightarrow> Suc (length entries)]", goal_cases)
  case (2 nodes removed ancestors path hidden node isHidden r hidden' entries)
  then have "fst ` set entries \<subseteq> set (nodes_of nodes)" using navigation_nodes(1) by blast
  then have "card (mn_id ` (set (nodes_of nodes) \<union> fst ` set entries) - insert (mn_id node) path) < below_path nodes node path"
    using 2(1) by (intro psubset_card_mono) auto
  then show ?case by simp
next
  case (3 nodes removed ancestors path hidden child isHidden entries)
  have "below_path nodes child path \<le> card (mn_id ` (set (nodes_of nodes) \<union> fst ` set ((child, isHidden) # entries)) - path)"
    by (intro card_mono) auto
  then show ?case by auto
next
  case (4 nodes removed ancestors path hidden child isHidden entries)
  have "card (mn_id ` (set (nodes_of nodes) \<union> fst ` set entries) - path)
      \<le> card (mn_id ` (set (nodes_of nodes) \<union> fst ` set ((child, isHidden) # entries)) - path)"
    by (intro card_mono) auto
  then show ?case by auto
qed auto

declare navigationItem.simps [simp del] navigation_items.simps [simp del]

record compiled_menus =
  cm_logical :: "menu_item list"
  cm_navigation :: "menu_item list"
  cm_removed :: "removed_item list"
  cm_mounts :: "menu_mount list"
  cm_hidden :: "hidden_item list"
  cm_provenance :: "string table table"

definition resolve_menus :: "menu_nodes \<Rightarrow> ancestry \<Rightarrow> compiled_menus result" where
  "resolve_menus nodes ancestors =
     rbind (each_res (check_node nodes) (nodes_of nodes)) (\<lambda>_.
     rbind (each_res (\<lambda>node. check_cycle nodes {} (Some (mn_id node))) (nodes_of nodes)) (\<lambda>_.
     rbind (map_res (mount_of nodes) (filter (\<lambda>node. field_of node ''mount'' \<noteq> Undefined) (nodes_of nodes))) (\<lambda>mounts.
       let removed = removed_nodes nodes
       in rbind (position (survivors nodes removed None)) (\<lambda>roots.
          let hidden = foldl (\<lambda>hidden root. hide_entry root hidden) [] roots
          in rbind (navigation_items nodes removed ancestors {} hidden (map (\<lambda>root. (root, hides root)) roots)) (\<lambda>(hidden', navigation).
             rbind (map_res (logical_item nodes removed {}) roots) (\<lambda>logical.
               Inr \<lparr>cm_logical = logical, cm_navigation = navigation, cm_removed = map snd removed, cm_mounts = mounts,
                    cm_hidden = map snd hidden', cm_provenance = obj_of (map (\<lambda>node. (mn_id node, mn_setBy node)) (nodes_of nodes))\<rparr>))))))"

definition check_mount :: "ancestry \<Rightarrow> string table \<Rightarrow> menu_mount \<Rightarrow> unit result" where
  "check_mount ancestors owners mount =
     (case map_of owners (mm_route mount) of
        None \<Rightarrow> Inl (JsError (''Menu item \"'' @ mm_id mount @ ''\" mounts unknown route \"'' @ mm_route mount @ ''\".''))
      | Some owner \<Rightarrow> assertMayAlter ancestors (mm_by mount) owner (''route \"'' @ mm_route mount @ ''\"'') ''mounts'')"

definition compileMenus :: "host \<Rightarrow> menu_layer list \<Rightarrow> compiled_menus result" where
  "compileMenus h layers =
     rbind (layerAncestry layers) (\<lambda>ancestors.
     rbind (fold_res (declare_layer h) ([], []) layers) (\<lambda>(nodes, alterations).
     rbind (fold_res (apply_alteration ancestors) (nodes, length nodes) alterations) (\<lambda>(nodes', _).
     rbind (resolve_menus nodes' ancestors) (\<lambda>compiled.
     rbind (each_res (check_mount ancestors (routeOwners layers)) (cm_mounts compiled)) (\<lambda>_. Inr compiled)))))"

end
