(* ===== verification/MenuFacts.thy ===== *)
theory MenuFacts
  imports Menus
begin

text \<open>
  Facts on the menu compiler of \<open>packages/app/src/menus.ts\<close>: the nodes and their setters through
  declaration and alteration, the parent relation after its checks, removal, and the logical tree.
\<close>

section \<open>Nodes\<close>

definition declares :: "menu_layer \<Rightarrow> string \<Rightarrow> bool" where
  "declares l i \<longleftrightarrow> owns (ly_id l) i \<and> i \<in> map_keys (menu_entries (ml_menus l))"

definition setters :: "menu_node \<Rightarrow> string set" where
  "setters node = snd ` set (mn_setBy node)"

definition may_alter :: "ancestry \<Rightarrow> string \<Rightarrow> string \<Rightarrow> bool" where
  "may_alter ancestors s owner \<longleftrightarrow> s = owner \<or> has_ancestor ancestors s owner"

definition node_ok :: "menu_layer list \<Rightarrow> ancestry \<Rightarrow> string \<Rightarrow> menu_node \<Rightarrow> bool" where
  "node_ok layers ancestors i node \<longleftrightarrow> mn_id node = i \<and>
     (\<exists>l \<in> set layers. mn_owner node = ly_id l \<and> declares l i) \<and> (\<forall>s \<in> setters node. may_alter ancestors s (mn_owner node))"

definition nodes_ok :: "menu_layer list \<Rightarrow> ancestry \<Rightarrow> string set \<Rightarrow> menu_nodes \<Rightarrow> bool" where
  "nodes_ok layers ancestors ids nodes \<longleftrightarrow> distinct (map fst nodes) \<and> map_keys nodes = ids \<and>
     (\<forall>i node. map_of nodes i = Some node \<longrightarrow> node_ok layers ancestors i node)"

lemma nodes_ok_node: "nodes_ok layers ancestors ids nodes \<Longrightarrow> map_of nodes i = Some node \<Longrightarrow> node_ok layers ancestors i node"
  by (simp add: nodes_ok_def)

lemma nodes_ok_put:
  assumes "nodes_ok layers ancestors ids nodes" "node_ok layers ancestors i node"
  shows "nodes_ok layers ancestors (insert i ids) (map_put i node nodes)"
  using assms by (auto simp: nodes_ok_def distinct_map_put)

lemma nodes_ok_update:
  assumes "nodes_ok layers ancestors ids nodes" "node_ok layers ancestors i node" "map_of nodes i \<noteq> None"
  shows "nodes_ok layers ancestors ids (map_put i node nodes)"
proof -
  have "i \<in> ids" using assms(1,3) map_of_None_keys[of nodes i] by (auto simp: nodes_ok_def)
  then show ?thesis using nodes_ok_put[OF assms(1,2)] by (simp add: insert_absorb)
qed

section \<open>Declarations\<close>

lemma declare_node_ok:
  assumes "nodes_ok layers ancestors ids nodes" "declare_node nodes (ly_id l) i fs = Inr nodes'" "l \<in> set layers" "declares l i"
  shows "nodes_ok layers ancestors (insert i ids) nodes'"
proof -
  have "node_ok layers ancestors i \<lparr>mn_id = i, mn_owner = ly_id l, mn_declaredRoot = is_nullish (prop_of fs ''parent''), mn_index = length nodes,
      mn_fields = fs, mn_setBy = map (\<lambda>(k, _). (k, ly_id l)) fs, mn_only = []\<rparr>"
    using assms(3,4) by (auto simp: node_ok_def setters_def may_alter_def)
  then show ?thesis using nodes_ok_put[OF assms(1)] assms(2) by (auto simp: declare_node_def split: if_splits)
qed

lemma declare_entry_ok:
  assumes "nodes_ok layers ancestors ids nodes" "declare_entry h (ly_id l) (nodes, alts) e = Inr (nodes', alts')"
    and "l \<in> set layers" "fst e \<in> map_keys (menu_entries (ml_menus l))"
  shows "nodes_ok layers ancestors (ids \<union> {i. i = fst e \<and> owns (ly_id l) i}) nodes'"
proof (cases "owns (ly_id l) (fst e)")
  case True
  then have "declares l (fst e)" using assms(4) by (simp add: declares_def)
  moreover obtain es where "declare_node nodes (ly_id l) (fst e) (pick es) = Inr nodes'"
    using assms(2) True by (auto simp: declare_entry_def rbind_Inr_iff)
  moreover have "{i. i = fst e \<and> owns (ly_id l) i} = {fst e}" using True by auto
  ultimately show ?thesis using declare_node_ok[OF assms(1) _ assms(3)] by simp
next
  case False
  then have "nodes' = nodes" using assms(2) by (auto simp: declare_entry_def rbind_Inr_iff)
  moreover have "ids \<union> {i. i = fst e \<and> owns (ly_id l) i} = ids" using False by auto
  ultimately show ?thesis using assms(1) by simp
qed

lemma declare_entries_ok:
  assumes "l \<in> set layers" "fst ` set es \<subseteq> map_keys (menu_entries (ml_menus l))"
  shows "nodes_ok layers ancestors ids (fst acc) \<Longrightarrow> fold_res (declare_entry h (ly_id l)) acc es = Inr acc' \<Longrightarrow>
    nodes_ok layers ancestors (ids \<union> {i. i \<in> fst ` set es \<and> owns (ly_id l) i}) (fst acc')"
  using assms(2)
proof (induction es arbitrary: ids acc)
  case (Cons e es)
  obtain nodes alts where acc: "acc = (nodes, alts)" by fastforce
  obtain mid where mid: "declare_entry h (ly_id l) acc e = Inr mid" "fold_res (declare_entry h (ly_id l)) mid es = Inr acc'"
    using Cons.prems(2) by (auto simp: rbind_Inr_iff)
  have "nodes_ok layers ancestors (ids \<union> {i. i = fst e \<and> owns (ly_id l) i}) (fst mid)"
    using declare_entry_ok[OF _ _ assms(1)] Cons.prems(1,3) mid(1) unfolding acc by (cases mid) auto
  from Cons.IH[OF this mid(2)] Cons.prems(3)
  have "nodes_ok layers ancestors (ids \<union> {i. i = fst e \<and> owns (ly_id l) i} \<union> {i. i \<in> fst ` set es \<and> owns (ly_id l) i}) (fst acc')" by simp
  moreover have "ids \<union> {i. i = fst e \<and> owns (ly_id l) i} \<union> {i. i \<in> fst ` set es \<and> owns (ly_id l) i}
      = ids \<union> {i. i \<in> fst ` set (e # es) \<and> owns (ly_id l) i}" by auto
  ultimately show ?case by simp
qed simp

lemma declare_layer_ok:
  assumes "l \<in> set layers" "nodes_ok layers ancestors ids (fst acc)" "declare_layer h acc l = Inr acc'"
  shows "nodes_ok layers ancestors (ids \<union> {i. declares l i}) (fst acc')"
proof -
  have "fold_res (declare_entry h (ly_id l)) acc (menu_entries (ml_menus l)) = Inr acc'"
    using assms(3) by (auto simp: declare_layer_def split: jsval.splits)
  from declare_entries_ok[OF assms(1) _ assms(2) this]
  show ?thesis by (simp add: map_keys_def declares_def Collect_conj_eq Int_commute)
qed

definition declared_ids :: "menu_layer list \<Rightarrow> string set" where
  "declared_ids layers = {i. \<exists>l \<in> set layers. declares l i}"

lemma declare_layers_ok:
  assumes "set ls \<subseteq> set layers"
  shows "nodes_ok layers ancestors ids (fst acc) \<Longrightarrow> fold_res (declare_layer h) acc ls = Inr acc' \<Longrightarrow>
    nodes_ok layers ancestors (ids \<union> declared_ids ls) (fst acc')"
  using assms
proof (induction ls arbitrary: ids acc)
  case Nil
  then show ?case by (simp add: declared_ids_def)
next
  case (Cons l ls)
  obtain mid where mid: "declare_layer h acc l = Inr mid" "fold_res (declare_layer h) mid ls = Inr acc'"
    using Cons.prems(2) by (auto simp: rbind_Inr_iff)
  have "nodes_ok layers ancestors (ids \<union> {i. declares l i}) (fst mid)"
    using declare_layer_ok[OF _ Cons.prems(1) mid(1)] Cons.prems(3) by simp
  from Cons.IH[OF this mid(2)] Cons.prems(3)
  have "nodes_ok layers ancestors (ids \<union> {i. declares l i} \<union> declared_ids ls) (fst acc')" by simp
  moreover have "ids \<union> {i. declares l i} \<union> declared_ids ls = ids \<union> declared_ids (l # ls)" by (auto simp: declared_ids_def)
  ultimately show ?case by simp
qed

section \<open>Alterations\<close>

lemma target_Inr:
  "target ancestors nodes layer i = Inr node \<Longrightarrow> map_of nodes i = Some node \<and> may_alter ancestors layer (mn_owner node)"
  by (auto simp: target_def assertMayAlter_def may_alter_def rbind_Inr_iff split: option.splits if_splits)

lemma setters_put: "snd ` set (obj_put k s es) \<subseteq> insert s (snd ` set es)"
  using set_obj_put_subset[of k s es] by fastforce

lemma setters_update:
  assumes "node_ok layers ancestors i node" "may_alter ancestors layer (mn_owner node)"
  shows "node_ok layers ancestors i (node\<lparr>mn_fields := fs, mn_setBy := obj_put k layer (mn_setBy node)\<rparr>)"
  using assms subsetD[OF setters_put[of k layer "mn_setBy node"]] unfolding node_ok_def setters_def by fastforce

lemma set_node_field_ok:
  assumes "nodes_ok layers ancestors ids nodes" "set_node_field ancestors layer i nodes setting = Inr nodes'"
  shows "nodes_ok layers ancestors ids nodes'"
proof -
  obtain node wins where t: "target ancestors nodes layer i = Inr node"
      and n: "nodes' = (if wins then map_put i (node\<lparr>mn_fields := obj_put (fst setting) (snd setting) (mn_fields node),
                mn_setBy := obj_put (fst setting) layer (mn_setBy node)\<rparr>) nodes else nodes)"
    using assms(2) by (auto simp: set_node_field_def rbind_Inr_iff)
  note node = target_Inr[OF t]
  show ?thesis
    unfolding n using nodes_ok_update[OF assms(1) setters_update[OF nodes_ok_node[OF assms(1)]]] node assms(1) by simp
qed

lemma node_ok_index [simp]: "node_ok layers ancestors i (node\<lparr>mn_index := k\<rparr>) = node_ok layers ancestors i node"
  by (simp add: node_ok_def setters_def)

lemma node_ok_only [simp]: "node_ok layers ancestors i (node\<lparr>mn_only := rules\<rparr>) = node_ok layers ancestors i node"
  by (simp add: node_ok_def setters_def)

lemma add_only_ok:
  assumes "nodes_ok layers ancestors ids nodes" "add_only ancestors layer i nodes rule = Inr nodes'"
  shows "nodes_ok layers ancestors ids nodes'"
proof -
  obtain node where t: "target ancestors nodes layer i = Inr node"
      and n: "nodes' = map_put i (node\<lparr>mn_only := mn_only node @ [rule]\<rparr>) nodes"
    using assms(2) by (auto simp: add_only_def rbind_Inr_iff)
  have "map_of nodes i = Some node" using target_Inr[OF t] by simp
  then show ?thesis unfolding n using nodes_ok_node[OF assms(1)] by (intro nodes_ok_update[OF assms(1)]) simp_all
qed

lemma include_node_ok:
  assumes "nodes_ok layers ancestors ids (fst acc)" "include_node ancestors layer i acc included = Inr acc'"
  shows "nodes_ok layers ancestors ids (fst acc')"
proof -
  obtain nodes where s: "set_node_field ancestors layer (fst included) (fst acc) (''parent'', Str i) = Inr nodes"
    using assms(2) by (auto simp: include_node_def rbind_Inr_iff)
  note ok = set_node_field_ok[OF assms(1) s]
  define mid where "mid = (case map_of nodes (fst included) of
                None \<Rightarrow> (nodes, snd acc)
              | Some node \<Rightarrow>
                  if map_of (mn_setBy node) ''parent'' = Some layer
                  then (map_put (fst included) (node\<lparr>mn_index := snd acc\<rparr>) nodes, Suc (snd acc))
                  else (nodes, snd acc))"
  have mid: "nodes_ok layers ancestors ids (fst mid)"
    using ok nodes_ok_node[OF ok] nodes_ok_update[OF ok] by (auto simp: mid_def split: option.splits)
  obtain nodes' order where m: "mid = (nodes', order)" by fastforce
  have "acc' = (nodes', order) \<or> (\<exists>nodes''. set_node_field ancestors layer (fst included) nodes' (''flatten'', Bool True) = Inr nodes'' \<and> acc' = (nodes'', order))"
    using assms(2) s by (auto simp: include_node_def rbind_Inr_iff mid_def[symmetric] m split: if_splits)
  then show ?thesis using mid set_node_field_ok[of layers ancestors ids nodes'] by (auto simp: m)
qed

lemma alter_ok:
  assumes "nodes_ok layers ancestors ids nodes"
  shows "alter_fields ancestors alt nodes = Inr nodes' \<Longrightarrow> nodes_ok layers ancestors ids nodes'"
    and "alter_hide ancestors alt nodes = Inr nodes' \<Longrightarrow> nodes_ok layers ancestors ids nodes'"
    and "alter_remove ancestors alt nodes = Inr nodes' \<Longrightarrow> nodes_ok layers ancestors ids nodes'"
    and "alter_only ancestors alt nodes = Inr nodes' \<Longrightarrow> nodes_ok layers ancestors ids nodes'"
    and "alter_include ancestors alt (nodes, order) = Inr acc' \<Longrightarrow> nodes_ok layers ancestors ids (fst acc')"
proof -
  show "alter_fields ancestors alt nodes = Inr nodes' \<Longrightarrow> nodes_ok layers ancestors ids nodes'"
    unfolding alter_fields_def by (rule fold_res_invariant) (use assms set_node_field_ok in auto)
  show "alter_hide ancestors alt nodes = Inr nodes' \<Longrightarrow> nodes_ok layers ancestors ids nodes'"
    using assms set_node_field_ok by (auto simp: alter_hide_def Let_def split: if_splits)
  show "alter_remove ancestors alt nodes = Inr nodes' \<Longrightarrow> nodes_ok layers ancestors ids nodes'"
    using assms set_node_field_ok by (auto simp: alter_remove_def split: if_splits)
  show "alter_only ancestors alt nodes = Inr nodes' \<Longrightarrow> nodes_ok layers ancestors ids nodes'"
    using assms add_only_ok by (auto simp: alter_only_def Let_def split: if_splits)
  show "alter_include ancestors alt (nodes, order) = Inr acc' \<Longrightarrow> nodes_ok layers ancestors ids (fst acc')"
    unfolding alter_include_def
    by (rule fold_res_invariant[where P = "\<lambda>acc. nodes_ok layers ancestors ids (fst acc)"]) (use assms include_node_ok in auto)
qed

lemma apply_alteration_ok:
  assumes "nodes_ok layers ancestors ids (fst acc)" "apply_alteration ancestors acc alt = Inr acc'"
  shows "nodes_ok layers ancestors ids (fst acc')"
proof -
  obtain n1 n2 n3 n4 where "alter_fields ancestors alt (fst acc) = Inr n1" "alter_hide ancestors alt n1 = Inr n2"
      "alter_remove ancestors alt n2 = Inr n3" "alter_only ancestors alt n3 = Inr n4" "alter_include ancestors alt (n4, snd acc) = Inr acc'"
    using assms(2) by (auto simp: apply_alteration_def rbind_Inr_iff)
  note steps = this
  show ?thesis
    using alter_ok(5)[OF alter_ok(4)[OF alter_ok(3)[OF alter_ok(2)[OF alter_ok(1)[OF assms(1) steps(1)] steps(2)] steps(3)] steps(4)] steps(5)] .
qed

text \<open>The nodes the compiler resolves.\<close>

lemma compiled_nodes:
  assumes "compileMenus h layers = Inr c"
  obtains nodes where "nodes_ok layers (ancestry_of layers) (declared_ids layers) nodes"
    "resolve_menus nodes (ancestry_of layers) = Inr c"
proof -
  obtain ancestors nodes alterations nodes' order where a: "layerAncestry layers = Inr ancestors"
      and d: "fold_res (declare_layer h) ([], []) layers = Inr (nodes, alterations)"
      and f: "fold_res (apply_alteration ancestors) (nodes, length nodes) alterations = Inr (nodes', order)"
      and r: "resolve_menus nodes' ancestors = Inr c"
    using assms by (auto simp: compileMenus_def rbind_Inr_iff)
  have anc: "ancestry_of layers = ancestors" using a by (simp add: ancestry_of_def)
  have "nodes_ok layers ancestors {} (fst ([] :: menu_nodes, [] :: alteration list))"
    by (simp add: nodes_ok_def)
  from declare_layers_ok[OF subset_refl this d] have "nodes_ok layers ancestors (declared_ids layers) nodes" by simp
  then have "nodes_ok layers ancestors (declared_ids layers) (fst (nodes', order))"
    by (intro fold_res_invariant[where P = "\<lambda>acc. nodes_ok layers ancestors (declared_ids layers) (fst acc)", OF f])
      (auto intro: apply_alteration_ok)
  with r that show ?thesis by (simp add: anc)
qed

section \<open>The parent relation\<close>

definition parent_rel :: "menu_nodes \<Rightarrow> (string \<times> string) set" where
  "parent_rel nodes = {(i, p). \<exists>node. map_of nodes i = Some node \<and> parent_id node = Some p}"

lemma parent_rel_single: "single_valued (parent_rel nodes)"
  by (auto simp: single_valued_def parent_rel_def)

lemma parentOf_Inr: "parentOf nodes node = Inr p \<Longrightarrow> p = parent_id node \<and> (\<forall>q. p = Some q \<longrightarrow> q \<in> map_keys nodes)"
  using map_of_None_keys[of nodes] by (fastforce simp: parentOf_def split: option.splits if_splits)

lemma check_node_parent: "check_node nodes node = Inr () \<Longrightarrow> parentOf nodes node = Inr (parent_id node)"
  by (auto simp: check_node_def rbind_Inr_iff dest: parentOf_Inr)

lemma check_cycle_acc:
  "check_cycle nodes seen current = Inr () \<Longrightarrow> current = Some i \<Longrightarrow> i \<noteq> [] \<Longrightarrow> [] \<notin> map_keys nodes \<Longrightarrow>
   i \<in> Wellfounded.acc ((parent_rel nodes)\<inverse>)"
proof (induction nodes seen current arbitrary: i rule: check_cycle.induct)
  case (1 nodes seen current)
  have t: "truthy_string current = Some i" using 1(3,4) by (simp add: truthy_string_def)
  then have seen: "i \<notin> seen" using 1(2) by (auto simp: check_cycle.simps[of nodes seen current])
  obtain node where node: "map_of nodes i = Some node"
    using 1(2) t seen by (auto simp: check_cycle.simps[of nodes seen current] split: option.splits)
  obtain p where p: "parentOf nodes node = Inr p" "check_cycle nodes (insert i seen) p = Inr ()"
    using 1(2) t seen node by (auto simp: check_cycle.simps[of nodes seen current] rbind_Inr_iff)
  show ?case
  proof (rule accI)
    fix y assume "(y, i) \<in> (parent_rel nodes)\<inverse>"
    then have y: "parent_id node = Some y" using node by (simp add: parent_rel_def)
    then have "p = Some y" "y \<in> map_keys nodes" using parentOf_Inr[OF p(1)] by auto
    moreover from this 1(5) have "y \<noteq> []" by auto
    ultimately show "y \<in> Wellfounded.acc ((parent_rel nodes)\<inverse>)"
      using 1(1)[OF t seen node p(1) p(2) _ _ 1(5)] by blast
  qed
qed

lemma parent_rel_wf:
  assumes "each_res (\<lambda>node. check_cycle nodes {} (Some (mn_id node))) (nodes_of nodes) = Inr ()"
    and "nodes_ok layers ancestors ids nodes" "[] \<notin> ids"
  shows "wf ((parent_rel nodes)\<inverse>)"
proof -
  have "i \<in> Wellfounded.acc ((parent_rel nodes)\<inverse>)" for i
  proof (cases "map_of nodes i")
    case None
    show ?thesis by (rule accI) (simp add: parent_rel_def None)
  next
    case (Some node)
    have id': "mn_id node = i" using nodes_ok_node[OF assms(2) Some] by (simp add: node_ok_def)
    have "node \<in> set (nodes_of nodes)" using map_of_SomeD[OF Some] by force
    then have "check_cycle nodes {} (Some (mn_id node)) = Inr ()" using assms(1) unfolding each_res_Inr by blast
    then have "check_cycle nodes {} (Some i) = Inr ()" by (simp only: id')
    moreover have "i \<in> map_keys nodes" using Some map_of_None_keys[of nodes i] by simp
    moreover have "map_keys nodes = ids" using assms(2) by (simp add: nodes_ok_def)
    ultimately show ?thesis using check_cycle_acc[of nodes "{}" "Some i" i] assms(3) by auto
  qed
  then show ?thesis by (simp add: wf_iff_acc)
qed

lemma nodes_members:
  assumes "nodes_ok layers ancestors ids nodes"
  shows "node \<in> set (nodes_of nodes) \<longleftrightarrow> map_of nodes (mn_id node) = Some node"
proof
  assume "node \<in> set (nodes_of nodes)"
  then obtain i where "(i, node) \<in> set nodes" by auto
  then have i: "map_of nodes i = Some node" using assms by (simp add: nodes_ok_def)
  then show "map_of nodes (mn_id node) = Some node" using nodes_ok_node[OF assms i] by (simp add: node_ok_def)
next
  assume "map_of nodes (mn_id node) = Some node"
  then show "node \<in> set (nodes_of nodes)" by (auto dest!: map_of_SomeD intro: rev_image_eqI)
qed

lemma nodes_ids:
  assumes "nodes_ok layers ancestors ids nodes"
  shows "map mn_id (nodes_of nodes) = map fst nodes"
proof -
  have "mn_id (snd e) = fst e" if "e \<in> set nodes" for e
  proof -
    have "map_of nodes (fst e) = Some (snd e)" using assms that by (cases e) (simp add: nodes_ok_def)
    from nodes_ok_node[OF assms this] show ?thesis by (simp add: node_ok_def)
  qed
  then show ?thesis by simp
qed

lemma children_of_member:
  "nodes_ok layers ancestors ids nodes \<Longrightarrow>
   c \<in> set (children_of nodes p) \<longleftrightarrow> map_of nodes (mn_id c) = Some c \<and> parent_id c = p"
  by (auto simp: children_of_def simp flip: nodes_members)

section \<open>Removal\<close>

definition labelled :: "(string \<times> removed_item) list \<Rightarrow> bool" where
  "labelled removed \<longleftrightarrow> distinct (map fst removed) \<and> (\<forall>e \<in> set removed. rv_id (snd e) = fst e)"

lemma labelled_put: "labelled removed \<Longrightarrow> rv_id r = i \<Longrightarrow> labelled (map_put i r removed)"
  using subsetD[OF set_map_put[of i r removed]] unfolding labelled_def by (fastforce intro: distinct_map_put)

lemma labelled_ids: "labelled removed \<Longrightarrow> map rv_id (map snd removed) = map fst removed"
  by (simp add: labelled_def)

definition closed_in :: "menu_nodes \<Rightarrow> string set \<Rightarrow> string set \<Rightarrow> bool" where
  "closed_in nodes xs ys \<longleftrightarrow> (\<forall>(i, p) \<in> parent_rel nodes. p \<in> xs \<longrightarrow> i \<in> ys)"

lemma closed_inD: "closed_in nodes xs ys \<Longrightarrow> (i, p) \<in> parent_rel nodes \<Longrightarrow> p \<in> xs \<Longrightarrow> i \<in> ys"
  by (auto simp: closed_in_def)

lemma children_closed:
  assumes "nodes_ok layers ancestors ids nodes" "(i, p) \<in> parent_rel nodes"
  shows "i \<in> mn_id ` set (children_of nodes (Some p))"
proof -
  obtain node where node: "map_of nodes i = Some node" "parent_id node = Some p" using assms(2) by (auto simp: parent_rel_def)
  then have "mn_id node = i" using nodes_ok_node[OF assms(1)] by (simp add: node_ok_def)
  with node show ?thesis using children_of_member[OF assms(1), of node "Some p"] by (auto intro: rev_image_eqI)
qed

lemma collectRemoved_facts:
  "nodes_ok layers ancestors ids nodes \<Longrightarrow> labelled removed \<Longrightarrow>
   closed_in nodes (map_keys removed) (map_keys removed \<union> mn_id ` set pending) \<Longrightarrow>
   map_keys removed \<union> mn_id ` set pending \<subseteq> ids \<Longrightarrow> collectRemoved nodes by' pending removed = r \<Longrightarrow>
   labelled r \<and> closed_in nodes (map_keys r) (map_keys r) \<and> map_keys r \<subseteq> ids"
proof (induction nodes by' pending removed rule: collectRemoved.induct)
  case (1 nodes by' removed)
  then show ?case by simp
next
  case (2 nodes by' node pending removed)
  show ?case
  proof (cases "map_of removed (mn_id node) = None")
    case True
    let ?removed = "map_put (mn_id node) (removed_entry nodes node by') removed"
    let ?pending = "children_of nodes (Some (mn_id node)) @ pending"
    have l: "labelled ?removed" using 2(4) by (intro labelled_put) (simp_all add: removed_entry_def)
    have c: "closed_in nodes (map_keys ?removed) (map_keys ?removed \<union> mn_id ` set ?pending)"
      unfolding closed_in_def
    proof (clarify)
      fix i p
      assume ip: "(i, p) \<in> parent_rel nodes" "p \<in> map_keys ?removed" "i \<notin> mn_id ` set ?pending"
      show "i \<in> map_keys ?removed"
      proof (cases "p = mn_id node")
        case True
        then show ?thesis using children_closed[OF 2(3) ip(1)] ip(3) by auto
      next
        case False
        then show ?thesis using closed_inD[OF 2(5) ip(1)] ip(2,3) by auto
      qed
    qed
    have "mn_id ` set (children_of nodes (Some (mn_id node))) \<subseteq> ids"
    proof
      fix i assume "i \<in> mn_id ` set (children_of nodes (Some (mn_id node)))"
      then have "map_of nodes i \<noteq> None" using children_of_member[OF 2(3)] by auto
      then show "i \<in> ids" using 2(3) map_of_None_keys[of nodes i] by (simp add: nodes_ok_def)
    qed
    then have k: "map_keys ?removed \<union> mn_id ` set ?pending \<subseteq> ids" using 2(6) by auto
    from 2(2)[OF _ 2(3) l c k] 2(7) True show ?thesis by simp
  next
    case False
    then have "mn_id node \<in> map_keys removed" using map_of_None_keys by metis
    then have "closed_in nodes (map_keys removed) (map_keys removed \<union> mn_id ` set pending)"
      using 2(5) by (auto simp: closed_in_def)
    from 2(1)[OF False 2(3,4) this] 2(6,7) False show ?thesis by simp
  qed
qed


lemma removed_nodes_facts:
  assumes ok: "nodes_ok layers ancestors ids nodes"
  shows "labelled (removed_nodes nodes) \<and> closed_in nodes (map_keys (removed_nodes nodes)) (map_keys (removed_nodes nodes)) \<and>
    map_keys (removed_nodes nodes) \<subseteq> ids"
proof -
  let ?step = "\<lambda>removed node. if js_truthy (field_of node ''remove'')
      then collectRemoved nodes (or_else (map_of (mn_setBy node) ''remove'') []) [node] removed else removed"
  let ?P = "\<lambda>r. labelled r \<and> closed_in nodes (map_keys r) (map_keys r) \<and> map_keys r \<subseteq> ids"
  have "?P (foldl ?step removed ns)" if "?P removed" "mn_id ` set ns \<subseteq> ids" for removed ns
    using that
  proof (induction ns arbitrary: removed)
    case (Cons n ns)
    have "?P (?step removed n)"
    proof (cases "js_truthy (field_of n ''remove'')")
      case True
      have c: "closed_in nodes (map_keys removed) (map_keys removed \<union> mn_id ` set [n])"
        using Cons.prems(1) by (auto simp: closed_in_def)
      have k: "map_keys removed \<union> mn_id ` set [n] \<subseteq> ids" using Cons.prems by simp
      show ?thesis using collectRemoved_facts[OF ok _ c k refl] Cons.prems(1) True by simp
    next
      case False
      then show ?thesis using Cons.prems(1) by simp
    qed
    then show ?case using Cons.IH[of "?step removed n"] Cons.prems(2) by simp
  qed simp
  moreover have "mn_id ` set (nodes_of nodes) \<subseteq> ids"
  proof -
    have "set (map mn_id (nodes_of nodes)) = ids" unfolding nodes_ids[OF ok] using ok by (simp add: nodes_ok_def map_keys_def)
    then show ?thesis by (simp add: image_image)
  qed
  moreover have "?P []" by (simp add: labelled_def closed_in_def)
  ultimately show ?thesis unfolding removed_nodes_def by blast
qed

section \<open>The logical tree\<close>

fun tree_ids :: "menu_item \<Rightarrow> string list" where
  "tree_ids (MenuItem i fs hid cs) = i # concat (map tree_ids cs)"

definition surviving :: "menu_nodes \<Rightarrow> (string \<times> removed_item) list \<Rightarrow> string set" where
  "surviving nodes removed = map_keys nodes - map_keys removed"

text \<open>The surviving nodes at or below a node.\<close>

definition subtree :: "menu_nodes \<Rightarrow> (string \<times> removed_item) list \<Rightarrow> string \<Rightarrow> string set" where
  "subtree nodes removed i = {j \<in> surviving nodes removed. (j, i) \<in> (parent_rel nodes)\<^sup>*}"

lemma survivors_member:
  assumes "nodes_ok layers ancestors ids nodes"
  shows "c \<in> set (survivors nodes removed p) \<longleftrightarrow> map_of nodes (mn_id c) = Some c \<and> parent_id c = p \<and> mn_id c \<in> surviving nodes removed"
  using map_of_None_keys[of removed "mn_id c"] map_of_None_keys[of nodes "mn_id c"]
  by (auto simp: survivors_def children_of_member[OF assms] surviving_def)

lemma survivors_distinct:
  assumes "nodes_ok layers ancestors ids nodes"
  shows "distinct (map mn_id (survivors nodes removed p))"
proof -
  have "distinct (map mn_id (nodes_of nodes))" unfolding nodes_ids[OF assms] using assms by (simp add: nodes_ok_def)
  then show ?thesis by (simp add: survivors_def children_of_def distinct_map_filter)
qed

lemma position_perm:
  assumes "distinct (map mn_id siblings)" "position siblings = Inr r"
  shows "mset r = mset siblings"
proof -
  let ?sorted = "js_sort (\<lambda>left right. int (mn_index left) - int (mn_index right)) siblings"
  obtain entries where e: "positionSiblings (map position_entry ?sorted) ''Menu items'' = Inr entries" and r: "r = map mp_node entries"
    using assms(2) by (auto simp: position_def rbind_Inr_iff)
  have "mset (map mn_id ?sorted) = mset (map mn_id siblings)" by (simp only: mset_map mset_js_sort)
  then have "distinct (map mn_id ?sorted)" using assms(1) mset_eq_imp_distinct_iff by blast
  moreover have "map pos_id (map position_entry ?sorted) = map mn_id ?sorted" by (simp add: position_entry_def)
  ultimately have "distinct (map pos_id (map position_entry ?sorted))" by (simp only:)
  then have "mset entries = mset (map position_entry ?sorted)" using positionSiblings_mset[OF _ e] by blast
  then have "mset r = mset (map mp_node (map position_entry ?sorted))" by (simp only: r mset_map)
  also have "map mp_node (map position_entry ?sorted) = ?sorted" by (simp add: position_entry_def map_idI)
  finally show ?thesis by (simp only: mset_js_sort)
qed

lemma positioned_survivors:
  assumes "nodes_ok layers ancestors ids nodes" "position (survivors nodes removed p) = Inr cs"
  shows "distinct (map mn_id cs)" "set cs = set (survivors nodes removed p)"
proof -
  have m: "mset cs = mset (survivors nodes removed p)" using position_perm[OF survivors_distinct[OF assms(1)] assms(2)] .
  then have "mset (map mn_id cs) = mset (map mn_id (survivors nodes removed p))" by simp
  then show "distinct (map mn_id cs)" using survivors_distinct[OF assms(1)] mset_eq_imp_distinct_iff by blast
  show "set cs = set (survivors nodes removed p)" using m by (metis set_mset_mset)
qed

lemma surviving_up:
  assumes "closed_in nodes (map_keys removed) (map_keys removed)" "(j, i) \<in> (parent_rel nodes)\<^sup>*" "j \<notin> map_keys removed"
  shows "i \<notin> map_keys removed"
  using assms(2,3)
proof (induction rule: rtrancl_induct)
  case (step i k)
  then show ?case using closed_inD[OF assms(1), of i k] by blast
qed simp

lemma parent_rel_node: "(i, p) \<in> parent_rel nodes \<longleftrightarrow> (\<exists>node. map_of nodes i = Some node \<and> parent_id node = Some p)"
  by (simp add: parent_rel_def)

lemma forest_ids:
  assumes "list_all2 (\<lambda>c item. set (tree_ids item) = B (mn_id c) \<and> distinct (tree_ids item)) cs items" "distinct (map mn_id cs)"
    and "\<And>c d. c \<in> set cs \<Longrightarrow> d \<in> set cs \<Longrightarrow> mn_id c \<noteq> mn_id d \<Longrightarrow> B (mn_id c) \<inter> B (mn_id d) = {}"
  shows "set (concat (map tree_ids items)) = (\<Union>c \<in> set cs. B (mn_id c)) \<and> distinct (concat (map tree_ids items))"
  using assms
proof (induction rule: list_all2_induct)
  case (Cons c cs item items)
  have ih: "set (concat (map tree_ids items)) = (\<Union>c \<in> set cs. B (mn_id c)) \<and> distinct (concat (map tree_ids items))"
    using Cons.IH Cons.prems by simp
  have "B (mn_id c) \<inter> B (mn_id d) = {}" if "d \<in> set cs" for d
    using Cons.prems(1) that by (intro Cons.prems(2)) auto
  then have "set (tree_ids item) \<inter> set (concat (map tree_ids items)) = {}" using ih Cons.hyps(1) by auto
  then show ?case using ih Cons.hyps(1) by auto
qed simp

lemma subtree_disjoint:
  assumes "wf ((parent_rel nodes)\<inverse>)" "map_of nodes (mn_id c) = Some c" "map_of nodes (mn_id d) = Some d"
    "parent_id c = parent_id d" "mn_id c \<noteq> mn_id d"
  shows "subtree nodes removed (mn_id c) \<inter> subtree nodes removed (mn_id d) = {}"
proof -
  let ?R = "parent_rel nodes"
  have acyclic: "(i, i) \<notin> ?R\<^sup>+" for i using wf_acyclic[OF assms(1)] by (simp add: acyclic_def trancl_converse)
  have no: "(x, y) \<notin> ?R\<^sup>*" if xy: "map_of nodes x = Some m" "map_of nodes y = Some n" "parent_id m = parent_id n" "x \<noteq> y" for x y m n
  proof
    assume "(x, y) \<in> ?R\<^sup>*"
    then obtain p where p: "(x, p) \<in> ?R" "(p, y) \<in> ?R\<^sup>*" using xy(4) by (metis converse_rtranclE)
    then have "(y, p) \<in> ?R" using xy(1-3) by (auto simp: parent_rel_node)
    with p(2) have "(p, p) \<in> ?R\<^sup>+" by (metis rtrancl_into_trancl1)
    then show False using acyclic by blast
  qed
  show ?thesis
  proof (rule ccontr)
    assume "subtree nodes removed (mn_id c) \<inter> subtree nodes removed (mn_id d) \<noteq> {}"
    then obtain j where "(j, mn_id c) \<in> ?R\<^sup>*" "(j, mn_id d) \<in> ?R\<^sup>*" by (auto simp: subtree_def)
    then have "(mn_id c, mn_id d) \<in> ?R\<^sup>* \<or> (mn_id d, mn_id c) \<in> ?R\<^sup>*"
      using single_valued_confluent[OF parent_rel_single] by blast
    then show False
      using no[OF assms(2,3,4,5)] no[OF assms(3,2) assms(4)[symmetric] assms(5)[symmetric]] by blast
  qed
qed


lemma subtree_unfold:
  assumes ok: "nodes_ok layers ancestors ids nodes" and closed: "closed_in nodes (map_keys removed) (map_keys removed)"
    and i: "i \<in> surviving nodes removed"
  shows "subtree nodes removed i = insert i (\<Union>c \<in> set (survivors nodes removed (Some i)). subtree nodes removed (mn_id c))"
proof (intro equalityI subsetI)
  fix j assume j: "j \<in> subtree nodes removed i"
  show "j \<in> insert i (\<Union>c \<in> set (survivors nodes removed (Some i)). subtree nodes removed (mn_id c))"
  proof (cases "j = i")
    case False
    from j have js: "j \<in> surviving nodes removed" "(j, i) \<in> (parent_rel nodes)\<^sup>*" by (auto simp: subtree_def)
    with False obtain k where k: "(j, k) \<in> (parent_rel nodes)\<^sup>*" "(k, i) \<in> parent_rel nodes" by (metis rtranclE)
    then obtain c where c: "map_of nodes k = Some c" "parent_id c = Some i" by (auto simp: parent_rel_node)
    have ck: "mn_id c = k" using nodes_ok_node[OF ok c(1)] by (simp add: node_ok_def)
    have "k \<notin> map_keys removed" using surviving_up[OF closed k(1)] js(1) by (simp add: surviving_def)
    then have "mn_id c \<in> surviving nodes removed" using c(1) map_of_None_keys[of nodes k] by (simp add: surviving_def ck)
    then have "c \<in> set (survivors nodes removed (Some i))" using survivors_member[OF ok] c ck by simp
    moreover have "j \<in> subtree nodes removed (mn_id c)" using js(1) k(1) ck by (simp add: subtree_def)
    ultimately show ?thesis by blast
  qed simp
next
  fix j assume "j \<in> insert i (\<Union>c \<in> set (survivors nodes removed (Some i)). subtree nodes removed (mn_id c))"
  then consider "j = i" | c where "c \<in> set (survivors nodes removed (Some i))" "j \<in> subtree nodes removed (mn_id c)" by blast
  then show "j \<in> subtree nodes removed i"
  proof cases
    case 1
    then show ?thesis using i by (simp add: subtree_def)
  next
    case 2
    then have "(mn_id c, i) \<in> parent_rel nodes" using survivors_member[OF ok] by (auto simp: parent_rel_node)
    then show ?thesis using 2(2) by (auto simp: subtree_def intro: rtrancl_into_rtrancl)
  qed
qed

lemma logical_item_ids:
  "nodes_ok layers ancestors ids nodes \<Longrightarrow> closed_in nodes (map_keys removed) (map_keys removed) \<Longrightarrow> wf ((parent_rel nodes)\<inverse>) \<Longrightarrow>
   logical_item nodes removed path node = Inr item \<Longrightarrow> mn_id node \<in> surviving nodes removed \<Longrightarrow>
   set (tree_ids item) = subtree nodes removed (mn_id node) \<and> distinct (tree_ids item)"
proof (induction nodes removed path node arbitrary: item rule: logical_item.induct)
  case (1 nodes removed path node)
  note ok = 1(2) and closed = 1(3) and wf = 1(4)
  have path: "mn_id node \<notin> path" using 1(5) by (auto simp: logical_item.simps[of nodes removed path node] split: if_splits)
  obtain cs nested where cs: "position (survivors nodes removed (Some (mn_id node))) = Inr cs"
      and nested: "map_res (logical_item nodes removed (insert (mn_id node) path)) cs = Inr nested"
      and item: "item = MenuItem (mn_id node) (emitted node RESOLUTION_FIELDS) False nested"
    using 1(5) path by (auto simp: logical_item.simps[of nodes removed path node] rbind_Inr_iff)
  note pos = positioned_survivors[OF ok cs]
  have members: "map_of nodes (mn_id c) = Some c \<and> parent_id c = Some (mn_id node) \<and> mn_id c \<in> surviving nodes removed" if "c \<in> set cs" for c
    using that survivors_member[OF ok] by (simp add: pos(2))
  have "list_all2 (\<lambda>c item. set (tree_ids item) = subtree nodes removed (mn_id c) \<and> distinct (tree_ids item)) cs nested"
    using nested unfolding map_res_Inr_iff
    by (rule list.rel_mono_strong) (use 1(1)[OF path cs _ ok closed wf] members in blast)
  then have f: "set (concat (map tree_ids nested)) = (\<Union>c \<in> set cs. subtree nodes removed (mn_id c)) \<and> distinct (concat (map tree_ids nested))"
    using subtree_disjoint[OF wf] members by (intro forest_ids[OF _ pos(1)]) simp_all
  have "mn_id node \<notin> subtree nodes removed (mn_id c)" if "c \<in> set cs" for c
  proof
    assume "mn_id node \<in> subtree nodes removed (mn_id c)"
    moreover have "(mn_id c, mn_id node) \<in> parent_rel nodes" using members[OF that] by (auto simp: parent_rel_node)
    ultimately have "(mn_id node, mn_id node) \<in> (parent_rel nodes)\<^sup>+" by (auto simp: subtree_def intro: rtrancl_into_trancl1)
    then show False using wf_acyclic[OF wf] by (simp add: acyclic_def trancl_converse)
  qed
  then show ?case using f subtree_unfold[OF ok closed 1(6)] by (simp add: item pos(2))
qed

lemma reaches_root:
  assumes "wf ((parent_rel nodes)\<inverse>)" "i \<in> map_keys nodes" "\<And>j p. (j, p) \<in> parent_rel nodes \<Longrightarrow> p \<in> map_keys nodes"
  shows "\<exists>r node. (i, r) \<in> (parent_rel nodes)\<^sup>* \<and> map_of nodes r = Some node \<and> parent_id node = None"
  using assms(1,2)
proof (induction i rule: wf_induct_rule)
  case (less i)
  obtain node where node: "map_of nodes i = Some node" using less.prems map_of_None_keys[of nodes i] by auto
  show ?case
  proof (cases "parent_id node")
    case None
    then show ?thesis using node by blast
  next
    case (Some p)
    then have ip: "(i, p) \<in> parent_rel nodes" using node by (auto simp: parent_rel_node)
    then have "(p, i) \<in> (parent_rel nodes)\<inverse>" by simp
    from less.IH[OF this assms(3)[OF ip]] show ?thesis using ip by (meson converse_rtrancl_into_rtrancl)
  qed
qed

lemma logical_roots:
  assumes ok: "nodes_ok layers ancestors ids nodes" and closed: "closed_in nodes (map_keys removed) (map_keys removed)"
    and wf: "wf ((parent_rel nodes)\<inverse>)" and parents: "\<And>j p. (j, p) \<in> parent_rel nodes \<Longrightarrow> p \<in> map_keys nodes"
    and roots: "position (survivors nodes removed None) = Inr roots" and logical: "map_res (logical_item nodes removed {}) roots = Inr items"
  shows "set (concat (map tree_ids items)) = surviving nodes removed \<and> distinct (concat (map tree_ids items))"
proof -
  note pos = positioned_survivors[OF ok roots]
  have members: "map_of nodes (mn_id c) = Some c \<and> parent_id c = None \<and> mn_id c \<in> surviving nodes removed" if "c \<in> set roots" for c
    using that survivors_member[OF ok] by (simp add: pos(2))
  have "list_all2 (\<lambda>c item. set (tree_ids item) = subtree nodes removed (mn_id c) \<and> distinct (tree_ids item)) roots items"
    using logical unfolding map_res_Inr_iff
    by (rule list.rel_mono_strong) (use logical_item_ids[OF ok closed wf] members in blast)
  then have f: "set (concat (map tree_ids items)) = (\<Union>c \<in> set roots. subtree nodes removed (mn_id c)) \<and> distinct (concat (map tree_ids items))"
    using subtree_disjoint[OF wf] members by (intro forest_ids[OF _ pos(1)]) simp_all
  have "(\<Union>c \<in> set roots. subtree nodes removed (mn_id c)) = surviving nodes removed"
  proof (intro equalityI subsetI)
    fix j assume j: "j \<in> surviving nodes removed"
    then obtain r node where r: "(j, r) \<in> (parent_rel nodes)\<^sup>*" "map_of nodes r = Some node" "parent_id node = None"
      using reaches_root[OF wf, of j] parents unfolding surviving_def by blast
    have id: "mn_id node = r" using nodes_ok_node[OF ok r(2)] by (simp add: node_ok_def)
    have "r \<in> surviving nodes removed"
      using surviving_up[OF closed r(1)] j r(2) map_of_None_keys[of nodes r] by (simp add: surviving_def)
    then have "node \<in> set roots" using survivors_member[OF ok] r id by (simp add: pos(2))
    moreover have "j \<in> subtree nodes removed (mn_id node)" using j r(1) id by (simp add: subtree_def)
    ultimately show "j \<in> (\<Union>c \<in> set roots. subtree nodes removed (mn_id c))" by blast
  qed (auto simp: subtree_def)
  with f show ?thesis by simp
qed

end
