(* ===== verification/MenuClaims.thy ===== *)
theory MenuClaims
  imports MenuFacts "HOL-Library.Code_Target_Numeral"
begin

text \<open>What the compiled menus of \<open>packages/app/src/menus.ts\<close> promise the chrome and the add-ons.\<close>

lemma resolved_menus:
  assumes ok: "nodes_ok layers ancestors ids nodes" and named: "[] \<notin> ids" and r: "resolve_menus nodes ancestors = Inr c"
  shows "set (concat (map tree_ids (cm_logical c))) = ids - map_keys (removed_nodes nodes) \<and>
    distinct (concat (map tree_ids (cm_logical c))) \<and> map rv_id (cm_removed c) = map fst (removed_nodes nodes)"
proof -
  let ?removed = "removed_nodes nodes"
  obtain roots where checks: "each_res (check_node nodes) (nodes_of nodes) = Inr ()"
      "each_res (\<lambda>node. check_cycle nodes {} (Some (mn_id node))) (nodes_of nodes) = Inr ()"
      and roots: "position (survivors nodes ?removed None) = Inr roots"
      and logical: "map_res (logical_item nodes ?removed {}) roots = Inr (cm_logical c)"
      and removed: "cm_removed c = map snd ?removed"
    using r by (auto simp: resolve_menus_def Let_def rbind_Inr_iff)
  have parents: "p \<in> map_keys nodes" if jp: "(j, p) \<in> parent_rel nodes" for j p
  proof -
    from jp obtain node where node: "map_of nodes j = Some node" "parent_id node = Some p" by (auto simp: parent_rel_node)
    then have "node \<in> set (nodes_of nodes)" using map_of_SomeD[OF node(1)] by force
    then have "check_node nodes node = Inr ()" using checks(1) unfolding each_res_Inr by blast
    from parentOf_Inr[OF check_node_parent[OF this]] node(2) show ?thesis by blast
  qed
  note facts = removed_nodes_facts[OF ok]
  have "set (concat (map tree_ids (cm_logical c))) = surviving nodes ?removed \<and> distinct (concat (map tree_ids (cm_logical c)))"
    using facts by (intro logical_roots[OF ok _ parent_rel_wf[OF checks(2) ok named] parents roots logical]) simp_all
  moreover have "map rv_id (cm_removed c) = map fst ?removed" using facts labelled_ids by (simp only: removed)
  moreover have "surviving nodes ?removed = ids - map_keys ?removed" using ok by (simp add: surviving_def nodes_ok_def)
  ultimately show ?thesis by (simp only:)
qed

text \<open>
  C23: compiled menus lose and repeat nothing: every declared id is either in the logical tree, at
  exactly one place, or in the list of removed nodes, once, and nothing else is in either.
\<close>

theorem compileMenus_partition:
  assumes "compileMenus h layers = Inr c" "[] \<notin> ly_id ` set layers"
  shows "distinct (concat (map tree_ids (cm_logical c)) @ map rv_id (cm_removed c)) \<and>
    set (concat (map tree_ids (cm_logical c)) @ map rv_id (cm_removed c)) = declared_ids layers"
proof -
  obtain nodes where ok: "nodes_ok layers (ancestry_of layers) (declared_ids layers) nodes"
      and r: "resolve_menus nodes (ancestry_of layers) = Inr c"
    using compiled_nodes[OF assms(1)] .
  have "[] \<notin> declared_ids layers" using assms(2) by (auto simp: declared_ids_def declares_def owns_def startsWith_def)
  note parts = resolved_menus[OF ok this r] and facts = removed_nodes_facts[OF ok]
  have "set (map rv_id (cm_removed c)) = map_keys (removed_nodes nodes)" using parts by (simp only: map_keys_def set_map)
  moreover have "distinct (map rv_id (cm_removed c))" using parts facts by (simp only: labelled_def)
  ultimately show ?thesis using parts facts by auto
qed

text \<open>
  C24: whoever sets a field of a menu node may do so: the provenance of every field of a compiled
  node names the layer that declared the node or a layer that depends on it.
\<close>

theorem provenance_authorized:
  assumes "compileMenus h layers = Inr c" "map_of (cm_provenance c) i = Some setBy" "map_of setBy k = Some s"
  shows "\<exists>l \<in> set layers. declares l i \<and> may_alter (ancestry_of layers) s (ly_id l)"
proof -
  obtain nodes where ok: "nodes_ok layers (ancestry_of layers) (declared_ids layers) nodes"
      and r: "resolve_menus nodes (ancestry_of layers) = Inr c"
    using compiled_nodes[OF assms(1)] .
  let ?entries = "map (\<lambda>node. (mn_id node, mn_setBy node)) (nodes_of nodes)"
  have p: "cm_provenance c = obj_of ?entries" using r by (auto simp: resolve_menus_def Let_def rbind_Inr_iff)
  have "(i, setBy) \<in> set ?entries"
    using map_of_SomeD[OF assms(2)] set_obj_of_subset[of ?entries] unfolding p by blast
  then obtain node where node: "node \<in> set (nodes_of nodes)" "mn_id node = i" "mn_setBy node = setBy" by auto
  then have "node_ok layers (ancestry_of layers) i node" using nodes_members[OF ok, of node] nodes_ok_node[OF ok] by simp
  moreover have "s \<in> setters node" using map_of_SomeD[OF assms(3)] node(3) by (force simp: setters_def)
  ultimately show ?thesis by (auto simp: node_ok_def)
qed


definition sample_menu_layers :: "menu_layer list" where
  "sample_menu_layers =
     [\<lparr>ly_id = ''crm'', ly_dependsOn = None,
       ml_menus = Obj [(''crm'', Obj []), (''crm.a'', Obj [(''parent'', Str ''crm'')]), (''crm.b'', Obj [(''parent'', Str ''crm'')])], ml_routes = None\<rparr>,
      \<lparr>ly_id = ''hr'', ly_dependsOn = Some [''crm''], ml_menus = Obj [(''crm.b'', Obj [(''remove'', Bool True)])], ml_routes = None\<rparr>]"

definition sample_menus :: compiled_menus where
  "sample_menus = (case compileMenus root_host sample_menu_layers of Inr c \<Rightarrow> c | Inl _ \<Rightarrow>
     \<lparr>cm_logical = [], cm_navigation = [], cm_removed = [], cm_mounts = [], cm_hidden = [], cm_provenance = []\<rparr>)"

lemma sample_menus_compile: "(case compileMenus root_host sample_menu_layers of Inr c \<Rightarrow> map rv_id (cm_removed c) = [''crm.b''] | Inl _ \<Rightarrow> False)"
  by code_simp


lemma sample_menus_provenance:
  "map_of (cm_provenance sample_menus) ''crm.b'' = Some [(''parent'', ''crm''), (''remove'', ''hr'')]"
  by code_simp

lemma sample_menus_Inr: "compileMenus root_host sample_menu_layers = Inr sample_menus"
  using sample_menus_compile by (auto simp: sample_menus_def split: sum.splits)

lemma sample_menus_removed: "map rv_id (cm_removed sample_menus) = [''crm.b'']"
  using sample_menus_compile by (simp add: sample_menus_Inr)

theorem compileMenus_partition_witness:
  "''crm.b'' \<notin> set (concat (map tree_ids (cm_logical sample_menus))) \<and> ''crm.b'' \<in> declared_ids sample_menu_layers"
proof -
  have "[] \<notin> ly_id ` set sample_menu_layers" by (simp add: sample_menu_layers_def)
  define A where "A = concat (map tree_ids (cm_logical sample_menus))"
  from compileMenus_partition[OF sample_menus_Inr \<open>[] \<notin> ly_id ` set sample_menu_layers\<close>]
  have p: "distinct (A @ [''crm.b''])" "set (A @ [''crm.b'']) = declared_ids sample_menu_layers"
    unfolding sample_menus_removed A_def by blast+
  have "''crm.b'' \<notin> set A" using p(1) by (simp only: distinct_append) simp
  moreover have "''crm.b'' \<in> declared_ids sample_menu_layers" unfolding p(2)[symmetric] by (simp only: set_append) simp
  ultimately show ?thesis unfolding A_def by (rule conjI)
qed

theorem provenance_authorized_witness:
  "list_ex (\<lambda>l. declares l ''crm.b'' \<and> may_alter (ancestry_of sample_menu_layers) ''hr'' (ly_id l)) sample_menu_layers"
proof -
  have "map_of [(''parent'', ''crm''), (''remove'', ''hr'')] ''remove'' = Some ''hr''" by simp
  from provenance_authorized[OF sample_menus_Inr sample_menus_provenance this] show ?thesis
    by (auto simp: list_ex_iff)
qed

end
