(* ===== verification/EditableLines.thy ===== *)
theory EditableLines
  imports Queries Layers Positions
begin

text \<open>
  Editable lines of a form, \<open>packages/ui/src/views/form/editable-lines.ts\<close>: the rows of a child
  collection are loaded, edited, compared with their baseline, sent as the full desired list, and
  reconciled with the rows the server accepted. A row is an object of JSON values; the rows of a
  list are distinct objects.
\<close>

section \<open>Configuration\<close>

definition CLIENT_LINE_KEY :: string where
  "CLIENT_LINE_KEY = ''__angeeClientLineKey''"

record line_field =
  lf_name :: string
  lf_kind :: string
  lf_scalar :: "string option"
  lf_relationModelLabel :: "string option"

record lines_metadata =
  lm_positionField :: "string option"
  lm_lockField :: "string option"
  lm_fields :: "line_field list option"
  lm_defaults :: "jsval table option"

record line_diff_config =
  ld_idField :: string
  ld_positionField :: "string option"
  ld_lockField :: "string option"
  ld_fieldNames :: "string list"
  ld_relationFields :: "string set"
  ld_multiRelationFields :: "string set"
  ld_enumFields :: "string set"
  ld_stringFields :: "string set"
  ld_defaultValues :: "jsval table"

definition names_where :: "(line_field \<Rightarrow> bool) \<Rightarrow> line_field list \<Rightarrow> string set" where
  "names_where P fs = set (map lf_name (filter P fs))"

definition lineDiffConfig :: "lines_metadata \<Rightarrow> line_diff_config" where
  "lineDiffConfig lines =
     (let fs = or_else (lm_fields lines) []
      in \<lparr>ld_idField = ''id'', ld_positionField = lm_positionField lines, ld_lockField = lm_lockField lines,
          ld_fieldNames = map lf_name fs,
          ld_relationFields = names_where (\<lambda>f. lf_kind f = ''relation'') fs,
          ld_multiRelationFields = names_where (\<lambda>f. lf_kind f = ''list'' \<and> truthy_string (lf_relationModelLabel f) \<noteq> None) fs,
          ld_enumFields = names_where (\<lambda>f. lf_kind f = ''enum'') fs,
          ld_stringFields = names_where (\<lambda>f. lf_kind f = ''scalar'' \<and> or_else (lf_scalar f) ''String'' = ''String'') fs,
          ld_defaultValues = or_else (lm_defaults lines) []\<rparr>)"

section \<open>Values\<close>

text \<open>\<open>relationValueId\<close> and \<open>relationIdList\<close> of \<open>packages/ui/src/widgets/types.ts\<close>.\<close>

definition id_text :: "host \<Rightarrow> jsval \<Rightarrow> string option" where
  "id_text h v = (case v of Str s \<Rightarrow> Some s | Num n \<Rightarrow> Some (num_string h n) | _ \<Rightarrow> None)"

definition relationValueId :: "host \<Rightarrow> jsval \<Rightarrow> string" where
  "relationValueId h value =
     (case id_text h value of
        Some s \<Rightarrow> s
      | None \<Rightarrow> (case value of Obj es \<Rightarrow> or_else (id_text h (prop_of es ''id'')) [] | _ \<Rightarrow> []))"

definition relationIdList :: "host \<Rightarrow> jsval \<Rightarrow> string list" where
  "relationIdList h value =
     (case value of Arr xs \<Rightarrow> filter (\<lambda>s. s \<noteq> []) (distinct_first (map (relationValueId h) xs)) | _ \<Rightarrow> [])"

definition enumModelValue :: "jsval \<Rightarrow> jsval" where
  "enumModelValue value = (case value of Str s \<Rightarrow> Str (toLowerCase s) | v \<Rightarrow> v)"

definition rowId :: "host \<Rightarrow> jsval table \<Rightarrow> line_diff_config \<Rightarrow> string option" where
  "rowId h row config =
     (case prop_of row (ld_idField config) of
        Str s \<Rightarrow> if s \<noteq> [] then Some s else None
      | Num n \<Rightarrow> Some (num_string h n)
      | _ \<Rightarrow> None)"

definition compareKey :: "host \<Rightarrow> jsval \<Rightarrow> string" where
  "compareKey h value =
     (if is_nullish value then []
      else case value of
             Arr _ \<Rightarrow> or_else (stringify h value) [] | Obj _ \<Rightarrow> or_else (stringify h value) []
           | v \<Rightarrow> js_string h v)"

definition asRow :: "jsval \<Rightarrow> jsval table" where
  "asRow value = (case value of Obj es \<Rightarrow> es | _ \<Rightarrow> [])"

definition lineFieldValue :: "host \<Rightarrow> jsval table \<Rightarrow> string \<Rightarrow> line_diff_config \<Rightarrow> jsval" where
  "lineFieldValue h row name config =
     (if name \<in> ld_multiRelationFields config then Arr (map Str (relationIdList h (prop_of row name)))
      else if name \<in> ld_relationFields config then Str (relationValueId h (prop_of row name))
      else if name \<in> ld_enumFields config then enumModelValue (prop_of row name)
      else prop_of row name)"

text \<open>The position column, if there is one.\<close>

definition position_name :: "line_diff_config \<Rightarrow> string option" where
  "position_name config = truthy_string (ld_positionField config)"

abbreviation index_value :: "nat \<Rightarrow> jsval" where
  "index_value i \<equiv> Num (Fin (of_nat i))"

definition put_position :: "line_diff_config \<Rightarrow> jsval \<Rightarrow> jsval table \<Rightarrow> jsval table" where
  "put_position config position row = (case position_name config of Some p \<Rightarrow> obj_put p position row | None \<Rightarrow> row)"

section \<open>Writing\<close>

definition put_cell :: "host \<Rightarrow> jsval table \<Rightarrow> line_diff_config \<Rightarrow> jsval table \<Rightarrow> string \<Rightarrow> jsval table" where
  "put_cell h row config input name =
     (if position_name config = Some name then input
      else let value = lineFieldValue h row name config
           in if (value = Str [] \<or> value = Null) \<and> name \<notin> ld_stringFields config
              then if rowId h row config \<noteq> None then obj_put name Null input else input
              else obj_put name value input)"

definition lineToInput :: "host \<Rightarrow> jsval table \<Rightarrow> nat \<Rightarrow> line_diff_config \<Rightarrow> jsval table" where
  "lineToInput h row index config =
     put_position config (index_value index)
       (foldl (put_cell h row config)
         (case rowId h row config of Some i \<Rightarrow> [(''id'', Str i)] | None \<Rightarrow> []) (ld_fieldNames config))"

definition sameLine :: "host \<Rightarrow> jsval table \<Rightarrow> jsval table \<Rightarrow> jsval \<Rightarrow> line_diff_config \<Rightarrow> bool" where
  "sameLine h base current position config \<longleftrightarrow>
     list_all (\<lambda>name. position_name config = Some name \<or>
       compareKey h (lineFieldValue h base name config) = compareKey h (lineFieldValue h current name config)) (ld_fieldNames config) \<and>
     (case position_name config of Some p \<Rightarrow> strict_eq (prop_of base p) position | None \<Rightarrow> True)"

record line_diff =
  df_payload :: "jsval table list"
  df_created :: "jsval table list"
  df_updated :: "jsval table list"
  df_deleted :: "string list"
  df_hasChanges :: bool

definition rows_by_id :: "host \<Rightarrow> line_diff_config \<Rightarrow> jsval table list \<Rightarrow> (string \<times> jsval table) list" where
  "rows_by_id h config rows =
     foldl (\<lambda>m row. case rowId h row config of Some i \<Rightarrow> map_put i row m | None \<Rightarrow> m) [] rows"

text \<open>The input of a row and where it goes: created (no id) or kept, and then updated or not.\<close>

definition line_changed :: "host \<Rightarrow> line_diff_config \<Rightarrow> (string \<times> jsval table) list \<Rightarrow> nat \<times> jsval table \<Rightarrow> bool" where
  "line_changed h config baselineById e =
     (case Option.bind (string_value (prop_of (lineToInput h (snd e) (fst e) config) ''id'')) (map_of baselineById) of
        None \<Rightarrow> True
      | Some base \<Rightarrow> \<not> sameLine h base (snd e) (index_value (fst e)) config)"

definition diffLines :: "host \<Rightarrow> jsval table list \<Rightarrow> jsval table list \<Rightarrow> line_diff_config \<Rightarrow> line_diff" where
  "diffLines h baseline current config =
     (let baselineById = rows_by_id h config baseline;
          input = (\<lambda>e. lineToInput h (snd e) (fst e) config);
          has_id = (\<lambda>e. prop_of (input e) ''id'' \<noteq> Undefined);
          rows = enumerate 0 current;
          created = map input (filter (\<lambda>e. \<not> has_id e) rows);
          kept = filter has_id rows;
          updated = map input (filter (line_changed h config baselineById) kept);
          currentIds = set (List.map_filter (\<lambda>e. string_value (prop_of (input e) ''id'')) kept);
          deleted = filter (\<lambda>i. i \<notin> currentIds) (map fst baselineById)
      in \<lparr>df_payload = map input rows, df_created = created, df_updated = updated, df_deleted = deleted,
          df_hasChanges = (created \<noteq> [] \<or> updated \<noteq> [] \<or> deleted \<noteq> [])\<rparr>)"

definition sameObservedLines :: "host \<Rightarrow> jsval table list \<Rightarrow> jsval table list \<Rightarrow> line_diff_config \<Rightarrow> bool" where
  "sameObservedLines h baseline current config \<longleftrightarrow>
     length baseline = length current \<and>
     list_all (\<lambda>(base, row). rowId h base config = rowId h row config \<and>
       sameLine h base row (case position_name config of Some p \<Rightarrow> prop_of row p | None \<Rightarrow> Undefined) config) (zip baseline current)"

section \<open>Loading and editing\<close>

definition rowFromLine :: "host \<Rightarrow> jsval table \<Rightarrow> nat \<Rightarrow> line_diff_config \<Rightarrow> jsval table" where
  "rowFromLine h line index config =
     (let row = (case rowId h line config of Some i \<Rightarrow> obj_put (ld_idField config) (Str i) line | None \<Rightarrow> line);
          row = foldl (\<lambda>row name. obj_put name (prop_of line name) row) row (ld_fieldNames config)
      in case position_name config of
           Some p \<Rightarrow> obj_put p (if is_number (prop_of line p) then prop_of line p else index_value index) row
         | None \<Rightarrow> row)"

definition recordLinesToRows :: "host \<Rightarrow> jsval \<Rightarrow> line_diff_config \<Rightarrow> jsval table list" where
  "recordLinesToRows h lines config =
     (case lines of Arr xs \<Rightarrow> map (\<lambda>(index, line). rowFromLine h (asRow line) index config) (enumerate 0 xs) | _ \<Rightarrow> [])"

definition emptyCellValue :: "string \<Rightarrow> line_diff_config \<Rightarrow> jsval" where
  "emptyCellValue name config =
     (case map_of (ld_defaultValues config) name of
        Some v \<Rightarrow> v
      | None \<Rightarrow> if name \<in> ld_multiRelationFields config then Arr [] else if name \<in> ld_relationFields config then Null else Str [])"

definition emptyLineRow :: "nat \<Rightarrow> line_diff_config \<Rightarrow> jsval table" where
  "emptyLineRow index config =
     put_position config (index_value index)
       (foldl (\<lambda>row name. obj_put name (emptyCellValue name config) row) [] (ld_fieldNames config))"

definition lineLockedFields :: "jsval table option \<Rightarrow> line_diff_config \<Rightarrow> string list" where
  "lineLockedFields row config =
     (case (truthy_string (ld_lockField config), row) of
        (Some f, Some r) \<Rightarrow> (case prop_of r f of Arr xs \<Rightarrow> List.map_filter string_value xs | _ \<Rightarrow> [])
      | _ \<Rightarrow> [])"

definition duplicateLineRow :: "jsval table \<Rightarrow> line_diff_config \<Rightarrow> jsval table" where
  "duplicateLineRow row config =
     (let rest = obj_del CLIENT_LINE_KEY (obj_del (ld_idField config) row)
      in case truthy_string (ld_lockField config) of Some f \<Rightarrow> obj_del f rest | None \<Rightarrow> rest)"

section \<open>Accepted rows\<close>

fun created_by_position ::
  "host \<Rightarrow> line_diff_config \<Rightarrow> string set \<Rightarrow> (nat \<times> jsval table) list \<Rightarrow> (jsval \<times> jsval table) list \<Rightarrow> (jsval \<times> jsval table) list option" where
  "created_by_position h config submittedIds [] m = Some m"
| "created_by_position h config submittedIds ((index, row) # rows) m =
     (case rowId h row config of
        None \<Rightarrow> created_by_position h config submittedIds rows m
      | Some i \<Rightarrow>
          if i \<in> submittedIds then created_by_position h config submittedIds rows m
          else let position = (case position_name config of Some p \<Rightarrow> prop_of row p | None \<Rightarrow> index_value index)
               in if map_of m position \<noteq> None then None
                  else created_by_position h config submittedIds rows (map_put position row m))"

record submitted_rows =
  sb_byId :: "(string \<times> (nat \<times> jsval table)) list"
  sb_byClientKey :: "(string \<times> (nat \<times> jsval table)) list"
  sb_accepted :: "(string \<times> jsval table) list"

fun match_submitted ::
  "host \<Rightarrow> line_diff_config \<Rightarrow> (jsval \<times> jsval table) list \<Rightarrow> (nat \<times> jsval table) list \<Rightarrow> submitted_rows \<Rightarrow> submitted_rows option" where
  "match_submitted h config createdByPosition [] m = Some m"
| "match_submitted h config createdByPosition ((index, row) # rows) m =
     (case rowId h row config of
        Some i \<Rightarrow> match_submitted h config createdByPosition rows (m\<lparr>sb_byId := map_put i (index, row) (sb_byId m)\<rparr>)
      | None \<Rightarrow>
          (case truthy_string (string_value (prop_of row CLIENT_LINE_KEY)) of
             None \<Rightarrow> None
           | Some key \<Rightarrow>
               if map_of (sb_byClientKey m) key \<noteq> None then None
               else (case map_of createdByPosition (index_value index) of
                       None \<Rightarrow> None
                     | Some saved \<Rightarrow>
                         if rowId h saved config = None then None
                         else match_submitted h config createdByPosition rows
                                (m\<lparr>sb_byClientKey := map_put key (index, row) (sb_byClientKey m),
                                   sb_accepted := map_put key saved (sb_accepted m)\<rparr>))))"

definition keep_edits :: "host \<Rightarrow> line_diff_config \<Rightarrow> jsval table \<Rightarrow> jsval table \<Rightarrow> jsval table \<Rightarrow> string \<Rightarrow> jsval table" where
  "keep_edits h config before row next name =
     (if ld_positionField config = Some name then next
      else if compareKey h (lineFieldValue h before name config) \<noteq> compareKey h (lineFieldValue h row name config)
      then obj_put name (prop_of row name) next else next)"

definition reconcile_row ::
  "host \<Rightarrow> line_diff_config \<Rightarrow> (string option \<times> jsval table) list \<Rightarrow> submitted_rows \<Rightarrow> nat \<times> jsval table \<Rightarrow> jsval table" where
  "reconcile_row h config savedById m e =
     (let row = snd e; key = string_value (prop_of row CLIENT_LINE_KEY);
          saved = (case rowId h row config of Some i \<Rightarrow> map_of savedById (Some i) | None \<Rightarrow> Option.bind key (map_of (sb_accepted m)));
          before = (case rowId h row config of Some i \<Rightarrow> map_of (sb_byId m) i | None \<Rightarrow> Option.bind key (map_of (sb_byClientKey m)))
      in case (saved, before) of
           (Some s, Some (index, b)) \<Rightarrow>
             (let next = foldl (keep_edits h config b row) s (ld_fieldNames config)
              in if fst e \<noteq> index then put_position config (index_value (fst e)) next else next)
         | _ \<Rightarrow> row)"

definition reconcileAcceptedLineRows ::
  "host \<Rightarrow> jsval table list \<Rightarrow> jsval table list \<Rightarrow> jsval table list \<Rightarrow> line_diff_config \<Rightarrow> jsval table list option" where
  "reconcileAcceptedLineRows h accepted submitted current config =
     (let submittedIds = set (List.map_filter (\<lambda>row. rowId h row config) submitted);
          savedById = new_Map (map (\<lambda>row. (rowId h row config, row)) accepted)
      in Option.bind (created_by_position h config submittedIds (enumerate 0 accepted) []) (\<lambda>createdByPosition.
         Option.bind (match_submitted h config createdByPosition (enumerate 0 submitted)
             \<lparr>sb_byId = [], sb_byClientKey = [], sb_accepted = []\<rparr>) (\<lambda>m.
           Some (map (reconcile_row h config savedById m) (enumerate 0 current)))))"

end
