(* ===== verification/LineClaims.thy ===== *)
theory LineClaims
  imports EditableLines "HOL-Library.Code_Target_Numeral"
begin

text \<open>
  What saving editable lines (\<open>packages/ui/src/views/form/editable-lines.ts\<close>) promises: when an
  unedited list is sent, and what a user's later edits become when the server's rows arrive.
\<close>

section \<open>Cells\<close>

lemma prop_put [simp]: "prop_of (obj_put k v es) x = (if x = k then v else prop_of es x)"
  by (simp add: prop_of_def)

lemma prop_fold_put:
  "prop_of (foldl (\<lambda>row name. obj_put name (f name) row) row names) x = (if x \<in> set names then f x else prop_of row x)"
  by (induction names arbitrary: row) auto

text \<open>What the operations need of a configuration: the id column is none of the edited ones.\<close>

definition config_ok :: "line_diff_config \<Rightarrow> bool" where
  "config_ok config \<longleftrightarrow> ld_idField config = ''id'' \<and> ''id'' \<notin> set (ld_fieldNames config) \<and> ld_positionField config \<noteq> Some ''id''"

lemma position_not_id: "config_ok config \<Longrightarrow> position_name config \<noteq> Some ''id''"
  by (auto simp: config_ok_def position_name_def truthy_string_def split: option.splits if_splits)

lemma put_cell_id: "name \<noteq> ''id'' \<Longrightarrow> prop_of (put_cell h row config input name) ''id'' = prop_of input ''id''"
  by (auto simp: put_cell_def Let_def)

lemma put_cells_id: "''id'' \<notin> set names \<Longrightarrow> prop_of (foldl (put_cell h row config) input names) ''id'' = prop_of input ''id''"
proof (induction names arbitrary: input)
  case (Cons name names)
  then have "name \<noteq> ''id''" by auto
  with Cons show ?case by (simp add: put_cell_id)
qed simp

lemma put_position_other: "position_name config \<noteq> Some x \<Longrightarrow> prop_of (put_position config v row) x = prop_of row x"
  by (auto simp: put_position_def split: option.splits)

lemma lineToInput_id:
  assumes "config_ok config"
  shows "prop_of (lineToInput h row i config) ''id'' = (case rowId h row config of Some s \<Rightarrow> Str s | None \<Rightarrow> Undefined)"
proof -
  have "''id'' \<notin> set (ld_fieldNames config)" using assms by (simp add: config_ok_def)
  then show ?thesis
    unfolding lineToInput_def put_position_other[OF position_not_id[OF assms]]
    by (cases "rowId h row config") (simp_all add: put_cells_id, simp_all add: prop_of_def)
qed

section \<open>Unedited rows\<close>

lemma enumerate_snd: "e \<in> set (enumerate n xs) \<Longrightarrow> snd e \<in> set xs"
  by (induction xs arbitrary: n) auto

lemma rows_by_id_distinct:
  assumes "distinct (map (\<lambda>r. rowId h r config) rows)" "list_all (\<lambda>r. rowId h r config \<noteq> None) rows"
  shows "map_keys (rows_by_id h config rows) = {i. \<exists>r \<in> set rows. rowId h r config = Some i} \<and>
    (\<forall>r \<in> set rows. \<forall>i. rowId h r config = Some i \<longrightarrow> map_of (rows_by_id h config rows) i = Some r)"
  using assms
proof (induction rows rule: rev_induct)
  case (snoc r rows)
  obtain i where i: "rowId h r config = Some i" using snoc.prems(2) by auto
  have step: "rows_by_id h config (rows @ [r]) = map_put i r (rows_by_id h config rows)" by (simp add: rows_by_id_def i)
  have fresh: "rowId h q config \<noteq> Some i" if "q \<in> set rows" for q
    using snoc.prems(1) that i by (auto simp: image_iff)
  have ih: "map_keys (rows_by_id h config rows) = {i. \<exists>r \<in> set rows. rowId h r config = Some i}"
      "\<forall>r \<in> set rows. \<forall>i. rowId h r config = Some i \<longrightarrow> map_of (rows_by_id h config rows) i = Some r"
    using snoc.IH snoc.prems by simp_all
  have "map_keys (rows_by_id h config (rows @ [r])) = {i. \<exists>q \<in> set (rows @ [r]). rowId h q config = Some i}"
    using ih(1) i by (auto simp: step)
  moreover have "map_of (rows_by_id h config (rows @ [r])) j = Some q" if "q \<in> set (rows @ [r])" "rowId h q config = Some j" for q j
  proof (cases "q = r")
    case True
    then show ?thesis using that(2) i by (simp add: step)
  next
    case False
    then have "q \<in> set rows" using that(1) by simp
    then show ?thesis using ih(2) fresh[of q] that(2) by (auto simp: step)
  qed
  ultimately show ?case by blast
qed (simp add: rows_by_id_def)

lemma enumerate_member: "x \<in> set xs \<Longrightarrow> \<exists>k. (k, x) \<in> set (enumerate n xs)"
  by (induction xs arbitrary: n) auto

text \<open>Whether every row stands at its own position.\<close>

definition in_place :: "line_diff_config \<Rightarrow> jsval table list \<Rightarrow> bool" where
  "in_place config rows \<longleftrightarrow>
     (case position_name config of
        Some p \<Rightarrow> list_all (\<lambda>(i, row). strict_eq (prop_of row p) (index_value i)) (enumerate 0 rows)
      | None \<Rightarrow> True)"

lemma diff_same_rows:
  assumes "config_ok config" "distinct (map (\<lambda>r. rowId h r config) rows)" "list_all (\<lambda>r. rowId h r config \<noteq> None) rows"
  shows "df_hasChanges (diffLines h rows rows config) \<longleftrightarrow> \<not> in_place config rows"
proof -
  let ?input = "\<lambda>e. lineToInput h (snd e) (fst e) config" and ?rows = "enumerate 0 rows" and ?base = "rows_by_id h config rows"
  note byId = rows_by_id_distinct[OF assms(2,3)]
  have id: "\<exists>s. rowId h (snd e) config = Some s \<and> prop_of (?input e) ''id'' = Str s \<and> map_of ?base s = Some (snd e)" if "e \<in> set ?rows" for e
  proof -
    have e: "snd e \<in> set rows" using that by (rule enumerate_snd)
    then obtain s where "rowId h (snd e) config = Some s" using assms(3) by (auto simp: list_all_iff)
    then show ?thesis using byId e by (auto simp: lineToInput_id[OF assms(1)])
  qed
  have changed: "line_changed h config ?base e \<longleftrightarrow> \<not> (case position_name config of Some p \<Rightarrow> strict_eq (prop_of (snd e) p) (index_value (fst e)) | None \<Rightarrow> True)"
    if "e \<in> set ?rows" for e
    using id[OF that] by (auto simp: line_changed_def string_value_def sameLine_def list_all_iff)
  have kept: "filter (\<lambda>e. prop_of (?input e) ''id'' \<noteq> Undefined) ?rows = ?rows"
    using id by (fastforce simp: filter_id_conv)
  have created: "filter (\<lambda>e. \<not> prop_of (?input e) ''id'' \<noteq> Undefined) ?rows = []"
    using id by (fastforce simp: filter_empty_conv)
  have deleted: "filter (\<lambda>i. i \<notin> set (List.map_filter (\<lambda>e. string_value (prop_of (?input e) ''id'')) ?rows)) (map fst ?base) = []"
  proof -
    have "i \<in> set (List.map_filter (\<lambda>e. string_value (prop_of (?input e) ''id'')) ?rows)" if i: "i \<in> map_keys ?base" for i
    proof -
      obtain r where r: "r \<in> set rows" "rowId h r config = Some i" using byId i by auto
      then obtain k where "(k, r) \<in> set ?rows" using enumerate_member[of r rows 0] by blast
      moreover have "string_value (prop_of (?input (k, r)) ''id'') = Some i" using r(2) by (simp add: lineToInput_id[OF assms(1)] string_value_def)
      ultimately show ?thesis by (force simp: List.map_filter_def)
    qed
    then show ?thesis by (simp add: filter_empty_conv map_keys_def)
  qed
  have "df_hasChanges (diffLines h rows rows config) \<longleftrightarrow> filter (line_changed h config ?base) ?rows \<noteq> []"
    unfolding diffLines_def Let_def kept created by (simp add: deleted)
  also have "\<dots> \<longleftrightarrow> \<not> list_all (\<lambda>e. case position_name config of Some p \<Rightarrow> strict_eq (prop_of (snd e) p) (index_value (fst e)) | None \<Rightarrow> True) ?rows"
    using changed by (auto simp: filter_empty_conv list_all_iff)
  also have "\<dots> \<longleftrightarrow> \<not> in_place config rows"
    by (cases "position_name config") (auto simp: in_place_def list_all_iff split_beta)
  finally show ?thesis .
qed

lemma loaded_position:
  "position_name config = Some p \<Longrightarrow>
   prop_of (rowFromLine h line i config) p = (if is_number (prop_of line p) then prop_of line p else index_value i)"
  by (simp add: rowFromLine_def Let_def)

text \<open>
  C26: saving the loaded lines unedited changes nothing exactly when every stored position, where
  there is one, is the line's place in the list: a list stored with other positions (counted from
  one, or with gaps) is sent as updated even when the user touched nothing.
\<close>

theorem unedited_save:
  assumes "config_ok config" "rows = recordLinesToRows h (Arr lines) config"
    and "distinct (map (\<lambda>r. rowId h r config) rows)" "list_all (\<lambda>r. rowId h r config \<noteq> None) rows"
  shows "df_hasChanges (diffLines h rows rows config) \<longleftrightarrow>
    list_ex (\<lambda>(i, line). case position_name config of
        Some p \<Rightarrow> is_number (prop_of (asRow line) p) \<and> prop_of (asRow line) p \<noteq> index_value i
      | None \<Rightarrow> False) (enumerate 0 lines)"
proof -
  have e: "enumerate 0 rows = map (\<lambda>(i, line). (i, rowFromLine h (asRow line) i config)) (enumerate 0 lines)"
    by (rule nth_equalityI) (simp_all add: assms(2) recordLinesToRows_def nth_enumerate_eq)
  have num: "is_number v \<Longrightarrow> strict_eq v (index_value i) \<longleftrightarrow> v = index_value i" for v i
    by (cases v) (auto simp: is_number_def)
  have "in_place config rows \<longleftrightarrow> \<not> list_ex (\<lambda>(i, line). case position_name config of
        Some p \<Rightarrow> is_number (prop_of (asRow line) p) \<and> prop_of (asRow line) p \<noteq> index_value i
      | None \<Rightarrow> False) (enumerate 0 lines)"
    by (cases "position_name config")
      (auto simp: in_place_def e list_all_iff list_ex_iff loaded_position num split_beta)
  then show ?thesis using diff_same_rows[OF assms(1,3,4)] by simp
qed

definition sample_config :: line_diff_config where
  "sample_config = lineDiffConfig \<lparr>lm_positionField = Some ''pos'', lm_lockField = None,
     lm_fields = Some [\<lparr>lf_name = ''qty'', lf_kind = ''scalar'', lf_scalar = Some ''Int'', lf_relationModelLabel = None\<rparr>], lm_defaults = None\<rparr>"

definition sample_lines :: "jsval list" where
  "sample_lines = [Obj [(''id'', Str ''a''), (''qty'', Num (Fin 2)), (''pos'', Num (Fin 1))],
     Obj [(''id'', Str ''b''), (''qty'', Num (Fin 5)), (''pos'', Num (Fin 2))]]"

lemma sample_config_ok: "config_ok sample_config" by code_simp

theorem unedited_save_witness:
  "df_hasChanges (diffLines root_host (recordLinesToRows root_host (Arr sample_lines) sample_config)
     (recordLinesToRows root_host (Arr sample_lines) sample_config) sample_config)"
proof -
  let ?rows = "recordLinesToRows root_host (Arr sample_lines) sample_config"
  have ids: "map (\<lambda>r. rowId root_host r sample_config) ?rows = [Some ''a'', Some ''b'']" by code_simp
  then have "distinct (map (\<lambda>r. rowId root_host r sample_config) ?rows)" by simp
  moreover have "list_all (\<lambda>r. rowId root_host r sample_config \<noteq> None) ?rows" by code_simp
  moreover have "list_ex (\<lambda>(i, line). case position_name sample_config of
        Some p \<Rightarrow> is_number (prop_of (asRow line) p) \<and> prop_of (asRow line) p \<noteq> index_value i
      | None \<Rightarrow> False) (enumerate 0 sample_lines)"
    by code_simp
  ultimately show ?thesis using unedited_save[OF sample_config_ok refl, of root_host sample_lines] by blast
qed

section \<open>Accepted rows\<close>

lemma created_by_position_source:
  "created_by_position h config submittedIds rows m = Some m' \<Longrightarrow> map_of m' position = Some row \<Longrightarrow>
   map_of m position = Some row \<or>
   (\<exists>index i. (index, row) \<in> set rows \<and> rowId h row config = Some i \<and> i \<notin> submittedIds \<and>
      position = (case position_name config of Some p \<Rightarrow> prop_of row p | None \<Rightarrow> index_value index))"
proof (induction rows arbitrary: m)
  case (Cons e rows)
  obtain index r where e: "e = (index, r)" by (cases e)
  show ?case
  proof (cases "rowId h r config")
    case None
    then show ?thesis using Cons by (auto simp: e)
  next
    case (Some i)
    let ?p = "case position_name config of Some p \<Rightarrow> prop_of r p | None \<Rightarrow> index_value index"
    show ?thesis
    proof (cases "i \<in> submittedIds")
      case True
      then show ?thesis using Cons Some by (auto simp: e)
    next
      case False
      then have "created_by_position h config submittedIds rows (map_put ?p r m) = Some m'"
        using Cons.prems(1) Some by (auto simp: e Let_def split: if_splits)
      from Cons.IH[OF this Cons.prems(2)] show ?thesis
        using Some False by (cases "position = ?p") (auto simp: e)
    qed
  qed
qed simp

lemma match_submitted_keeps:
  "match_submitted h config createdByPosition rows m = Some m' \<Longrightarrow> map_of (sb_byClientKey m) key = Some e \<Longrightarrow>
   map_of (sb_byClientKey m') key = Some e \<and> map_of (sb_accepted m') key = map_of (sb_accepted m) key"
proof (induction rows arbitrary: m)
  case (Cons x rows)
  obtain index row where x: "x = (index, row)" by (cases x)
  show ?case
  proof (cases "rowId h row config")
    case (Some i)
    then show ?thesis using Cons.IH[of "m\<lparr>sb_byId := map_put i (index, row) (sb_byId m)\<rparr>"] Cons.prems by (simp add: x)
  next
    case None
    then obtain k saved where k: "\<forall>i r. map_of (sb_byClientKey m) k \<noteq> Some (i, r)"
        "match_submitted h config createdByPosition rows
           (m\<lparr>sb_byClientKey := map_put k (index, row) (sb_byClientKey m), sb_accepted := map_put k saved (sb_accepted m)\<rparr>) = Some m'"
      using Cons.prems(1) by (auto simp: x split: option.splits if_splits)
    then have "key \<noteq> k" using Cons.prems(2) by (cases e) auto
    then show ?thesis using Cons.IH[OF k(2)] Cons.prems(2) by simp
  qed
qed simp

lemma match_submitted_new:
  "match_submitted h config createdByPosition rows m = Some m' \<Longrightarrow> (index, row) \<in> set rows \<Longrightarrow> rowId h row config = None \<Longrightarrow>
   string_value (prop_of row CLIENT_LINE_KEY) = Some key \<Longrightarrow>
   map_of (sb_byClientKey m') key = Some (index, row) \<and>
   (\<exists>saved. map_of (sb_accepted m') key = Some saved \<and> map_of createdByPosition (index_value index) = Some saved \<and> rowId h saved config \<noteq> None)"
proof (induction rows arbitrary: m)
  case (Cons x rows)
  show ?case
  proof (cases "x = (index, row)")
    case True
    then obtain saved where s: "map_of createdByPosition (index_value index) = Some saved" "rowId h saved config \<noteq> None"
        "match_submitted h config createdByPosition rows
           (m\<lparr>sb_byClientKey := map_put key (index, row) (sb_byClientKey m), sb_accepted := map_put key saved (sb_accepted m)\<rparr>) = Some m'"
      using Cons.prems(1,3,4) by (auto simp: truthy_string_def split: option.splits if_splits)
    from match_submitted_keeps[OF s(3), of key "(index, row)"] s(1,2) show ?thesis by simp
  next
    case False
    then have mem: "(index, row) \<in> set rows" using Cons.prems(2) by simp
    obtain m1 where "match_submitted h config createdByPosition rows m1 = Some m'"
      using Cons.prems(1) by (cases x) (auto split: option.splits if_splits)
    from Cons.IH[OF this mem Cons.prems(3,4)] show ?thesis .
  qed
qed simp

definition edited :: "host \<Rightarrow> line_diff_config \<Rightarrow> jsval table \<Rightarrow> jsval table \<Rightarrow> string \<Rightarrow> bool" where
  "edited h config before row name \<longleftrightarrow>
     compareKey h (lineFieldValue h before name config) \<noteq> compareKey h (lineFieldValue h row name config)"

lemma keep_edits_fold:
  "prop_of (foldl (keep_edits h config before row) next names) x =
     (if x \<in> set names \<and> ld_positionField config \<noteq> Some x \<and> edited h config before row x then prop_of row x else prop_of next x)"
proof (induction names arbitrary: "next")
  case (Cons name names)
  then show ?case by (auto simp: keep_edits_def edited_def)
qed simp


lemma map_filter_member: "s \<in> set (List.map_filter f xs) \<longleftrightarrow> Some s \<in> f ` set xs"
  by (induction xs) (auto simp: List.map_filter_simps split: option.splits)

lemma nth_enumerate_0: "i < length xs \<Longrightarrow> enumerate 0 xs ! i = (i, xs ! i)"
  by (simp add: nth_enumerate_eq)

lemma reconcile_new_row:
  assumes "reconcileAcceptedLineRows h accepted submitted current config = Some rows"
    and "i < length current" "rowId h (current ! i) config = None"
    and "string_value (prop_of (current ! i) CLIENT_LINE_KEY) = Some key"
    and "j < length submitted" "rowId h (submitted ! j) config = None"
    and "string_value (prop_of (submitted ! j) CLIENT_LINE_KEY) = Some key"
  obtains k saved s where "k < length accepted" "saved = accepted ! k" "rowId h saved config = Some s"
    "Some s \<notin> (\<lambda>row. rowId h row config) ` set submitted"
    "(case position_name config of Some p \<Rightarrow> prop_of saved p | None \<Rightarrow> index_value k) = index_value j"
    "rows ! i = (let next = foldl (keep_edits h config (submitted ! j) (current ! i)) saved (ld_fieldNames config)
        in if i \<noteq> j then put_position config (index_value i) next else next)"
proof -
  let ?ids = "set (List.map_filter (\<lambda>row. rowId h row config) submitted)"
  let ?byId = "new_Map (map (\<lambda>row. (rowId h row config, row)) accepted)"
  obtain created m where created: "created_by_position h config ?ids (enumerate 0 accepted) [] = Some created"
      and m: "match_submitted h config created (enumerate 0 submitted) \<lparr>sb_byId = [], sb_byClientKey = [], sb_accepted = []\<rparr> = Some m"
      and rows: "rows = map (reconcile_row h config ?byId m) (enumerate 0 current)"
    using assms(1) by (auto simp: reconcileAcceptedLineRows_def Let_def bind_eq_Some_conv)
  have "(j, submitted ! j) \<in> set (enumerate 0 submitted)" using assms(5) by (simp add: in_set_enumerate_eq)
  from match_submitted_new[OF m this assms(6,7)] obtain saved where key: "map_of (sb_byClientKey m) key = Some (j, submitted ! j)"
      "map_of (sb_accepted m) key = Some saved" "map_of created (index_value j) = Some saved" by blast
  from created_by_position_source[OF created key(3)] obtain k s where k: "(k, saved) \<in> set (enumerate 0 accepted)"
      "rowId h saved config = Some s" "s \<notin> ?ids"
      "index_value j = (case position_name config of Some p \<Rightarrow> prop_of saved p | None \<Rightarrow> index_value k)" by auto
  have ri: "rows ! i = reconcile_row h config ?byId m (i, current ! i)"
    using assms(2) unfolding rows by (subst nth_map) (simp_all add: nth_enumerate_0)
  have "Some s \<notin> (\<lambda>row. rowId h row config) ` set submitted"
    using k(3) unfolding map_filter_member .
  moreover have "k < length accepted" "saved = accepted ! k" using k(1) by (auto simp: in_set_enumerate_eq)
  moreover have "rows ! i = (let next = foldl (keep_edits h config (submitted ! j) (current ! i)) saved (ld_fieldNames config)
        in if i \<noteq> j then put_position config (index_value i) next else next)"
    using ri key(1,2) assms(3,4) by (simp add: reconcile_row_def Let_def)
  ultimately show ?thesis using that k(2,4) by metis
qed

text \<open>
  C27: after a save, a line the user had added (known by its client key) takes the id of the row the
  server created at its submitted place, which no submitted row had; the cells the user edited
  since the submit keep the user's value and the other columns take the server's.
\<close>

theorem reconcile_adopts:
  assumes "config_ok config" "reconcileAcceptedLineRows h accepted submitted current config = Some rows"
    and "i < length current" "rowId h (current ! i) config = None"
    and "string_value (prop_of (current ! i) CLIENT_LINE_KEY) = Some key"
    and "j < length submitted" "rowId h (submitted ! j) config = None"
    and "string_value (prop_of (submitted ! j) CLIENT_LINE_KEY) = Some key"
  shows "\<exists>k s. k < length accepted \<and> rowId h (accepted ! k) config = Some s \<and> rowId h (rows ! i) config = Some s \<and>
    Some s \<notin> (\<lambda>row. rowId h row config) ` set submitted \<and>
    (case position_name config of Some p \<Rightarrow> prop_of (accepted ! k) p | None \<Rightarrow> index_value k) = index_value j \<and>
    (\<forall>name. ld_positionField config \<noteq> Some name \<longrightarrow>
       prop_of (rows ! i) name = (if name \<in> set (ld_fieldNames config) \<and> edited h config (submitted ! j) (current ! i) name
         then prop_of (current ! i) name else prop_of (accepted ! k) name))"
proof -
  obtain k saved s where k: "k < length accepted" "saved = accepted ! k" "rowId h saved config = Some s"
      "Some s \<notin> (\<lambda>row. rowId h row config) ` set submitted"
      "(case position_name config of Some p \<Rightarrow> prop_of saved p | None \<Rightarrow> index_value k) = index_value j"
      and row: "rows ! i = (let next = foldl (keep_edits h config (submitted ! j) (current ! i)) saved (ld_fieldNames config)
        in if i \<noteq> j then put_position config (index_value i) next else next)"
    using reconcile_new_row[OF assms(2-8)] .
  have other: "ld_positionField config \<noteq> Some name \<Longrightarrow> position_name config \<noteq> Some name" for name
    by (auto simp: position_name_def truthy_string_def split: option.splits if_splits)
  have cells: "prop_of (rows ! i) name = (if name \<in> set (ld_fieldNames config) \<and> edited h config (submitted ! j) (current ! i) name
         then prop_of (current ! i) name else prop_of (accepted ! k) name)" if "ld_positionField config \<noteq> Some name" for name
    using that put_position_other[OF other[OF that]] by (simp add: row Let_def keep_edits_fold k(2))
  have "prop_of (rows ! i) ''id'' = prop_of saved ''id''"
    using cells[of "''id''"] assms(1) by (auto simp: config_ok_def k(2))
  then have "rowId h (rows ! i) config = Some s" using k(3) assms(1) by (simp add: rowId_def config_ok_def)
  then show ?thesis using k cells by blast
qed


definition sample_submitted :: "jsval table list" where
  "sample_submitted = [[(''id'', Str ''a''), (''qty'', Num (Fin 2)), (''pos'', Num (Fin 0))],
     [(''qty'', Num (Fin 3)), (CLIENT_LINE_KEY, Str ''k1''), (''pos'', Num (Fin 1))]]"

definition sample_current :: "jsval table list" where
  "sample_current = [[(''qty'', Num (Fin 4)), (CLIENT_LINE_KEY, Str ''k1''), (''pos'', Num (Fin 1))]]"

definition sample_accepted :: "jsval table list" where
  "sample_accepted = [[(''id'', Str ''a''), (''qty'', Num (Fin 2)), (''pos'', Num (Fin 0))],
     [(''id'', Str ''b''), (''qty'', Num (Fin 3)), (''total'', Num (Fin 30)), (''pos'', Num (Fin 1))]]"

definition sample_reconciled :: "jsval table list" where
  "sample_reconciled = [[(''id'', Str ''b''), (''qty'', Num (Fin 4)), (''total'', Num (Fin 30)), (''pos'', Num (Fin 0))]]"

lemma sample_reconcile:
  "reconcileAcceptedLineRows root_host sample_accepted sample_submitted sample_current sample_config = Some sample_reconciled"
  by code_simp

theorem reconcile_adopts_witness: "rowId root_host (sample_reconciled ! 0) sample_config \<noteq> None"
proof -
  have "rowId root_host (sample_current ! 0) sample_config = None" "rowId root_host (sample_submitted ! 1) sample_config = None"
    "string_value (prop_of (sample_current ! 0) CLIENT_LINE_KEY) = Some ''k1''"
    "string_value (prop_of (sample_submitted ! 1) CLIENT_LINE_KEY) = Some ''k1''"
    "0 < length sample_current" "1 < length sample_submitted" by code_simp+
  note facts = this
  from reconcile_adopts[OF sample_config_ok sample_reconcile facts(5) facts(1) facts(3) facts(6) facts(2) facts(4)] show ?thesis by auto
qed

end
