(* ===== verification/Boards.thy ===== *)
theory Boards
  imports Filters Positions "HOL-Library.Log_Nat"
begin

text \<open>
  Ordering of board cards, \<open>packages/ui/src/views/resource/board-ordering.ts\<close>: a dropped card asks for
  a numeric rank between its new neighbours, or names the cards before and after it for an order the
  server owns. \<open>rowPublicId\<close> is of \<open>packages/metadata/src/rows.ts\<close>. Ranks are IEEE 754 double
  numbers: the sum of two is the exact rational sum rounded to the nearest double, ties to even.
\<close>

section \<open>Double precision numbers\<close>

definition floor_log2 :: "rat \<Rightarrow> int" where
  "floor_log2 x =
     (let (p, q) = quotient_of x; k = bitlen p - bitlen q
      in if 2 powi k \<le> x then k else k - 1)"

definition half_even :: "rat \<Rightarrow> int" where
  "half_even x =
     (let n = floor x; d = x - of_int n
      in if d < 1 / 2 then n else if d > 1 / 2 then n + 1 else if even n then n else n + 1)"

definition ulp_of :: "rat \<Rightarrow> rat" where
  "ulp_of x = 2 powi (max (-1074) (floor_log2 \<bar>x\<bar> - 52))"

definition double_of :: "rat \<Rightarrow> jsnum" where
  "double_of x =
     (if x = 0 then Fin 0
      else let r = of_int (half_even (x / ulp_of x)) * ulp_of x
           in if \<bar>r\<bar> \<ge> 2 ^ 1024 then (if x > 0 then PosInf else NegInf) else Fin r)"

fun js_add :: "jsnum \<Rightarrow> jsnum \<Rightarrow> jsnum" where
  "js_add (Fin x) (Fin y) = double_of (x + y)"
| "js_add NaN _ = NaN"
| "js_add _ NaN = NaN"
| "js_add PosInf NegInf = NaN"
| "js_add NegInf PosInf = NaN"
| "js_add PosInf _ = PosInf"
| "js_add NegInf _ = NegInf"
| "js_add _ PosInf = PosInf"
| "js_add _ NegInf = NegInf"

fun js_half :: "jsnum \<Rightarrow> jsnum" where
  "js_half (Fin x) = double_of (x / 2)"
| "js_half n = n"

definition is_finite :: "jsnum \<Rightarrow> bool" where
  "is_finite n = (case n of Fin _ \<Rightarrow> True | _ \<Rightarrow> False)"

section \<open>Ranks\<close>

definition FRACTIONAL_RANK_STEP :: rat where
  "FRACTIONAL_RANK_STEP = 1024"

definition fractionalRankBetween :: "jsnum option \<Rightarrow> jsnum option \<Rightarrow> jsnum" where
  "fractionalRankBetween previous following =
     (case following of
        None \<Rightarrow>
          (case previous of
             None \<Rightarrow> Fin FRACTIONAL_RANK_STEP
           | Some p \<Rightarrow> (let candidate = js_add p (Fin FRACTIONAL_RANK_STEP) in if is_finite candidate then candidate else p))
      | Some f \<Rightarrow>
          (case previous of
             None \<Rightarrow> (let candidate = js_add f (Fin (- FRACTIONAL_RANK_STEP)) in if is_finite candidate then candidate else f)
           | Some p \<Rightarrow> (let candidate = js_add (js_half p) (js_half f) in if is_finite candidate then candidate else p)))"

section \<open>Drops\<close>

record board_row =
  br_id :: string
  br_original :: "jsval table"

record row_group =
  rg_key :: string
  rg_rows :: "board_row list"

record board_target =
  bt_laneId :: string
  bt_rowId :: "string option"

record board_order_intent =
  bo_preceding :: "string list"
  bo_following :: "string list"

record board_move =
  bm_laneId :: string
  bm_rank :: "jsnum option"
  bm_order :: "board_order_intent option"

definition rowPublicId :: "jsval table option \<Rightarrow> string option \<Rightarrow> string option" where
  "rowPublicId row identity =
     (case row of None \<Rightarrow> None | Some r \<Rightarrow> string_value (prop_of r (or_else identity ''id'')))"

definition public_ids :: "board_row list \<Rightarrow> string list" where
  "public_ids rows = List.map_filter (\<lambda>row. truthy_string (rowPublicId (Some (br_original row)) None)) rows"

definition sameOrder :: "string list \<Rightarrow> string list \<Rightarrow> bool" where
  "sameOrder left right \<longleftrightarrow> length left = length right \<and> list_all (\<lambda>(a, b). a = b) (zip left right)"

definition remaining_rows :: "string \<Rightarrow> board_row list \<Rightarrow> board_row list" where
  "remaining_rows activeRowId rows = filter (\<lambda>row. br_id row \<noteq> activeRowId) rows"

definition insert_index :: "string \<Rightarrow> board_target \<Rightarrow> board_row list \<Rightarrow> nat" where
  "insert_index activeRowId target rows =
     (let n = length (remaining_rows activeRowId rows);
          over = (case truthy_string (bt_rowId target) of
                    Some i \<Rightarrow> findIndex (\<lambda>row. br_id row = i) rows
                  | None \<Rightarrow> int n)
      in if over < 0 then n else min (nat over) n)"

definition nth_option :: "'a list \<Rightarrow> int \<Rightarrow> 'a option" where
  "nth_option xs i = (if 0 \<le> i \<and> nat i < length xs then Some (xs ! nat i) else None)"

definition boardMoveForDrop ::
  "string \<Rightarrow> string \<Rightarrow> board_target \<Rightarrow> row_group list \<Rightarrow> string option \<Rightarrow> string option \<Rightarrow> (board_row \<Rightarrow> jsnum option) \<Rightarrow> board_move option" where
  "boardMoveForDrop activeRowId activeLaneId target groups rankField rankInputField rankForRow =
     (if bt_rowId target = Some activeRowId then None
      else if truthy_string rankField = None
      then (if bt_laneId target = activeLaneId then None
            else Some \<lparr>bm_laneId = bt_laneId target, bm_rank = None, bm_order = None\<rparr>)
      else
        (case find (\<lambda>lane. rg_key lane = bt_laneId target) groups of
           None \<Rightarrow> None
         | Some lane \<Rightarrow>
             (let rows = rg_rows lane; remaining = remaining_rows activeRowId rows; k = insert_index activeRowId target rows
              in if bt_laneId target = activeLaneId \<and>
                    sameOrder (map br_id rows) (take k (map br_id remaining) @ activeRowId # drop k (map br_id remaining))
                 then None
                 else if truthy_string rankInputField \<noteq> None
                 then Some \<lparr>bm_laneId = bt_laneId target, bm_rank = None,
                        bm_order = Some \<lparr>bo_preceding = public_ids (take k remaining), bo_following = public_ids (drop k remaining)\<rparr>\<rparr>
                 else Some \<lparr>bm_laneId = bt_laneId target,
                        bm_rank = Some (fractionalRankBetween (Option.bind (nth_option remaining (int k - 1)) rankForRow)
                                          (Option.bind (nth_option remaining (int k)) rankForRow)),
                        bm_order = None\<rparr>)))"

definition boardAppendRank :: "row_group \<Rightarrow> (board_row \<Rightarrow> jsnum option) \<Rightarrow> jsnum" where
  "boardAppendRank lane rankForRow =
     fractionalRankBetween (if rg_rows lane \<noteq> [] then rankForRow (last (rg_rows lane)) else None) None"

section \<open>Rounding\<close>

lemma powi_ge: "(j :: int) \<le> k \<Longrightarrow> (2 :: rat) powi k = 2 powi j * 2 ^ nat (k - j)"
proof -
  assume "j \<le> k"
  then obtain d where d: "k = j + int d" by (metis zle_iff_zadd)
  show "(2 :: rat) powi k = 2 powi j * 2 ^ nat (k - j)" unfolding d by (subst power_int_add) simp_all
qed

lemma powi_le_iff: "(2 :: rat) powi j \<le> 2 powi k \<longleftrightarrow> j \<le> k"
proof
  assume "(2 :: rat) powi j \<le> 2 powi k"
  then show "j \<le> k" using power_int_strict_increasing[of k j "2 :: rat"] by (cases "k < j") auto
qed (simp add: power_int_increasing)

lemma bitlen_rat:
  assumes "0 < p"
  shows "(2 :: rat) powi (bitlen p - 1) \<le> of_int p" "of_int p < (2 :: rat) powi (bitlen p)"
proof -
  have l: "1 \<le> bitlen p" using assms bitlen_eq_zero_iff[of p] bitlen_nonneg[of p] by linarith
  have b: "2 ^ nat (bitlen p - 1) \<le> p" "p < 2 ^ nat (bitlen p)" using bitlen_bounds[OF assms] by auto
  have "(of_int (2 ^ nat (bitlen p - 1)) :: rat) \<le> of_int p" "(of_int p :: rat) < of_int (2 ^ nat (bitlen p))"
    using b by (simp_all only: of_int_le_iff of_int_less_iff)
  then show "(2 :: rat) powi (bitlen p - 1) \<le> of_int p" "of_int p < (2 :: rat) powi (bitlen p)"
    using l by (simp_all add: power_int_def)
qed

lemma floor_log2_bounds:
  assumes "0 < x"
  shows "2 powi (floor_log2 x) \<le> x" "x < 2 powi (floor_log2 x + 1)"
proof -
  obtain p q where pq: "quotient_of x = (p, q)" by fastforce
  have q: "0 < q" and x: "x = of_int p / of_int q" using quotient_of_denom_pos[OF pq] quotient_of_div[OF pq] by auto
  then have p: "0 < p" using assms by (simp add: zero_less_divide_iff)
  let ?k = "bitlen p - bitlen q"
  have xq: "x * of_int q = of_int p" using q x by simp
  have up: "x < 2 powi (?k + 1)"
  proof (rule ccontr)
    assume "\<not> x < 2 powi (?k + 1)"
    then have "2 powi (?k + 1) * 2 powi (bitlen q - 1) \<le> x * of_int q"
      using bitlen_rat(1)[OF q] assms by (intro mult_mono) auto
    also have "2 powi (?k + 1) * 2 powi (bitlen q - 1) = (2 :: rat) powi (bitlen p)" by (simp flip: power_int_add)
    finally show False using bitlen_rat(2)[OF p] xq by simp
  qed
  have low: "2 powi (?k - 1) \<le> x"
  proof (rule ccontr)
    assume "\<not> 2 powi (?k - 1) \<le> x"
    then have "x * of_int q \<le> 2 powi (?k - 1) * 2 powi (bitlen q)" "x * of_int q \<noteq> 2 powi (?k - 1) * 2 powi (bitlen q)"
      using bitlen_rat(2)[OF q] assms q mult_strict_mono[of x "2 powi (?k - 1)" "of_int q" "2 powi (bitlen q)"] by auto
    moreover have "2 powi (?k - 1) * 2 powi (bitlen q) = (2 :: rat) powi (bitlen p - 1)" by (simp flip: power_int_add add: algebra_simps)
    ultimately show False using bitlen_rat(1)[OF p] xq by simp
  qed
  show "2 powi (floor_log2 x) \<le> x" "x < 2 powi (floor_log2 x + 1)"
    using up low by (simp_all add: floor_log2_def pq Let_def)
qed

lemma half_even_int: "half_even (of_int n) = n"
  by (simp add: half_even_def)

lemma ulp_divides:
  assumes "x = of_int n * 2 powi k" "n \<noteq> 0" "\<bar>n\<bar> \<le> 2 ^ 53" "-1074 \<le> k"
  shows "\<exists>m. x / ulp_of x = of_int m"
proof -
  let ?e = "floor_log2 \<bar>x\<bar>"
  have pos: "0 < \<bar>x\<bar>" using assms(1,2) by simp
  have ax: "\<bar>x\<bar> = of_int \<bar>n\<bar> * 2 powi k" using assms(1) by (simp add: abs_mult)
  have "(of_int \<bar>n\<bar> :: rat) \<le> of_int (2 ^ 53)" using assms(3) by (simp only: of_int_le_iff)
  then have "\<bar>x\<bar> \<le> 2 ^ 53 * 2 powi k" unfolding ax by (intro mult_right_mono) simp_all
  also have "2 ^ 53 * 2 powi k = (2 :: rat) powi (53 + k)" by (simp add: power_int_add)
  finally have top: "\<bar>x\<bar> \<le> 2 powi (53 + k)" .
  then have e: "?e \<le> 53 + k" using floor_log2_bounds(1)[OF pos] powi_le_iff[of ?e "53 + k"] by linarith
  show ?thesis
  proof (cases "?e = 53 + k")
    case True
    then have "\<bar>x\<bar> = 2 powi (53 + k)" using floor_log2_bounds(1)[OF pos] top by simp
    moreover have "ulp_of x = 2 powi (k + 1)" using True assms(4) by (simp add: ulp_of_def max_def add.commute)
    ultimately have "\<bar>x / ulp_of x\<bar> = 2 powi (53 + k) / 2 powi (k + 1)" by simp
    also have "\<dots> = 2 powi 52" by (simp flip: power_int_diff)
    finally have "\<bar>x / ulp_of x\<bar> = of_int (2 ^ 52)" by simp
    then have "x / ulp_of x = of_int (2 ^ 52) \<or> x / ulp_of x = of_int (- (2 ^ 52))" by (simp only: abs_if of_int_minus split: if_splits) auto
    then show ?thesis by blast
  next
    case False
    obtain j where j: "j = max (-1074) (?e - 52)" "j \<le> k" using e False assms(4) by simp
    have "x / ulp_of x = of_int n * 2 powi k / 2 powi j" unfolding ulp_of_def j(1)[symmetric] using assms(1) by simp
    also have "\<dots> = of_int (n * 2 ^ nat (k - j))" unfolding powi_ge[OF j(2)] by simp
    finally have "x / ulp_of x = of_int (n * 2 ^ nat (k - j))" .
    then show ?thesis by blast
  qed
qed

lemma double_of_exact:
  assumes "x = of_int n * 2 powi k" "\<bar>n\<bar> \<le> 2 ^ 53" "-1074 \<le> k" "\<bar>x\<bar> < 2 ^ 1024"
  shows "double_of x = Fin x"
proof (cases "n = 0")
  case False
  then obtain m where m: "x / ulp_of x = of_int m" using ulp_divides assms(1-3) by blast
  have "ulp_of x \<noteq> 0" by (simp add: ulp_of_def)
  then have "of_int (half_even (x / ulp_of x)) * ulp_of x = x" unfolding m half_even_int using m by (simp add: field_simps)
  moreover have "x \<noteq> 0" using False assms(1) by simp
  ultimately show ?thesis using assms(4) by (simp add: double_of_def Let_def)
qed (simp add: assms(1) double_of_def)

end
