(* ===== verification/BoardClaims.thy ===== *)
theory BoardClaims
  imports Boards "HOL-Library.Code_Target_Numeral"
begin

text \<open>What a drop on a board (\<open>packages/ui/src/views/resource/board-ordering.ts\<close>) asks for.\<close>

lemma midpoint_exact:
  assumes "p = of_int a * 2 powi k" "f = of_int b * 2 powi k" "\<bar>a\<bar> \<le> 2 ^ 52" "\<bar>b\<bar> \<le> 2 ^ 52" "-1073 \<le> k" "k \<le> 900"
  shows "js_add (js_half (Fin p)) (js_half (Fin f)) = Fin ((p + f) / 2)"
proof -
  have small: "\<bar>of_int n * 2 powi (k - 1)\<bar> < (2 :: rat) ^ 1024" if "\<bar>n\<bar> \<le> 2 ^ 53" for n :: int
  proof -
    have "(of_int \<bar>n\<bar> :: rat) \<le> of_int (2 ^ 53)" using that by (simp only: of_int_le_iff)
    then have "\<bar>of_int n * 2 powi (k - 1)\<bar> \<le> 2 powi 53 * (2 :: rat) powi (k - 1)"
      by (simp add: abs_mult)
    also have "2 powi 53 * (2 :: rat) powi (k - 1) = 2 powi (53 + (k - 1))" by (rule power_int_add[symmetric]) simp
    also have "\<dots> < 2 powi 1024" using assms(6) by (intro power_int_strict_increasing) auto
    finally show ?thesis by simp
  qed
  have k1: "(2 :: rat) powi k = 2 * 2 powi (k - 1)" by (simp add: power_int_diff)
  have half: "double_of (x / 2) = Fin (x / 2)" if "x = of_int n * 2 powi k" "\<bar>n\<bar> \<le> 2 ^ 52" for x n
  proof -
    have "x / 2 = of_int n * 2 powi (k - 1)" unfolding that(1) k1 by simp
    with that(2) assms(5) small[of n] show ?thesis by (intro double_of_exact[of _ n "k - 1"]) simp_all
  qed
  have "(p + f) / 2 = of_int (a + b) * 2 powi (k - 1)" unfolding assms(1,2) k1 by (simp add: algebra_simps)
  moreover have "\<bar>a + b\<bar> \<le> 2 ^ 53" using assms(3,4) by (simp add: abs_le_iff)
  ultimately have "double_of ((p + f) / 2) = Fin ((p + f) / 2)"
    using assms(5) small[of "a + b"] by (intro double_of_exact[of _ "a + b" "k - 1"]) simp_all
  then show ?thesis by (simp add: half[OF assms(1,3)] half[OF assms(2,4)] add_divide_distrib)
qed

text \<open>
  C28: between two ranks that share a grid of 52 bits (multiples of a power of two, at most two to
  the 52 times it), the proposed rank is computed without rounding and lies strictly between them.
\<close>

theorem rank_strictly_between:
  assumes "p = of_int a * 2 powi k" "f = of_int b * 2 powi k" "\<bar>a\<bar> \<le> 2 ^ 52" "\<bar>b\<bar> \<le> 2 ^ 52" "-1073 \<le> k" "k \<le> 900" "p < f"
  shows "\<exists>r. fractionalRankBetween (Some (Fin p)) (Some (Fin f)) = Fin r \<and> p < r \<and> r < f \<and> r - p = f - r"
  using midpoint_exact[OF assms(1-6)] assms(7)
  by (intro exI[of _ "(p + f) / 2"]) (simp add: fractionalRankBetween_def is_finite_def Let_def field_simps)

theorem rank_strictly_between_witness:
  "case fractionalRankBetween (Some (Fin 1024)) (Some (Fin (2049 / 2))) of Fin r \<Rightarrow> 1024 < r \<and> r < 2049 / 2 | _ \<Rightarrow> False"
proof -
  have "\<exists>r. fractionalRankBetween (Some (Fin 1024)) (Some (Fin (2049 / 2))) = Fin r \<and> 1024 < r \<and> r < 2049 / 2 \<and> r - 1024 = 2049 / 2 - r"
    by (rule rank_strictly_between[of _ 2048 "-1" _ 2049]) simp_all
  then show ?thesis by auto
qed

section \<open>Neighbour intents\<close>

definition drop_order :: "string \<Rightarrow> board_target \<Rightarrow> board_row list \<Rightarrow> string list" where
  "drop_order active target rows =
     (let remaining = map br_id (remaining_rows active rows); k = insert_index active target rows
      in take k remaining @ active # drop k remaining)"

lemma sameOrder_eq: "sameOrder left right \<longleftrightarrow> left = right"
  by (auto simp: sameOrder_def list_eq_iff_zip_eq list_all_iff)

lemma public_ids_of:
  "list_all (\<lambda>row. rowPublicId (Some (br_original row)) None = Some (br_id row) \<and> br_id row \<noteq> []) rows \<Longrightarrow> public_ids rows = map br_id rows"
  by (induction rows) (simp_all add: public_ids_def List.map_filter_simps truthy_string_def)

lemma insert_index_le: "insert_index active target rows \<le> length (remaining_rows active rows)"
  by (auto simp: insert_index_def Let_def)

lemma filter_removed: "filter (\<lambda>i. i \<noteq> active) (map br_id (remaining_rows active rows)) = map br_id (remaining_rows active rows)"
  by (auto simp: filter_id_conv remaining_rows_def)

lemma drop_order_rest: "filter (\<lambda>i. i \<noteq> active) (drop_order active target rows) = filter (\<lambda>i. i \<noteq> active) (map br_id rows)"
proof -
  let ?r = "map br_id (remaining_rows active rows)" and ?k = "insert_index active target rows"
  have "filter (\<lambda>i. i \<noteq> active) (drop_order active target rows) = filter (\<lambda>i. i \<noteq> active) (take ?k ?r @ drop ?k ?r)"
    by (simp add: drop_order_def Let_def del: append_take_drop_id)
  also have "\<dots> = ?r" by (simp only: append_take_drop_id filter_removed)
  also have "?r = filter (\<lambda>i. i \<noteq> active) (map br_id rows)" by (simp add: remaining_rows_def filter_map comp_def)
  finally show ?thesis .
qed

lemma findIndex_first: "findIndex P xs = int n \<Longrightarrow> n < length xs \<and> P (xs ! n) \<and> (\<forall>j<n. \<not> P (xs ! j))"
proof (induction xs arbitrary: n)
  case (Cons x xs)
  show ?case
  proof (cases "P x")
    case True
    then show ?thesis using Cons.prems by simp
  next
    case False
    then obtain m where m: "n = Suc m" "findIndex P xs = int m"
      using Cons.prems by (cases n) (auto simp: Let_def split: if_splits)
    show ?thesis using Cons.IH[OF m(2)] False by (auto simp: m(1) less_Suc_eq_0_disj)
  qed
qed simp

lemma remaining_length:
  assumes "distinct (map br_id rows)"
  shows "length rows \<le> Suc (length (remaining_rows active rows))"
proof -
  have "distinct (map br_id (filter (\<lambda>row. br_id row = active) rows))" using assms by (rule distinct_map_filter)
  then have "length (filter (\<lambda>row. br_id row = active) rows) = card (set (map br_id (filter (\<lambda>row. br_id row = active) rows)))"
    using distinct_card by fastforce
  also have "\<dots> \<le> card {active}" by (intro card_mono) auto
  finally have "length (filter (\<lambda>row. br_id row = active) rows) \<le> 1" by simp
  then show ?thesis using sum_length_filter_compl[of "\<lambda>row. br_id row = active" rows] by (simp add: remaining_rows_def)
qed

lemma drop_order_over:
  assumes "distinct (map br_id rows)" "truthy_string (bt_rowId target) = Some t" "i < length rows" "br_id (rows ! i) = t"
  shows "drop_order active target rows ! i = active"
proof -
  have first: "findIndex (\<lambda>row. br_id row = t) rows = int i"
  proof -
    have "\<not> findIndex (\<lambda>row. br_id row = t) rows < 0" using findIndex_none[of "\<lambda>row. br_id row = t" rows] assms(3,4) nth_mem by blast
    then obtain n where n: "findIndex (\<lambda>row. br_id row = t) rows = int n" by (metis nonneg_int_cases not_le)
    from findIndex_first[OF n] have "n < length rows" "map br_id rows ! n = map br_id rows ! i" using assms(3,4) by simp_all
    then have "n = i" using assms(1,3) by (simp only: nth_eq_iff_index_eq length_map)
    with n show ?thesis by simp
  qed
  have "i \<le> length (remaining_rows active rows)" using remaining_length[OF assms(1), of active] assms(3) by simp
  then have "insert_index active target rows = i" by (simp add: insert_index_def Let_def assms(2) first)
  with \<open>i \<le> length (remaining_rows active rows)\<close> show ?thesis by (simp add: drop_order_def Let_def nth_append)
qed


definition sample_lane :: row_group where
  "sample_lane = \<lparr>rg_key = ''todo'', rg_rows = map (\<lambda>i. \<lparr>br_id = i, br_original = [(''id'', Str i)]\<rparr>) [''a'', ''b'', ''c'']\<rparr>"

definition sample_move :: "board_move option" where
  "sample_move = boardMoveForDrop ''a'' ''todo'' \<lparr>bt_laneId = ''todo'', bt_rowId = Some ''b''\<rparr> [sample_lane] (Some ''rank'') (Some ''order'') (\<lambda>_. None)"


end
