(* ===== verification/KeyedCollections.thy ===== *)
theory KeyedCollections
  imports Layers "HOL-Library.Code_Target_Numeral"
begin

text \<open>
  Keyed collections of a form, \<open>packages/ui/src/views/form/keyed-collection.ts\<close>: a keyed document is
  edited as a list of entries with a stable client identity, and turned back into a document when
  it is saved. A clone of a value is the value; the client key of a new entry is minted by the host.
\<close>

section \<open>Definitions\<close>

record 'v keyed_entry =
  ke_clientId :: string
  ke_key :: string
  ke_value :: 'v

record 'v keyed_snapshot =
  ks_values :: "'v table"
  ks_keyByClientId :: "(string \<times> string) list"
  ks_clientIdByKey :: "(string \<times> string) list"

record validation_errors =
  ve_fieldErrors :: "string list table"
  ve_formErrors :: "string list"

datatype 'd submit_result = SubmitOk 'd | SubmitInvalid validation_errors

definition invalidFormSubmit :: "validation_errors \<Rightarrow> 'd submit_result" where
  "invalidFormSubmit issues = SubmitInvalid issues"

definition keyedCollectionFromRecord :: "'v table \<Rightarrow> 'v keyed_entry list" where
  "keyedCollectionFromRecord vals = map (\<lambda>(k, v). \<lparr>ke_clientId = k, ke_key = k, ke_value = v\<rparr>) vals"

definition createKeyedEntry :: "(string \<Rightarrow> string) \<Rightarrow> 'v \<Rightarrow> string \<Rightarrow> 'v keyed_entry" where
  "createKeyedEntry createClientKey v k = \<lparr>ke_clientId = createClientKey ''entry'', ke_key = k, ke_value = v\<rparr>"

record keyed_scan =
  sc_keyByClientId :: "(string \<times> string) list"
  sc_clientIdByKey :: "(string \<times> string) list"
  sc_issues :: "(string \<times> string list) list"

definition scan_entry :: "keyed_scan \<Rightarrow> 'v keyed_entry \<Rightarrow> keyed_scan" where
  "scan_entry s e =
     (let message = ''Duplicate collection key: '' @ ke_key e;
          issues = (case map_of (sc_clientIdByKey s) (ke_key e) of
                      Some previous \<Rightarrow> map_put (ke_clientId e) [message] (map_put previous [message] (sc_issues s))
                    | None \<Rightarrow> sc_issues s);
          issues' = (if map_of (sc_keyByClientId s) (ke_clientId e) \<noteq> None
                     then map_put (ke_clientId e) [''Duplicate collection identity''] issues else issues)
      in \<lparr>sc_keyByClientId = map_put (ke_clientId e) (ke_key e) (sc_keyByClientId s),
          sc_clientIdByKey = map_put (ke_key e) (ke_clientId e) (sc_clientIdByKey s), sc_issues = issues'\<rparr>)"

definition scan_entries :: "'v keyed_entry list \<Rightarrow> keyed_scan" where
  "scan_entries entries = foldl scan_entry \<lparr>sc_keyByClientId = [], sc_clientIdByKey = [], sc_issues = []\<rparr> entries"

definition keyedCollectionToRecord :: "'v keyed_entry list \<Rightarrow> 'v keyed_snapshot submit_result" where
  "keyedCollectionToRecord entries =
     (let s = scan_entries entries
      in if sc_issues s \<noteq> []
         then invalidFormSubmit \<lparr>ve_fieldErrors = obj_of (sc_issues s), ve_formErrors = []\<rparr>
         else SubmitOk \<lparr>ks_values = obj_of (map (\<lambda>e. (ke_key e, ke_value e)) entries),
                        ks_keyByClientId = sc_keyByClientId s, ks_clientIdByKey = sc_clientIdByKey s\<rparr>)"

section \<open>The scan\<close>

text \<open>The client ids of the entries that share their key or their identity with another entry.\<close>

definition conflicts :: "'v keyed_entry list \<Rightarrow> string set" where
  "conflicts entries = {c. \<exists>i j. i < length entries \<and> j < length entries \<and> i \<noteq> j \<and> ke_clientId (entries ! i) = c \<and>
     (ke_key (entries ! i) = ke_key (entries ! j) \<or> ke_clientId (entries ! i) = ke_clientId (entries ! j))}"

lemma scan_snoc: "scan_entries (es @ [e]) = scan_entry (scan_entries es) e"
  by (simp add: scan_entries_def)

lemma map_put_append: "k \<notin> map_keys m \<Longrightarrow> map_put k v m = m @ [(k, v)]"
  by (induction m) (auto simp: map_keys_def)

lemma map_keys_of: "map_keys m = set (map fst m)"
  by (simp add: map_keys_def)

lemma scan_maps:
  "map_keys (sc_keyByClientId (scan_entries es)) = ke_clientId ` set es \<and>
   (\<forall>k c. map_of (sc_clientIdByKey (scan_entries es)) k = Some c \<longrightarrow> (\<exists>e \<in> set es. ke_key e = k \<and> ke_clientId e = c)) \<and>
   map_keys (sc_clientIdByKey (scan_entries es)) = ke_key ` set es"
proof (induction es rule: rev_induct)
  case (snoc e es)
  then show ?case by (auto simp: scan_snoc scan_entry_def Let_def)
qed (simp add: scan_entries_def)

lemma scan_distinct:
  "distinct (map ke_key es) \<Longrightarrow> distinct (map ke_clientId es) \<Longrightarrow>
   scan_entries es = \<lparr>sc_keyByClientId = map (\<lambda>e. (ke_clientId e, ke_key e)) es,
     sc_clientIdByKey = map (\<lambda>e. (ke_key e, ke_clientId e)) es, sc_issues = []\<rparr>"
proof (induction es rule: rev_induct)
  case (snoc e es)
  have ih: "scan_entries es = \<lparr>sc_keyByClientId = map (\<lambda>e. (ke_clientId e, ke_key e)) es,
     sc_clientIdByKey = map (\<lambda>e. (ke_key e, ke_clientId e)) es, sc_issues = []\<rparr>"
    using snoc by simp
  have fresh: "ke_key e \<notin> map_keys (map (\<lambda>e. (ke_key e, ke_clientId e)) es)"
      "ke_clientId e \<notin> map_keys (map (\<lambda>e. (ke_clientId e, ke_key e)) es)"
    using snoc.prems by (auto simp: map_keys_def)
  then have none: "map_of (map (\<lambda>e. (ke_key e, ke_clientId e)) es) (ke_key e) = None"
      "map_of (map (\<lambda>e. (ke_clientId e, ke_key e)) es) (ke_clientId e) = None"
    unfolding map_of_None_keys .
  show ?case
    by (simp only: scan_snoc ih) (simp add: scan_entry_def Let_def none map_put_append[OF fresh(1)] map_put_append[OF fresh(2)])
qed (simp add: scan_entries_def)

lemma conflicts_snoc:
  "conflicts (es @ [e]) = conflicts es \<union>
     {c. \<exists>f \<in> set es. (ke_key f = ke_key e \<or> ke_clientId f = ke_clientId e) \<and> (c = ke_clientId f \<or> c = ke_clientId e)}"
proof (intro equalityI subsetI)
  fix c assume "c \<in> conflicts (es @ [e])"
  then obtain i j where ij: "i < Suc (length es)" "j < Suc (length es)" "i \<noteq> j" "ke_clientId ((es @ [e]) ! i) = c"
      "ke_key ((es @ [e]) ! i) = ke_key ((es @ [e]) ! j) \<or> ke_clientId ((es @ [e]) ! i) = ke_clientId ((es @ [e]) ! j)"
    by (auto simp: conflicts_def)
  consider "i < length es" "j < length es" | "i = length es" "j < length es" | "j = length es" "i < length es"
    using ij(1-3) by linarith
  then show "c \<in> conflicts es \<union>
     {c. \<exists>f \<in> set es. (ke_key f = ke_key e \<or> ke_clientId f = ke_clientId e) \<and> (c = ke_clientId f \<or> c = ke_clientId e)}"
  proof cases
    case 1
    then have "c \<in> conflicts es" using ij(3-5) unfolding conflicts_def by (auto simp: nth_append)
    then show ?thesis by blast
  next
    case 2
    then have "(ke_key (es ! j) = ke_key e \<or> ke_clientId (es ! j) = ke_clientId e) \<and> c = ke_clientId e"
      using ij(4,5) by (auto simp: nth_append)
    then show ?thesis using nth_mem[OF 2(2)] by blast
  next
    case 3
    then have "(ke_key (es ! i) = ke_key e \<or> ke_clientId (es ! i) = ke_clientId e) \<and> c = ke_clientId (es ! i)"
      using ij(4,5) by (auto simp: nth_append)
    then show ?thesis using nth_mem[OF 3(2)] by blast
  qed
next
  fix c assume "c \<in> conflicts es \<union>
     {c. \<exists>f \<in> set es. (ke_key f = ke_key e \<or> ke_clientId f = ke_clientId e) \<and> (c = ke_clientId f \<or> c = ke_clientId e)}"
  then consider "c \<in> conflicts es" | i where "i < length es" "ke_key (es ! i) = ke_key e \<or> ke_clientId (es ! i) = ke_clientId e"
      "c = ke_clientId (es ! i) \<or> c = ke_clientId e"
    by (auto simp: in_set_conv_nth)
  then show "c \<in> conflicts (es @ [e])"
  proof cases
    case 1
    then obtain i j where "i < length es" "j < length es" "i \<noteq> j" "ke_clientId (es ! i) = c"
        "ke_key (es ! i) = ke_key (es ! j) \<or> ke_clientId (es ! i) = ke_clientId (es ! j)"
      by (auto simp: conflicts_def)
    then show ?thesis unfolding conflicts_def by (intro CollectI exI[of _ i] exI[of _ j]) (simp add: nth_append)
  next
    case 2
    have "ke_clientId (es ! i) \<in> conflicts (es @ [e])"
      using 2(1,2) unfolding conflicts_def by (intro CollectI exI[of _ i] exI[of _ "length es"]) (auto simp: nth_append)
    moreover have "ke_clientId e \<in> conflicts (es @ [e])"
      using 2(1,2) unfolding conflicts_def by (intro CollectI exI[of _ "length es"] exI[of _ i]) (auto simp: nth_append)
    ultimately show ?thesis using 2(3) by blast
  qed
qed

lemma same_key_conflict:
  assumes "f \<in> set es" "q \<in> set es" "ke_key f = ke_key q" "ke_clientId f \<noteq> ke_clientId q"
  shows "ke_clientId f \<in> conflicts es"
proof -
  obtain i j where "i < length es" "es ! i = f" "j < length es" "es ! j = q" using assms(1,2) by (auto simp: in_set_conv_nth)
  then show ?thesis using assms(3,4) unfolding conflicts_def by (intro CollectI exI[of _ i] exI[of _ j]) auto
qed

lemma scan_entry_issues:
  "map_keys (sc_issues (scan_entry s e)) = map_keys (sc_issues s) \<union>
     (case map_of (sc_clientIdByKey s) (ke_key e) of Some p \<Rightarrow> {ke_clientId e, p} | None \<Rightarrow> {}) \<union>
     (if ke_clientId e \<in> map_keys (sc_keyByClientId s) then {ke_clientId e} else {})"
  using map_of_None_keys[of "sc_keyByClientId s" "ke_clientId e"]
  by (auto simp: scan_entry_def Let_def split: option.splits)

lemma scan_issues: "map_keys (sc_issues (scan_entries es)) = conflicts es"
proof (induction es rule: rev_induct)
  case (snoc e es)
  note maps = scan_maps[of es]
  let ?m = "sc_clientIdByKey (scan_entries es)"
  have ids: "map_keys (sc_keyByClientId (scan_entries es)) = ke_clientId ` set es" using maps by blast
  show ?case
  proof (cases "map_of ?m (ke_key e)")
    case None
    then have "ke_key e \<notin> ke_key ` set es" using maps map_of_None_keys[of ?m "ke_key e"] by simp
    then have "ke_key f \<noteq> ke_key e" if "f \<in> set es" for f using that by (metis imageI)
    then have "{c. \<exists>f \<in> set es. (ke_key f = ke_key e \<or> ke_clientId f = ke_clientId e) \<and> (c = ke_clientId f \<or> c = ke_clientId e)} =
        (if ke_clientId e \<in> ke_clientId ` set es then {ke_clientId e} else {})" by (auto simp: image_iff)
    then show ?thesis unfolding scan_snoc scan_entry_issues conflicts_snoc snoc ids None option.case by blast
  next
    case (Some p)
    then obtain q where q: "q \<in> set es" "ke_key q = ke_key e" "ke_clientId q = p" using maps by blast
    have "ke_clientId f \<in> conflicts es \<union> {p}" if "f \<in> set es" "ke_key f = ke_key e" for f
      using same_key_conflict[OF that(1) q(1)] that(2) q(2,3) by auto
    then show ?thesis unfolding scan_snoc scan_entry_issues conflicts_snoc snoc ids Some option.case using q by auto
  qed
qed (simp add: scan_entries_def conflicts_def)

lemma conflicts_empty: "conflicts es = {} \<longleftrightarrow> distinct (map ke_key es) \<and> distinct (map ke_clientId es)"
proof (induction es rule: rev_induct)
  case (snoc e es)
  have "conflicts (es @ [e]) = {} \<longleftrightarrow> conflicts es = {} \<and> (\<forall>f \<in> set es. ke_key f \<noteq> ke_key e \<and> ke_clientId f \<noteq> ke_clientId e)"
    unfolding conflicts_snoc by blast
  also have "\<dots> \<longleftrightarrow> distinct (map ke_key (es @ [e])) \<and> distinct (map ke_clientId (es @ [e]))"
    unfolding snoc.IH by (auto simp: image_iff)
  finally show ?case .
qed (simp add: conflicts_def)

section \<open>Saving\<close>

text \<open>
  C30: a keyed collection saves exactly when its keys and its identities are distinct, and then to the
  record of its keys and values with both identity maps; otherwise the issues name exactly the
  client ids of the entries that share a key or an identity with another.
\<close>

theorem keyedCollectionToRecord_result:
  "case keyedCollectionToRecord entries of
     SubmitOk s \<Rightarrow> distinct (map ke_key entries) \<and> distinct (map ke_clientId entries) \<and>
       map_of (ks_values s) = map_of (map (\<lambda>e. (ke_key e, ke_value e)) entries) \<and>
       ks_keyByClientId s = map (\<lambda>e. (ke_clientId e, ke_key e)) entries \<and>
       ks_clientIdByKey s = map (\<lambda>e. (ke_key e, ke_clientId e)) entries
   | SubmitInvalid v \<Rightarrow> conflicts entries \<noteq> {} \<and> set (keys (ve_fieldErrors v)) = conflicts entries"
proof (cases "sc_issues (scan_entries entries) = []")
  case True
  then have "conflicts entries = {}" using scan_issues[of entries] by simp
  then have d: "distinct (map ke_key entries)" "distinct (map ke_clientId entries)" using conflicts_empty by blast+
  moreover have "map_of (obj_of (map (\<lambda>e. (ke_key e, ke_value e)) entries)) = map_of (map (\<lambda>e. (ke_key e, ke_value e)) entries)"
    using d(1) by (intro map_of_obj_of) (simp add: comp_def)
  ultimately show ?thesis using True by (simp add: keyedCollectionToRecord_def Let_def scan_distinct[OF d])
next
  case False
  have "conflicts entries \<noteq> {}"
    unfolding scan_issues[symmetric] map_keys_def using False by (metis image_is_empty set_empty)
  moreover have "set (keys (obj_of (sc_issues (scan_entries entries)))) = conflicts entries"
    unfolding keys_obj_of using scan_issues[of entries] by (simp add: map_keys_def)
  ultimately show ?thesis using False by (simp add: keyedCollectionToRecord_def Let_def invalidFormSubmit_def)
qed

lemma keyed_roundtrip:
  assumes "table_ok vals"
  shows "\<exists>s. keyedCollectionToRecord (keyedCollectionFromRecord vals) = SubmitOk s \<and> ks_values s = vals"
proof -
  let ?entries = "keyedCollectionFromRecord vals"
  have m: "map ke_key ?entries = keys vals" "map ke_clientId ?entries = keys vals" "map (\<lambda>e. (ke_key e, ke_value e)) ?entries = vals"
    by (simp_all add: keyedCollectionFromRecord_def comp_def case_prod_beta)
  have d: "distinct (map ke_key ?entries)" "distinct (map ke_clientId ?entries)" using assms by (simp_all only: m table_ok_def)
  show ?thesis by (simp add: keyedCollectionToRecord_def Let_def scan_distinct[OF d] m(3) obj_of_id[OF assms])
qed

end
