(* ===== verification/ResourceFields.thy ===== *)
theory ResourceFields
  imports Queries Layers
begin

text \<open>
  Names and field facts of the schema metadata, \<open>packages/metadata/src\<close>: identifier spellings
  (\<open>naming.ts\<close>), the resolution of an authored model spelling to the emitted label
  (\<open>canonical-model-label.ts\<close>), and the widget, filter type and permissions of a field
  (\<open>fields.ts\<close>). A resource and a field are reduced to the facts these functions read.
\<close>

section \<open>Identifiers\<close>

definition upper_ascii :: "char \<Rightarrow> bool" where
  "upper_ascii c \<longleftrightarrow> 65 \<le> (of_char c :: nat) \<and> (of_char c :: nat) \<le> 90"

definition lower_or_digit :: "char \<Rightarrow> bool" where
  "lower_or_digit c \<longleftrightarrow> digit_char c \<or> (97 \<le> (of_char c :: nat) \<and> (of_char c :: nat) \<le> 122)"

fun split_words :: "string \<Rightarrow> string" where
  "split_words (a # b # s) =
     (if lower_or_digit a \<and> upper_ascii b then a # CHR ''_'' # b # split_words s else a # split_words (b # s))"
| "split_words s = s"

definition snakeCaseIdentifier :: "string \<Rightarrow> string" where
  "snakeCaseIdentifier value = toLowerCase (split_words (map (\<lambda>c. if c = CHR ''-'' then CHR ''_'' else c) value))"

fun restore_separators :: "string \<Rightarrow> string" where
  "restore_separators (a # b # s) =
     (if a = CHR ''_'' \<and> upper_ascii b then ''__'' @ b # restore_separators s else a # restore_separators (b # s))"
| "restore_separators s = s"

definition resourceFieldPathToSnake :: "string \<Rightarrow> string" where
  "resourceFieldPathToSnake value = snakeCaseIdentifier (restore_separators value)"

definition modelLabelSegment :: "string \<Rightarrow> string" where
  "modelLabelSegment modelLabel = last (js_split (CHR ''.'') modelLabel)"

section \<open>Resources\<close>

record enum_choice =
  ev_value :: string
  ev_description :: "string option"

record model_field =
  mf_name :: string
  mf_kind :: field_kind
  mf_scalar :: "string option"
  mf_values :: "enum_choice list option"
  mf_widget :: "string option"
  mf_currencyField :: "string option"
  mf_statusDisplay :: "string option"
  mf_readable :: "bool option"
  mf_aggregatable :: "bool option"
  mf_creatable :: "bool option"
  mf_updatable :: "bool option"
  mf_requiredOnCreate :: "bool option"
  mf_nullable :: "bool option"
  mf_trashable :: "bool option"
  mf_relationModelLabel :: "string option"
  mf_relationObject :: "bool option"

record data_resource =
  dr_modelLabel :: string
  dr_modelName :: string
  dr_updateRoot :: "string option"
  dr_updateFields :: "string list option"
  dr_fields :: "model_field list option"
  dr_query :: resource_query

record model_metadata =
  md_resource :: data_resource
  md_fields :: "model_field table"

section \<open>Model labels\<close>

definition mergeModelLabelInventory :: "data_resource list option list \<Rightarrow> data_resource list" where
  "mergeModelLabelInventory metadatas = concat (map (\<lambda>resources. or_else resources []) metadatas)"

definition spells :: "string \<Rightarrow> data_resource \<Rightarrow> bool" where
  "spells spelling resource \<longleftrightarrow>
     (let segment = modelLabelSegment (dr_modelLabel resource)
      in spelling = toLowerCase (dr_modelLabel resource) \<or> spelling = segment \<or> spelling = toLowerCase segment \<or>
         spelling = dr_modelName resource)"

definition sort_strings :: "string list \<Rightarrow> string list" where
  "sort_strings xs = js_sort (\<lambda>left right. if left < right then -1 else if left > right then 1 else 0) xs"

definition canonicalModelLabel :: "data_resource list \<Rightarrow> string \<Rightarrow> string result" where
  "canonicalModelLabel resources spelling =
     (if resources = []
      then Inl (JsError (''Cannot resolve model spelling \"'' @ spelling @ ''\": schema metadata exposes no resources.''))
      else case find (\<lambda>r. dr_modelLabel r = spelling) resources of
        Some exact \<Rightarrow> Inr (dr_modelLabel exact)
      | None \<Rightarrow>
          (case distinct_first (map dr_modelLabel (filter (spells spelling) resources)) of
             [label] \<Rightarrow> Inr label
           | [] \<Rightarrow> Inl (JsError (''Unknown model spelling \"'' @ spelling @ ''\"; declare a model exposed in schema metadata.''))
           | candidates \<Rightarrow> Inl (JsError (''Model spelling \"'' @ spelling @ ''\" is ambiguous; it matches '' @
               js_join '', '' (map (\<lambda>l. ''\"'' @ l @ ''\"'') (sort_strings candidates)) @ ''. Use a qualified model label.''))))"

text \<open>The warning of the development mode is console output.\<close>

definition canonicalModelLabelOrNull :: "data_resource list \<Rightarrow> string \<Rightarrow> string option" where
  "canonicalModelLabelOrNull resources spelling =
     (if spelling = [] then None else case canonicalModelLabel resources spelling of Inr l \<Rightarrow> Some l | Inl _ \<Rightarrow> None)"

section \<open>Fields\<close>

definition relationModelLabelForField :: "model_field \<Rightarrow> model_metadata option \<Rightarrow> string option" where
  "relationModelLabelForField field model =
     (case mf_relationModelLabel field of
        Some l \<Rightarrow> Some l
      | None \<Rightarrow> Option.bind model (\<lambda>m. Option.bind (map_of (rq_fields (dr_query (md_resource m))) (mf_name field)) (\<lambda>f.
                  map_option rel_model (qf_relation f))))"

definition isScalarIdRelation :: "model_field \<Rightarrow> model_metadata option \<Rightarrow> bool" where
  "isScalarIdRelation field model \<longleftrightarrow>
     mf_kind field = KRelation \<and> mf_relationObject field = Some False \<and> relationModelLabelForField field model \<noteq> None"

definition isToOneRelationField :: "model_field option \<Rightarrow> bool" where
  "isToOneRelationField field \<longleftrightarrow> map_option mf_kind field = Some KRelation"

definition SCALAR_WIDGET :: "string table" where
  "SCALAR_WIDGET = [(''Boolean'', ''switch''), (''Int'', ''integer''), (''Float'', ''float''), (''Decimal'', ''float''),
     (''DateTime'', ''datetime''), (''Date'', ''date''), (''JSON'', ''json'')]"

definition defaultWidgetForModelField :: "model_field option \<Rightarrow> model_metadata option \<Rightarrow> string option" where
  "defaultWidgetForModelField field model =
     Option.bind field (\<lambda>f.
       if truthy_string (mf_statusDisplay f) \<noteq> None then Some ''statusBadge''
       else if truthy_string (mf_widget f) \<noteq> None then mf_widget f
       else if mf_kind f = KEnum then Some ''select''
       else if mf_kind f = KRelation then Some ''many2one''
       else if mf_kind f = KList then Some (if truthy_string (relationModelLabelForField f model) \<noteq> None then ''many2many'' else ''tagInput'')
       else Option.bind (truthy_string (mf_scalar f)) (map_of SCALAR_WIDGET))"

datatype filter_field_type = FtBoolean | FtDate | FtDatetime | FtNumber | FtSelection | FtText

record choice_facet_support =
  cf_hasOptions :: bool
  cf_hasTone :: bool
  cf_allowStatusFallback :: bool

definition supportsChoiceFacet :: "string \<Rightarrow> query_field option \<Rightarrow> choice_facet_support \<Rightarrow> bool" where
  "supportsChoiceFacet fieldName field support \<longleftrightarrow>
     map_option qf_kind field = Some KEnum \<or> cf_hasOptions support \<or> cf_hasTone support \<or>
     (cf_allowStatusFallback support \<and> fieldName = ''status'')"

definition looksLikeDateField :: "string \<Rightarrow> bool" where
  "looksLikeDateField fieldName \<longleftrightarrow>
     list_ex (endsWith (toLowerCase fieldName)) [''at'', ''_at'', ''date'', ''_date'', ''on'', ''_on'']"

definition isDateField :: "query_field option \<Rightarrow> string \<Rightarrow> bool" where
  "isDateField field fieldName \<longleftrightarrow>
     (case field of
        Some f \<Rightarrow> qf_kind f = KScalar \<and> (qf_scalar f = Some ''DateTime'' \<or> qf_scalar f = Some ''Date'')
      | None \<Rightarrow> looksLikeDateField fieldName)"

definition filterFieldType :: "string \<Rightarrow> query_field option \<Rightarrow> choice_facet_support \<Rightarrow> filter_field_type option" where
  "filterFieldType fieldName field support =
     (let kind = map_option qf_kind field; scalar = Option.bind field qf_scalar
      in if kind = Some KEnum then Some FtSelection
         else if kind = Some KScalar \<and> scalar = Some ''String'' then Some FtText
         else if kind = Some KScalar \<and> scalar = Some ''Boolean'' then Some FtBoolean
         else if kind = Some KScalar \<and> (scalar = Some ''Int'' \<or> scalar = Some ''Float'' \<or> scalar = Some ''Decimal'') then Some FtNumber
         else if isDateField field fieldName then Some (if scalar = Some ''Date'' then FtDate else FtDatetime)
         else if supportsChoiceFacet fieldName field support then Some FtSelection else None)"

definition fieldUpdatable :: "model_metadata option \<Rightarrow> string \<Rightarrow> bool" where
  "fieldUpdatable metadata fieldName \<longleftrightarrow>
     (case metadata of
        None \<Rightarrow> False
      | Some m \<Rightarrow>
          truthy_string (dr_updateRoot (md_resource m)) \<noteq> None \<and>
          (case dr_updateFields (md_resource m) of Some fs \<Rightarrow> fieldName \<in> set fs | None \<Rightarrow> True) \<and>
          Option.bind (map_of (md_fields m) fieldName) mf_updatable \<noteq> Some False)"

definition trashFlagField :: "data_resource option \<Rightarrow> string option" where
  "trashFlagField resource =
     Option.bind (Option.bind resource dr_fields) (\<lambda>fs. map_option mf_name (find (\<lambda>f. mf_trashable f = Some True) fs))"

definition resourceOrderFieldForPath :: "string \<Rightarrow> data_resource option \<Rightarrow> string option" where
  "resourceOrderFieldForPath path resource =
     (case resource of
        Some r \<Rightarrow> Option.bind (map_of (rq_fields (dr_query r)) path) qf_sort
      | None \<Rightarrow> Some path)"

section \<open>Resolution of spellings\<close>

text \<open>
  A spelling resolves only to a label the schema emits, and resolving the label again gives it
  back, so a label is canonical after one resolution, whatever spelling it came from.
\<close>

lemma canonicalModelLabel_emitted:
  assumes "canonicalModelLabel resources spelling = Inr label"
  shows "label \<in> dr_modelLabel ` set resources \<and> canonicalModelLabel resources label = Inr label"
proof -
  have mem: "label \<in> dr_modelLabel ` set resources"
  proof (cases "find (\<lambda>r. dr_modelLabel r = spelling) resources")
    case (Some exact)
    then show ?thesis using assms find_Some_iff[of "\<lambda>r. dr_modelLabel r = spelling" resources exact]
      by (auto simp: canonicalModelLabel_def split: if_splits)
  next
    case None
    then have "distinct_first (map dr_modelLabel (filter (spells spelling) resources)) = [label]"
      using assms by (auto simp: canonicalModelLabel_def split: if_splits list.splits)
    then have "label \<in> set (map dr_modelLabel (filter (spells spelling) resources))"
      by (metis distinct_first_set list.set_intros(1))
    then show ?thesis by auto
  qed
  then obtain r where "find (\<lambda>r. dr_modelLabel r = label) resources = Some r" "dr_modelLabel r = label"
    by (cases "find (\<lambda>r. dr_modelLabel r = label) resources") (auto simp: find_None_iff find_Some_iff)
  then show ?thesis using mem by (auto simp: canonicalModelLabel_def)
qed

text \<open>An update that \<open>fieldUpdatable\<close> allows is one the resource has a root for, on a field it does not refuse.\<close>

lemma fieldUpdatable_root: "fieldUpdatable metadata name \<Longrightarrow> \<exists>m. metadata = Some m \<and> truthy_string (dr_updateRoot (md_resource m)) \<noteq> None"
  by (auto simp: fieldUpdatable_def split: option.splits)

end
