(* ===== verification/Containers.thy ===== *)
theory Containers
  imports Filters Layers Positions
begin

text \<open>
  Containers at render time, \<open>packages/ui/src/runtime/containers.ts\<close>: the composed children and
  rules, the addresses one page merges, and the children it shows for a row and a session. The
  hooks that bind it to React and the console warning of the development mode are not modelled.

  A child is a positioned sibling with its content (an opaque value); a row is a table of
  JavaScript values.
\<close>

section \<open>Children and rules\<close>

datatype id_choice = OneId string | ManyIds "string list"

record container_condition =
  cn_app :: "id_choice option"
  cn_route :: "id_choice option"

record child_variant =
  va_of :: string
  va_impl :: string

record container_child = positioned +
  cc_owner :: string
  cc_address :: string
  cc_content :: jsval
  cc_permission :: "string option"
  cc_requires :: "string option"
  cc_requiredFields :: "string list option"
  cc_impl :: "string option"
  cc_variant :: "child_variant option"
  cc_key :: "string option"

record container_rule =
  cr_layer :: string
  cr_rank :: nat
  cr_when :: "container_condition option"
  cr_only :: "string list option"
  cr_except :: "string list option"
  cr_hide :: "string list option"
  cr_show :: "string list option"
  cr_exempt :: "string list"
  cr_force :: bool

record declared_container =
  dc_owner :: string
  dc_models :: bool
  dc_unique :: jsval
  dc_extras :: bool

record removed_child =
  rm_address :: string
  rm_id :: string
  rm_by :: string

record composed_containers =
  co_declared :: "declared_container table"
  co_children :: "container_child list table"
  co_rules :: "container_rule list table"
  co_removed :: "removed_child list"
  co_provenance :: "string table table"
  co_diagnostics :: "string list"

record container_scope =
  sc_apps :: "string list"
  sc_routes :: "string list"

definition EMPTY_CONTAINERS :: composed_containers where
  "EMPTY_CONTAINERS = \<lparr>co_declared = [], co_children = [], co_rules = [], co_removed = [], co_provenance = [], co_diagnostics = []\<rparr>"

definition EMPTY_SCOPE :: container_scope where
  "EMPTY_SCOPE = \<lparr>sc_apps = [], sc_routes = []\<rparr>"

text \<open>The fields of a child as declared, read at their declared types, and \<open>{...child, id, owner, address}\<close>.\<close>

definition number_of :: "jsval \<Rightarrow> rat option" where
  "number_of v = (case v of Num (Fin q) \<Rightarrow> Some q | _ \<Rightarrow> None)"

definition id_list :: "jsval \<Rightarrow> string list option" where
  "id_list v = (case v of Arr xs \<Rightarrow> Some (List.map_filter string_value xs) | _ \<Rightarrow> None)"

definition variant_of :: "jsval \<Rightarrow> child_variant option" where
  "variant_of v =
     (case v of
        Obj es \<Rightarrow> Some \<lparr>va_of = or_else (string_value (prop_of es ''of'')) [], va_impl = or_else (string_value (prop_of es ''impl'')) []\<rparr>
      | _ \<Rightarrow> None)"

definition child_of :: "jsval table \<Rightarrow> string \<Rightarrow> string \<Rightarrow> string \<Rightarrow> container_child" where
  "child_of fs i owner address =
     \<lparr>pos_id = i, pos_sequence = number_of (prop_of fs ''sequence''), pos_before = string_value (prop_of fs ''before''),
      pos_after = string_value (prop_of fs ''after''), cc_owner = owner, cc_address = address, cc_content = prop_of fs ''content'',
      cc_permission = string_value (prop_of fs ''permission''), cc_requires = string_value (prop_of fs ''requires''),
      cc_requiredFields = id_list (prop_of fs ''requiredFields''), cc_impl = string_value (prop_of fs ''impl''),
      cc_variant = variant_of (prop_of fs ''variant''), cc_key = string_value (prop_of fs ''key'')\<rparr>"

record core_container =
  kc_address :: string
  kc_models :: bool
  kc_children :: "jsval table table option"
  kc_extras :: bool

definition add_composed :: "container_child list table \<Rightarrow> container_child \<Rightarrow> container_child list table" where
  "add_composed composed child =
     obj_put (cc_address child) (or_else (map_of composed (cc_address child)) [] @ [child]) composed"

definition core_declared :: "core_container \<Rightarrow> declared_container" where
  "core_declared container =
     \<lparr>dc_owner = ''framework'', dc_models = kc_models container, dc_unique = Undefined, dc_extras = kc_extras container\<rparr>"

definition containersFromChildren :: "core_container list \<Rightarrow> jsval table table table \<Rightarrow> composed_containers" where
  "containersFromChildren core children =
     (let composed = foldl add_composed []
            (concat (map (\<lambda>container. map (\<lambda>(i, fs). child_of fs i ''framework'' (kc_address container)) (or_else (kc_children container) [])) core));
          composed = foldl add_composed composed
            (concat (map (\<lambda>(address, byId). map (\<lambda>(i, fs). child_of fs i (hd (js_split (CHR ''.'') i)) address) byId) children))
      in EMPTY_CONTAINERS\<lparr>co_declared := obj_of (map (\<lambda>container. (kc_address container, core_declared container)) core),
                          co_children := composed\<rparr>)"

section \<open>Addresses\<close>

text \<open>The node and the name of an address, split at its first \<open>#\<close>.\<close>

definition node_name :: "string \<Rightarrow> string \<times> string" where
  "node_name address = (takeWhile (\<lambda>c. c \<noteq> CHR ''#'') address, drop 1 (dropWhile (\<lambda>c. c \<noteq> CHR ''#'') address))"

definition containerName :: "string \<Rightarrow> string result" where
  "containerName address =
     (if fst (node_name address) = [] \<or> snd (node_name address) = []
      then Inl (JsError (''Container address \"'' @ address @ ''\" must be \"node#name\".''))
      else Inr (snd (node_name address)))"

definition modelChain :: "string option \<Rightarrow> string option \<Rightarrow> string list" where
  "modelChain canonical model = distinct_first (List.map_filter truthy_string [canonical, model])"

definition wanted_ids :: "id_choice \<Rightarrow> string list" where
  "wanted_ids wanted = (case wanted of OneId i \<Rightarrow> [i] | ManyIds is \<Rightarrow> is)"

definition any_of :: "id_choice option \<Rightarrow> string list \<Rightarrow> bool" where
  "any_of wanted present = (case wanted of None \<Rightarrow> True | Some w \<Rightarrow> list_ex (\<lambda>i. i \<in> set present) (wanted_ids w))"

definition condition_matches :: "container_condition option \<Rightarrow> container_scope \<Rightarrow> bool" where
  "condition_matches condition scope =
     (case condition of
        None \<Rightarrow> True
      | Some c \<Rightarrow> any_of (cn_app c) (sc_apps scope) \<and> any_of (cn_route c) (sc_routes scope))"

definition containerAddresses :: "composed_containers \<Rightarrow> string \<Rightarrow> string list \<Rightarrow> string list result" where
  "containerAddresses composed address models =
     (if (case map_of (co_declared composed) address of Some d \<Rightarrow> dc_models d | None \<Rightarrow> False)
      then rbind (containerName address) (\<lambda>name. Inr (address # map (\<lambda>model. model @ ''#'' @ name) models))
      else Inr [address])"

definition at_addresses :: "'v list table \<Rightarrow> string list \<Rightarrow> 'v list" where
  "at_addresses t addresses = concat (map (\<lambda>at'. or_else (map_of t at') []) addresses)"

definition composedContainerChildren :: "composed_containers \<Rightarrow> string \<Rightarrow> string list \<Rightarrow> container_child list result" where
  "composedContainerChildren composed address models =
     (if map_of (co_declared composed) address = None then Inr []
      else rbind (containerAddresses composed address models) (\<lambda>addresses.
             let byId = new_Map (map (\<lambda>child. (pos_id child, child)) (at_addresses (co_children composed) addresses))
             in Inr (orderById pos_id (map snd byId))))"

section \<open>Resolution\<close>

definition holdsPermission :: "jsval table option \<Rightarrow> string \<Rightarrow> bool" where
  "holdsPermission record' permission =
     (case record' of
        Some r \<Rightarrow> (case prop_of r ''permissions'' of Arr xs \<Rightarrow> Str permission \<in> set xs | _ \<Rightarrow> False)
      | None \<Rightarrow> False)"

definition isPresent :: "string option \<Rightarrow> string list option \<Rightarrow> bool" where
  "isPresent requires permitted =
     (case (requires, permitted) of (Some r, Some ps) \<Rightarrow> r \<in> set ps | _ \<Rightarrow> True)"

text \<open>A row that is given may be \<open>null\<close>: \<open>Some None\<close>.\<close>

record resolve_options =
  ro_models :: "string list"
  ro_scope :: container_scope
  ro_row :: "jsval table option option"
  ro_impls :: "string list"
  ro_extra :: "container_child list"
  ro_projection :: bool
  ro_permitted :: "string list option"

definition rule_order :: "nat \<times> container_rule \<Rightarrow> nat \<times> container_rule \<Rightarrow> int" where
  "rule_order left right =
     (if cr_rank (snd left) \<noteq> cr_rank (snd right) then int (cr_rank (snd left)) - int (cr_rank (snd right))
      else int (fst left) - int (fst right))"

definition active_rules :: "composed_containers \<Rightarrow> container_scope \<Rightarrow> string list \<Rightarrow> container_rule list" where
  "active_rules composed scope addresses =
     map snd (js_sort rule_order (enumerate 0
       (filter (\<lambda>rule. condition_matches (cr_when rule) scope) (at_addresses (co_rules composed) addresses))))"

definition hidden_ids :: "container_rule list \<Rightarrow> string set" where
  "hidden_ids rules =
     foldl (\<lambda>hidden rule. (hidden \<union> set (or_else (cr_hide rule) [])) - set (or_else (cr_show rule) [])) {} rules"

definition narrowing_rules :: "container_rule list \<Rightarrow> container_rule list" where
  "narrowing_rules rules =
     (case find cr_force rules of
        None \<Rightarrow> rules
      | Some forcing \<Rightarrow> filter (\<lambda>rule. cr_layer rule = cr_layer forcing) rules)"

text \<open>The sets and lookups the resolution fixes before it filters.\<close>

definition blocked_ids :: "container_rule list \<Rightarrow> container_child list \<Rightarrow> string list option \<Rightarrow> string set" where
  "blocked_ids rules merged permitted =
     hidden_ids rules
     \<union> set (concat (map (\<lambda>rule. or_else (cr_except rule) []) (narrowing_rules rules)))
     \<union> set (map pos_id (filter (\<lambda>child. \<not> isPresent (cc_requires child) permitted) merged))"

definition lineage :: "container_child \<Rightarrow> string" where
  "lineage child = (case cc_variant child of Some v \<Rightarrow> va_of v | None \<Rightarrow> pos_id child)"

definition originals :: "container_child list \<Rightarrow> (string \<times> container_child) list" where
  "originals merged = new_Map (map (\<lambda>child. (pos_id child, child)) merged)"

definition owner_of :: "container_child list \<Rightarrow> container_child \<Rightarrow> string" where
  "owner_of merged child = (case map_of (originals merged) (lineage child) of Some o' \<Rightarrow> cc_owner o' | None \<Rightarrow> cc_owner child)"

definition row_allows :: "resolve_options \<Rightarrow> container_child \<Rightarrow> bool" where
  "row_allows options child \<longleftrightarrow>
     ro_projection options \<or>
     (case ro_row options of
        None \<Rightarrow> True
      | Some row \<Rightarrow> (case truthy_string (cc_permission child) of None \<Rightarrow> True | Some permission \<Rightarrow> holdsPermission row permission))"

definition is_placed :: "container_child list \<Rightarrow> container_child \<Rightarrow> bool" where
  "is_placed merged child \<longleftrightarrow>
     pos_sequence child \<noteq> None \<or> pos_before child \<noteq> None \<or> pos_after child \<noteq> None \<or>
     (case cc_variant child of Some v \<Rightarrow> map_of (originals merged) (va_of v) = None | None \<Rightarrow> False)"

definition trails :: "container_child list \<Rightarrow> container_child \<Rightarrow> bool" where
  "trails merged child \<longleftrightarrow> cc_variant child \<noteq> None \<and> \<not> is_placed merged child"

text \<open>The projection: an unplaced variant follows its original.\<close>

definition project_variants :: "container_child list \<Rightarrow> container_child list \<Rightarrow> container_child list" where
  "project_variants merged visible =
     concat (map (\<lambda>child. child # filter (\<lambda>follower. trails merged follower \<and> lineage follower = pos_id child) visible)
       (filter (\<lambda>child. \<not> trails merged child) visible))"

text \<open>A row: the variants for its implementation stand in for their originals.\<close>

definition eligible :: "resolve_options \<Rightarrow> container_child \<Rightarrow> bool" where
  "eligible options child \<longleftrightarrow>
     (case cc_variant child of Some v \<Rightarrow> va_impl v \<in> set (ro_impls options) \<and> row_allows options child | None \<Rightarrow> False)"

definition claim_variant ::
  "string \<Rightarrow> resolve_options \<Rightarrow> (string \<times> container_child) list \<Rightarrow> container_child \<Rightarrow> (string \<times> container_child) list result" where
  "claim_variant address options variants child =
     (if eligible options child
      then (case map_of variants (lineage child) of
              Some taken \<Rightarrow> Inl (JsError (''Children \"'' @ pos_id taken @ ''\" and \"'' @ pos_id child @ ''\" of \"'' @ address
                 @ ''\" are both variants of \"'' @ lineage child @ ''\" for this row.''))
            | None \<Rightarrow> Inr (map_put (lineage child) child variants))
      else Inr variants)"

definition stand_in :: "container_child list \<Rightarrow> (string \<times> container_child) list \<Rightarrow> container_child \<Rightarrow> container_child list" where
  "stand_in merged variants child =
     (case map_of variants (pos_id child) of
        None \<Rightarrow> [child]
      | Some variant \<Rightarrow> if is_placed merged variant then [] else [variant])"

definition row_variants ::
  "string \<Rightarrow> resolve_options \<Rightarrow> container_child list \<Rightarrow> container_child list \<Rightarrow> container_child list result" where
  "row_variants address options merged visible =
     rbind (fold_res (claim_variant address options) [] visible) (\<lambda>variants.
       Inr (filter (\<lambda>child. case cc_impl child of None \<Rightarrow> True | Some i \<Rightarrow> i \<in> set (ro_impls options))
             (concat (map (stand_in merged variants)
               (filter (\<lambda>child. cc_variant child = None \<or> map_of variants (lineage child) = Some child \<and> is_placed merged child) visible)))))"

definition only_admits :: "container_child list \<Rightarrow> container_rule \<Rightarrow> container_child \<Rightarrow> bool" where
  "only_admits merged rule child =
     (case cr_only rule of
        None \<Rightarrow> True
      | Some kept \<Rightarrow> pos_id child \<in> set kept \<or> lineage child \<in> set kept \<or> owner_of merged child \<in> set (cr_exempt rule))"

definition narrow ::
  "string \<Rightarrow> resolve_options \<Rightarrow> container_rule list \<Rightarrow> container_child list \<Rightarrow> container_child list result" where
  "narrow address options rules merged =
     (let blocked = blocked_ids rules merged (ro_permitted options);
          visible = filter (\<lambda>child. pos_id child \<notin> blocked \<and> lineage child \<notin> blocked) merged
      in rbind (if ro_projection options then Inr (project_variants merged visible) else row_variants address options merged visible) (\<lambda>visible.
           Inr (filter (row_allows options)
             (foldl (\<lambda>visible rule. filter (only_admits merged rule) visible) visible (narrowing_rules rules)))))"

definition resolveContainer :: "composed_containers \<Rightarrow> string \<Rightarrow> resolve_options \<Rightarrow> container_child list result" where
  "resolveContainer composed address options =
     (let describe = ''Children of \"'' @ address @ ''\"''
      in if map_of (co_declared composed) address = None then positionSiblings (ro_extra options) describe
         else rbind (containerAddresses composed address (ro_models options)) (\<lambda>addresses.
              rbind (composedContainerChildren composed address (ro_models options)) (\<lambda>children.
              rbind (positionSiblings (children @ ro_extra options) describe) (\<lambda>merged.
                narrow address options (active_rules composed (ro_scope options) addresses) merged))))"

end
