(* ===== verification/ContainerFacts.thy ===== *)
theory ContainerFacts
  imports Containers
begin

text \<open>
  What one page shows of a container: the variants a row selects, and the set of children that
  survives hiding, exceptions, presence, \<open>only\<close> rules and permissions.
\<close>

section \<open>Variants\<close>

lemma claim_variants:
  assumes "fold_res (claim_variant address options) acc xs = Inr variants"
  shows "map_of variants k = Some c \<longleftrightarrow> map_of acc k = Some c \<or> (c \<in> set xs \<and> eligible options c \<and> lineage c = k)"
  using assms
proof (induction xs arbitrary: acc)
  case (Cons x xs)
  from Cons.prems obtain acc' where step: "claim_variant address options acc x = Inr acc'"
    and rest: "fold_res (claim_variant address options) acc' xs = Inr variants"
    by (auto simp: rbind_Inr_iff)
  show ?case
  proof (cases "eligible options x")
    case True
    with step have "map_of acc (lineage x) = None" "acc' = map_put (lineage x) x acc"
      by (auto simp: claim_variant_def split: option.splits)
    with Cons.IH[OF rest] True show ?thesis by auto
  next
    case False
    with step have "acc' = acc" by (simp add: claim_variant_def)
    with Cons.IH[OF rest] False show ?thesis by auto
  qed
qed simp

lemma foldl_filter: "foldl (\<lambda>xs r. filter (P r) xs) xs rs = filter (\<lambda>x. list_all (\<lambda>r. P r x) rs) xs"
  by (induction rs arbitrary: xs) (simp_all add: conj_commute)

definition unblocked :: "string set \<Rightarrow> container_child \<Rightarrow> bool" where
  "unblocked blocked child \<longleftrightarrow> pos_id child \<notin> blocked \<and> lineage child \<notin> blocked"

text \<open>No variant is the original of another.\<close>

definition variants_flat :: "container_child list \<Rightarrow> bool" where
  "variants_flat pool \<longleftrightarrow>
     list_all (\<lambda>c. cc_variant c = None \<or> list_all (\<lambda>o'. pos_id o' = lineage c \<longrightarrow> cc_variant o' = None) pool) pool"

lemma variants_flatD:
  "variants_flat pool \<Longrightarrow> c \<in> set pool \<Longrightarrow> o' \<in> set pool \<Longrightarrow> cc_variant c \<noteq> None \<Longrightarrow> pos_id o' = lineage c \<Longrightarrow> cc_variant o' = None"
  by (auto simp: variants_flat_def list_all_iff)

lemma originals_dom: "map_of (originals merged) i = None \<longleftrightarrow> i \<notin> pos_id ` set merged"
  by (simp add: originals_def map_of_None_keys keys_new_Map image_image)

lemma eligible_variant: "eligible options c \<Longrightarrow> cc_variant c \<noteq> None"
  by (auto simp: eligible_def split: option.splits)

lemma lineage_plain: "cc_variant c = None \<Longrightarrow> lineage c = pos_id c"
  by (simp add: lineage_def)

text \<open>The children that keep a place of their own, before variants stand in.\<close>

definition keeps_place :: "container_child list \<Rightarrow> (string \<times> container_child) list \<Rightarrow> container_child \<Rightarrow> bool" where
  "keeps_place merged variants child \<longleftrightarrow>
     cc_variant child = None \<or> map_of variants (lineage child) = Some child \<and> is_placed merged child"

text \<open>The place a shown child takes: its own, or that of the original it stands in for.\<close>

definition slot :: "container_child list \<Rightarrow> container_child \<Rightarrow> string" where
  "slot merged child = (if trails merged child then lineage child else pos_id child)"

lemma stand_in_cases:
  assumes flat: "variants_flat merged" and vis: "set visible \<subseteq> set merged"
    and claimed: "fold_res (claim_variant address options) [] visible = Inr variants"
    and y: "y \<in> set visible" "keeps_place merged variants y"
  shows "stand_in merged variants y = [y] \<and> \<not> trails merged y \<and> map_of variants (pos_id y) = None \<or>
         cc_variant y = None \<and> (\<exists>v. map_of variants (pos_id y) = Some v \<and>
           stand_in merged variants y = (if is_placed merged v then [] else [v]))"
proof (cases "map_of variants (pos_id y)")
  case None
  then show ?thesis using y by (auto simp: stand_in_def keeps_place_def trails_def)
next
  case (Some v)
  then have v: "v \<in> set visible" "eligible options v" "lineage v = pos_id y"
    using claim_variants[OF claimed] by auto
  then have "cc_variant y = None"
    using variants_flatD[OF flat, of v y] vis y(1) eligible_variant by auto
  with Some show ?thesis by (simp add: stand_in_def)
qed

lemma stand_in_slots:
  assumes "variants_flat merged" "set visible \<subseteq> set merged"
    and "fold_res (claim_variant address options) [] visible = Inr variants"
    and "y \<in> set visible" "keeps_place merged variants y"
  shows "map (slot merged) (stand_in merged variants y) = [] \<or> map (slot merged) (stand_in merged variants y) = [pos_id y]"
  using stand_in_cases[OF assms]
proof (elim disjE conjE exE)
  fix v
  assume v: "map_of variants (pos_id y) = Some v" "stand_in merged variants y = (if is_placed merged v then [] else [v])"
  then have "eligible options v" "lineage v = pos_id y" using claim_variants[OF assms(3)] by auto
  then show ?thesis using v eligible_variant[of options v] by (simp add: slot_def trails_def)
qed (simp add: slot_def)

lemma distinct_slots:
  assumes "\<forall>y \<in> set ys. map f (g y) = [] \<or> map f (g y) = [pos_id y]"
  shows "subseq (map f (concat (map g ys))) (map pos_id ys)"
  using assms
proof (induction ys)
  case (Cons y ys)
  then have IH: "subseq (map f (concat (map g ys))) (map pos_id ys)" by simp
  have eq: "map f (g y) = [] \<or> map f (g y) = [pos_id y]" using Cons.prems by (rule bspec) simp
  have "map f (concat (map g (y # ys))) = map f (g y) @ map f (concat (map g ys))" by simp
  moreover have "subseq (us @ vs) (y # ws)" if "us = [] \<or> us = [y]" "subseq vs ws" for us vs ws and y :: string
    using that by (elim disjE) (simp_all only: append.simps list_emb_Cons subseq_Cons2)
  ultimately show ?case using eq IH by (simp only: list.map)
qed simp

lemma row_members:
  assumes flat: "variants_flat merged" and vis: "set visible \<subseteq> set merged"
    and claimed: "fold_res (claim_variant address options) [] visible = Inr variants"
  shows "x \<in> set (concat (map (stand_in merged variants) (filter (keeps_place merged variants) visible))) \<longleftrightarrow>
         x \<in> set visible \<and>
         (if cc_variant x = None then map_of variants (pos_id x) = None
          else eligible options x \<and> (is_placed merged x \<or> (\<exists>y \<in> set visible. cc_variant y = None \<and> pos_id y = lineage x)))"
    (is "?lhs \<longleftrightarrow> ?rhs")
proof
  assume ?lhs
  then obtain y where y: "y \<in> set visible" "keeps_place merged variants y" "x \<in> set (stand_in merged variants y)" by auto
  from stand_in_cases[OF flat vis claimed y(1,2)] show ?rhs
  proof (elim disjE conjE exE)
    assume "stand_in merged variants y = [y]" "map_of variants (pos_id y) = None"
    with y show ?rhs using claim_variants[OF claimed, of "lineage y" y] by (auto simp: keeps_place_def)
  next
    fix v
    assume v: "cc_variant y = None" "map_of variants (pos_id y) = Some v"
      "stand_in merged variants y = (if is_placed merged v then [] else [v])"
    then have "v \<in> set visible" "eligible options v" "lineage v = pos_id y" using claim_variants[OF claimed] by auto
    with v y show ?rhs using eligible_variant[of options v] by (auto split: if_splits)
  qed
next
  assume r: ?rhs
  show ?lhs
  proof (cases "cc_variant x = None")
    case True
    with r show ?thesis by (force simp: keeps_place_def stand_in_def)
  next
    case False
    with r have x: "x \<in> set visible" "eligible options x" by auto
    then have slot: "map_of variants (lineage x) = Some x" using claim_variants[OF claimed] by simp
    show ?thesis
    proof (cases "is_placed merged x")
      case True
      then have "stand_in merged variants x = [x]"
        using stand_in_cases[OF flat vis claimed x(1)] slot False by (auto simp: keeps_place_def)
      with True x slot show ?thesis by (force simp: keeps_place_def)
    next
      case unplaced: False
      with r False obtain y where "y \<in> set visible" "cc_variant y = None" "pos_id y = lineage x" by auto
      with slot unplaced show ?thesis by (force simp: keeps_place_def stand_in_def)
    qed
  qed
qed

lemma row_distinct:
  assumes flat: "variants_flat merged" and vis: "set visible \<subseteq> set merged"
    and claimed: "fold_res (claim_variant address options) [] visible = Inr variants"
    and ids: "distinct (map pos_id merged)" "distinct (map pos_id visible)"
  shows "distinct (map pos_id (concat (map (stand_in merged variants) (filter (keeps_place merged variants) visible))))"
    (is "distinct (map pos_id ?shown)")
proof -
  have "distinct (map pos_id (filter (keeps_place merged variants) visible))" using ids(2) by (rule distinct_map_filter)
  moreover have "\<forall>y \<in> set (filter (keeps_place merged variants) visible).
      map (slot merged) (stand_in merged variants y) = [] \<or> map (slot merged) (stand_in merged variants y) = [pos_id y]"
    using stand_in_slots[OF flat vis claimed] by auto
  ultimately have "distinct (map (slot merged) ?shown)" using distinct_slots subseq_distinct by blast
  then have "distinct ?shown" by (rule conjunct1[OF iffD1[OF distinct_map]])
  moreover have "inj_on pos_id (set ?shown)"
  proof (rule inj_on_subset)
    show "inj_on pos_id (set merged)" using ids(1) by (simp add: distinct_map)
    show "set ?shown \<subseteq> set merged" using row_members[OF flat vis claimed] vis by blast
  qed
  ultimately show ?thesis by (simp add: distinct_map)
qed


section \<open>The children shown\<close>

definition page_shows :: "resolve_options \<Rightarrow> container_rule list \<Rightarrow> container_child list \<Rightarrow> container_child \<Rightarrow> bool" where
  "page_shows options rules pool child \<longleftrightarrow>
     child \<in> set pool \<and> unblocked (blocked_ids rules pool (ro_permitted options)) child \<and>
     (case cc_impl child of None \<Rightarrow> True | Some i \<Rightarrow> i \<in> set (ro_impls options)) \<and>
     list_all (\<lambda>rule. only_admits pool rule child) (narrowing_rules rules) \<and> row_allows options child \<and>
     (if cc_variant child = None
      then \<not> list_ex (\<lambda>v. unblocked (blocked_ids rules pool (ro_permitted options)) v \<and> eligible options v \<and> lineage v = pos_id child) pool
      else eligible options child)"

lemma unplaced_original:
  assumes "variants_flat merged" "x \<in> set merged" "cc_variant x \<noteq> None" "\<not> is_placed merged x" "unblocked blocked x"
  shows "\<exists>y \<in> set merged. unblocked blocked y \<and> cc_variant y = None \<and> pos_id y = lineage x"
proof -
  have "map_of (originals merged) (lineage x) \<noteq> None" using assms(3,4) by (auto simp: is_placed_def lineage_def)
  then have "lineage x \<in> pos_id ` set merged" using originals_dom[of merged "lineage x"] by (simp only: not_not)
  then obtain y where y: "y \<in> set merged" "pos_id y = lineage x" by (metis imageE)
  then have "cc_variant y = None" using variants_flatD[OF assms(1) assms(2) y(1) assms(3)] by simp
  with y assms(5) lineage_plain[of y] show ?thesis by (intro bexI[of _ y]) (simp_all add: unblocked_def)
qed

lemma narrow_row:
  "\<not> ro_projection options \<Longrightarrow> narrow address options rules merged =
     rbind (fold_res (claim_variant address options) []
              (filter (unblocked (blocked_ids rules merged (ro_permitted options))) merged)) (\<lambda>variants.
       Inr (filter (row_allows options) (filter (\<lambda>x. list_all (\<lambda>r. only_admits merged r x) (narrowing_rules rules))
         (filter (\<lambda>child. case cc_impl child of None \<Rightarrow> True | Some i \<Rightarrow> i \<in> set (ro_impls options))
           (concat (map (stand_in merged variants) (filter (keeps_place merged variants)
              (filter (unblocked (blocked_ids rules merged (ro_permitted options))) merged))))))))"
  by (cases "fold_res (claim_variant address options) [] (filter (unblocked (blocked_ids rules merged (ro_permitted options))) merged)")
     (simp_all add: narrow_def row_variants_def Let_def foldl_filter unblocked_def[abs_def] keeps_place_def[abs_def])

lemma narrow_shows:
  assumes ids: "distinct (map pos_id merged)" and flat: "variants_flat merged" and row: "\<not> ro_projection options"
    and result: "narrow address options rules merged = Inr result"
  shows "distinct (map pos_id result) \<and> (x \<in> set result \<longleftrightarrow> page_shows options rules merged x)"
proof -
  define blocked where "blocked = blocked_ids rules merged (ro_permitted options)"
  define visible where "visible = filter (unblocked blocked) merged"
  define admits where "admits = (\<lambda>x. list_all (\<lambda>r. only_admits merged r x) (narrowing_rules rules))"
  define impl where "impl = (\<lambda>child :: container_child. case cc_impl child of None \<Rightarrow> True | Some i \<Rightarrow> i \<in> set (ro_impls options))"
  obtain variants where claimed: "fold_res (claim_variant address options) [] visible = Inr variants"
    and res: "result = filter (row_allows options) (filter admits (filter impl
                (concat (map (stand_in merged variants) (filter (keeps_place merged variants) visible)))))"
    using result unfolding narrow_row[OF row] by (auto simp: rbind_Inr_iff visible_def blocked_def admits_def impl_def)
  have vis: "set visible \<subseteq> set merged" by (auto simp: visible_def)
  have "distinct (map pos_id visible)" unfolding visible_def using ids by (rule distinct_map_filter)
  then have "distinct (map pos_id result)" unfolding res by (intro distinct_map_filter row_distinct[OF flat vis claimed ids])
  moreover have "map_of variants (pos_id x) = None \<longleftrightarrow>
      \<not> list_ex (\<lambda>v. unblocked blocked v \<and> eligible options v \<and> lineage v = pos_id x) merged"
    using claim_variants[OF claimed, of "pos_id x"] by (fastforce simp: visible_def list_ex_iff simp flip: not_Some_eq)
  moreover have "is_placed merged x \<or> (\<exists>y \<in> set visible. cc_variant y = None \<and> pos_id y = lineage x)"
    if "x \<in> set visible" "cc_variant x \<noteq> None"
    using unplaced_original[OF flat _ that(2), of blocked] that(1) by (auto simp: visible_def)
  ultimately show ?thesis
    using row_members[OF flat vis claimed, of x] unfolding res page_shows_def blocked_def[symmetric] admits_def impl_def
    by (auto simp: visible_def)
qed


text \<open>What is shown depends on the children, not on their order.\<close>

lemma originals_mset:
  assumes "mset xs = mset ys" "distinct (map pos_id xs)"
  shows "map_of (originals xs) = map_of (originals ys)"
proof
  fix k
  have d: "distinct (map pos_id ys)" using assms by (metis mset_eq_imp_distinct_iff mset_map)
  have set_eq: "set xs = set ys" using assms(1) by (rule mset_eq_setD)
  have look: "map_of (originals zs) k = Some c \<longleftrightarrow> c \<in> set zs \<and> pos_id c = k" if "distinct (map pos_id zs)" for zs c
  proof -
    have "distinct (map fst (map (\<lambda>child. (pos_id child, child)) zs))" using that by (simp add: comp_def)
    from map_of_new_Map_distinct[OF this] map_of_new_Map show ?thesis by (fastforce simp: originals_def)
  qed
  show "map_of (originals xs) k = map_of (originals ys) k"
  proof (cases "map_of (originals ys) k")
    case None
    then show ?thesis using look[OF assms(2)] look[OF d] set_eq by (metis not_Some_eq)
  next
    case (Some c)
    then show ?thesis using look[OF assms(2), of c] look[OF d, of c] set_eq by simp
  qed
qed

lemma page_shows_mset:
  assumes "mset xs = mset ys" "distinct (map pos_id xs)"
  shows "page_shows options rules xs = page_shows options rules ys"
proof
  fix x
  have set_eq: "set xs = set ys" using assms(1) by (rule mset_eq_setD)
  then have "blocked_ids rules xs permitted = blocked_ids rules ys permitted" for permitted
    by (simp add: blocked_ids_def)
  moreover have "only_admits xs = only_admits ys"
    by (intro ext) (simp add: only_admits_def owner_of_def originals_mset[OF assms] split: option.split)
  ultimately show "page_shows options rules xs x = page_shows options rules ys x"
    using set_eq by (simp add: page_shows_def list_ex_iff)
qed


end
