(* ===== verification/ContainerCompile.thy ===== *)
theory ContainerCompile
  imports Containers
begin

text \<open>
  Containers of composed add-ons, \<open>packages/app/src/containers.ts\<close>: declarations of containers and
  children by every layer, alterations and narrowing rules by dependents, and the checks of the final
  inventory. The children are objects the compiler shares between its two indexes and updates in
  place, so the state holds them in a list of cells and the indexes hold positions in it.

  Entries are JavaScript values as the source validates them; the fields of a child hold values of
  their declared types. \<open>canonicalizeModel\<close> is a parameter, which may throw, and returns a label
  that is not empty and has no \<open>#\<close>. The ellipsis of one message is three dots.
\<close>

section \<open>Declared containers\<close>

definition FRAMEWORK :: string where
  "FRAMEWORK = ''framework''"

definition ENTRY_KEYS :: "string list" where
  "ENTRY_KEYS = [''only'', ''except'', ''force'', ''when'', ''unique'', ''models'']"

definition CHILD_KEYS :: "string list" where
  "CHILD_KEYS = [''content'', ''sequence'', ''before'', ''after'', ''permission'', ''requires'', ''requiredFields'', ''impl'', ''variant'', ''key'']"

definition ALTERATION_KEYS :: "string list" where
  "ALTERATION_KEYS = [''sequence'', ''before'', ''after'', ''remove'', ''hide'']"

definition CONDITION_KEYS :: "string list" where
  "CONDITION_KEYS = [''app'', ''route'']"

record container_layer = layer +
  cl_containers :: "jsval table option"

definition throw :: "string \<Rightarrow> 'a result" where
  "throw message = Inl (JsError message)"

definition quote :: "string \<Rightarrow> string" where
  "quote s = ''\"'' @ s @ ''\"''"

text \<open>The last segment of a model's spelling starts with a capital letter.\<close>

definition isModelNode :: "string \<Rightarrow> bool" where
  "isModelNode node = (case last (js_split (CHR ''.'') node) of [] \<Rightarrow> False | c # _ \<Rightarrow> CHR ''A'' \<le> c \<and> c \<le> CHR ''Z'')"

definition namespaceOf :: "string list \<Rightarrow> string \<Rightarrow> string option" where
  "namespaceOf layerIds i =
     foldl (\<lambda>best layer.
       if (i = layer \<or> startsWith i (layer @ ''.'')) \<and> (case best of None \<Rightarrow> True | Some b \<Rightarrow> length layer > length b)
       then Some layer else best) None layerIds"

definition owns_id :: "container_layer list \<Rightarrow> string \<Rightarrow> string \<Rightarrow> bool" where
  "owns_id layers layer i \<longleftrightarrow>
     layer \<noteq> DEPLOYMENT_LAYER_ID \<and>
     namespaceOf (filter (\<lambda>l. l \<noteq> DEPLOYMENT_LAYER_ID) (map ly_id layers)) i = Some layer"

definition nodeOf :: "string \<Rightarrow> string" where
  "nodeOf address = fst (node_name address)"

definition entry_object :: "string \<Rightarrow> string \<Rightarrow> jsval \<Rightarrow> (string \<times> jsval table) result" where
  "entry_object layer address entry =
     (case entry of
        Obj es \<Rightarrow> Inr (address, es)
      | _ \<Rightarrow> throw (''Container entry '' @ quote address @ '' of '' @ quote layer @ '' must be a mapping.''))"

definition entriesOf :: "container_layer \<Rightarrow> (string \<times> jsval table) list result" where
  "entriesOf layer =
     rbind (map_res (\<lambda>(address, value). map_res (entry_object (ly_id layer) address) (case value of Arr xs \<Rightarrow> xs | v \<Rightarrow> [v]))
              (or_else (cl_containers layer) []))
       (\<lambda>entries. Inr (concat entries))"

record container_env =
  ce_declared :: "declared_container table"
  ce_kinds :: "(string \<times> string) list"

definition registerKind :: "string \<Rightarrow> string \<Rightarrow> container_env \<Rightarrow> container_env result" where
  "registerKind name address env =
     (case map_of (ce_kinds env) name of
        Some kind \<Rightarrow>
          if kind \<noteq> address
          then throw (''Container name \"#'' @ name @ ''\" belongs to two kinds, '' @ quote kind @ '' and '' @ quote address @ ''.'')
          else Inr (env\<lparr>ce_kinds := map_put name address (ce_kinds env)\<rparr>)
      | None \<Rightarrow> Inr (env\<lparr>ce_kinds := map_put name address (ce_kinds env)\<rparr>))"

definition declare_core :: "container_env \<Rightarrow> core_container \<Rightarrow> container_env result" where
  "declare_core env container =
     (let address = kc_address container
      in if map_of (ce_declared env) address \<noteq> None
         then throw (''Container '' @ quote address @ '' is declared twice.'')
         else (let env' = env\<lparr>ce_declared := obj_put address (core_declared container) (ce_declared env)\<rparr>
               in if kc_models container then rbind (containerName address) (\<lambda>name. registerKind name address env') else Inr env'))"

text \<open>The declaration an add-on's entry gives its container, over the one it already declared.\<close>

definition own_declared :: "declared_container option \<Rightarrow> string \<Rightarrow> jsval table \<Rightarrow> declared_container" where
  "own_declared known layer entry =
     (let models = (prop_of entry ''models'' = Bool True \<or> map_option dc_models known = Some True);
          unique = (if is_nullish (prop_of entry ''unique'') then case known of Some k \<Rightarrow> dc_unique k | None \<Rightarrow> Undefined
                    else prop_of entry ''unique'')
      in \<lparr>dc_owner = layer, dc_models = models, dc_unique = (if js_truthy unique then unique else Undefined), dc_extras = False\<rparr>)"

definition foreign_owner :: "declared_container option \<Rightarrow> string \<Rightarrow> string option" where
  "foreign_owner known layer = (case known of Some k \<Rightarrow> if dc_owner k \<noteq> layer then Some (dc_owner k) else None | None \<Rightarrow> None)"

definition declare_own :: "container_layer list \<Rightarrow> string \<Rightarrow> container_env \<Rightarrow> string \<times> jsval table \<Rightarrow> container_env result" where
  "declare_own layers layer env e =
     rbind (containerName (fst e)) (\<lambda>name.
       let address = fst e; known = map_of (ce_declared env) address; d = own_declared known layer (snd e);
           env' = env\<lparr>ce_declared := obj_put address d (ce_declared env)\<rparr>
       in if isModelNode (nodeOf address) \<or> \<not> owns_id layers layer (nodeOf address) \<or> map_of (ce_kinds env) name = Some address
          then Inr env
          else (case foreign_owner known layer of
                  Some owner \<Rightarrow> throw (''Container '' @ quote address @ '' is declared by '' @ quote owner @ '' and '' @ quote layer @ ''.'')
                | None \<Rightarrow> if dc_models d then registerKind name address env' else Inr env'))"

definition declare_layer_containers :: "container_layer list \<Rightarrow> container_env \<Rightarrow> container_layer \<Rightarrow> container_env result" where
  "declare_layer_containers layers env layer =
     rbind (entriesOf layer) (\<lambda>entries. fold_res (declare_own layers (ly_id layer)) env entries)"

definition check_kind :: "container_env \<Rightarrow> string \<Rightarrow> unit result" where
  "check_kind env address =
     rbind (containerName address) (\<lambda>name.
       case map_of (ce_kinds env) name of
         Some kind \<Rightarrow> guard (kind = address) (''Container '' @ quote address @ '' shares its name with the model kind ''
                              @ quote kind @ ''; name it apart.'')
       | None \<Rightarrow> Inr ())"

definition declare_containers :: "container_layer list \<Rightarrow> core_container list \<Rightarrow> container_env result" where
  "declare_containers layers core =
     rbind (fold_res declare_core \<lparr>ce_declared = [], ce_kinds = []\<rparr> core) (\<lambda>env.
     rbind (fold_res (declare_layer_containers layers) env layers) (\<lambda>env.
     rbind (each_res (check_kind env) (keys (ce_declared env))) (\<lambda>_. Inr env)))"

definition resolveAddress :: "container_env \<Rightarrow> (string \<Rightarrow> string result) \<Rightarrow> string \<Rightarrow> string \<Rightarrow> string result" where
  "resolveAddress env canonicalizeModel layer address =
     rbind (containerName address) (\<lambda>name.
       let node = nodeOf address
       in case map_of (ce_kinds env) name of
            Some kind \<Rightarrow>
              if node = nodeOf kind then Inr kind
              else if \<not> isModelNode node
              then throw (''Addon '' @ quote layer @ '' names '' @ quote address @ '', but \"#'' @ name @ ''\" is a model kind (''
                     @ quote kind @ '') and '' @ quote node @ '' is not a model.'')
              else rbind (canonicalizeModel node) (\<lambda>label. Inr (label @ ''#'' @ name))
          | None \<Rightarrow>
              if isModelNode node
              then throw (''Addon '' @ quote layer @ '' names unknown container '' @ quote address @ '': models have no \"#'' @ name @ ''\".'')
              else if map_of (ce_declared env) address = None
              then throw (''Addon '' @ quote layer @ '' names unknown container '' @ quote address @ ''.'')
              else Inr address)"

definition familyOf :: "container_env \<Rightarrow> string \<Rightarrow> string" where
  "familyOf env address = or_else (map_of (ce_kinds env) (snd (node_name address))) address"

definition meets :: "container_env \<Rightarrow> string \<Rightarrow> string \<Rightarrow> bool" where
  "meets env left right \<longleftrightarrow> left = right \<or> left = familyOf env left \<or> right = familyOf env right"

section \<open>Children\<close>

record layered_child = container_child +
  lc_setBy :: "string table"

record removed_by = removed_child +
  rb_owner :: string

record compile_state =
  st_cells :: "layered_child list"
  st_children :: "(string \<times> nat) list"
  st_families :: "(string \<times> (string \<times> nat list) list) list"
  st_rules :: "(string \<times> container_rule list) list"
  st_removed :: "(string \<times> removed_by) list"
  st_diagnostics :: "string list"

definition childKey :: "string \<Rightarrow> string \<Rightarrow> string" where
  "childKey address i = address @ ''/'' @ i"

definition family_members :: "compile_state \<Rightarrow> string \<Rightarrow> (string \<times> nat list) list" where
  "family_members st family = or_else (map_of (st_families st) family) []"

definition child_refs :: "compile_state \<Rightarrow> string \<Rightarrow> string \<Rightarrow> nat list" where
  "child_refs st family i = or_else (map_of (family_members st family) i) []"

definition layered :: "jsval table \<Rightarrow> string \<Rightarrow> string \<Rightarrow> string \<Rightarrow> layered_child" where
  "layered fs i owner address =
     container_child.extend (child_of fs i owner address) \<lparr>lc_setBy = map (\<lambda>(field, _). (field, owner)) fs\<rparr>"

definition addChild :: "container_env \<Rightarrow> string \<Rightarrow> compile_state \<Rightarrow> layered_child \<Rightarrow> compile_state result" where
  "addChild env where' st child =
     (let family = familyOf env (cc_address child); same = child_refs st family (pos_id child); ref = length (st_cells st)
      in case find (\<lambda>other. meets env (cc_address (st_cells st ! other)) (cc_address child)) same of
           Some clash \<Rightarrow>
             throw (if cc_address (st_cells st ! clash) = cc_address child
                    then where' @ '' redefines child '' @ quote (pos_id child) @ '' of container '' @ quote (cc_address child) @ ''.''
                    else where' @ '' declares child '' @ quote (pos_id child) @ '' at '' @ quote (cc_address (st_cells st ! clash)) @ '' and ''
                           @ quote (cc_address child) @ '', which render together; one id per container.'')
         | None \<Rightarrow>
             Inr (st\<lparr>st_cells := st_cells st @ [child],
                     st_families := map_put family (map_put (pos_id child) (same @ [ref]) (family_members st family)) (st_families st),
                     st_children := map_put (childKey (cc_address child) (pos_id child)) ref (st_children st)\<rparr>))"

definition add_core :: "container_env \<Rightarrow> compile_state \<Rightarrow> core_container \<Rightarrow> compile_state result" where
  "add_core env st container =
     fold_res (\<lambda>st (i, fs). addChild env ''The framework'' st (layered fs i FRAMEWORK (kc_address container)))
       st (or_else (kc_children container) [])"

section \<open>Entries\<close>

definition condition_value_ok :: "jsval \<Rightarrow> bool" where
  "condition_value_ok v = (case v of Str _ \<Rightarrow> True | Arr xs \<Rightarrow> list_all (\<lambda>x. string_value x \<noteq> None) xs | _ \<Rightarrow> False)"

definition check_condition :: "string \<Rightarrow> string \<times> jsval \<Rightarrow> unit result" where
  "check_condition where' e =
     rbind (guard (fst e \<in> set CONDITION_KEYS) (where' @ '': unknown condition '' @ quote (fst e) @ ''.'')) (\<lambda>_.
       guard (condition_value_ok (snd e)) (where' @ '': condition '' @ quote (fst e) @ '' must be an id or a list of ids.''))"

definition check_when :: "string \<Rightarrow> jsval \<Rightarrow> unit result" where
  "check_when where' v =
     (case v of
        Undefined \<Rightarrow> Inr ()
      | Obj es \<Rightarrow> each_res (check_condition where') es
      | Arr [] \<Rightarrow> Inr ()
      | Arr _ \<Rightarrow> throw (where' @ '': unknown condition \"0\".'')
      | _ \<Rightarrow> throw (where' @ '': when must be a mapping.''))"

definition id_list_ok :: "jsval \<Rightarrow> bool" where
  "id_list_ok v = (case v of Undefined \<Rightarrow> True | Arr xs \<Rightarrow> list_all (\<lambda>x. string_value x \<noteq> None) xs | _ \<Rightarrow> False)"

definition validate_container_entry :: "string \<Rightarrow> string \<Rightarrow> jsval table \<Rightarrow> unit result" where
  "validate_container_entry layer address entry =
     (let where' = ''Container entry '' @ quote address @ '' of '' @ quote layer
      in rbind (guard (id_list_ok (prop_of entry ''only'')) (where' @ '': only must be a list of child ids.'')) (\<lambda>_.
         rbind (guard (id_list_ok (prop_of entry ''except'')) (where' @ '': except must be a list of child ids.'')) (\<lambda>_.
         rbind (guard (prop_of entry ''unique'' = Undefined \<or> prop_of entry ''unique'' = Str ''key'') (where' @ '': unique must be \"key\".'')) (\<lambda>_.
         rbind (guard (prop_of entry ''models'' = Undefined \<or> prop_of entry ''models'' = Bool True) (where' @ '': models must be true.'')) (\<lambda>_.
         rbind (check_when where' (prop_of entry ''when'')) (\<lambda>_.
         each_res (\<lambda>(key, value). guard (key \<in> set ENTRY_KEYS \<or> (case value of Obj _ \<Rightarrow> True | _ \<Rightarrow> False))
                     (where' @ '': child '' @ quote key @ '' must be a mapping.'')) entry))))))"

definition id_choice_of :: "jsval \<Rightarrow> id_choice option" where
  "id_choice_of v = (case v of Str s \<Rightarrow> Some (OneId s) | Arr xs \<Rightarrow> Some (ManyIds (List.map_filter string_value xs)) | _ \<Rightarrow> None)"

definition condition_of :: "jsval \<Rightarrow> container_condition option" where
  "condition_of v =
     (if js_truthy v
      then Some (case v of
          Obj es \<Rightarrow> \<lparr>cn_app = id_choice_of (prop_of es ''app''), cn_route = id_choice_of (prop_of es ''route'')\<rparr>
        | _ \<Rightarrow> \<lparr>cn_app = None, cn_route = None\<rparr>)
      else None)"

record pending_alteration =
  pa_layer :: string
  pa_address :: string
  pa_id :: string
  pa_alteration :: "jsval table"
  pa_when :: "container_condition option"

record pending_rule =
  pr_layer :: string
  pr_address :: string
  pr_entry :: "jsval table"

definition unknown_key :: "string list \<Rightarrow> jsval table \<Rightarrow> string \<Rightarrow> unit result" where
  "unknown_key known fs what =
     (case find (\<lambda>field. field \<notin> set known) (keys fs) of
        Some field \<Rightarrow> throw (what @ '' has unknown key '' @ quote field @ ''.'')
      | None \<Rightarrow> Inr ())"

definition declare_child ::
  "container_env \<Rightarrow> string \<Rightarrow> string \<Rightarrow> string \<Rightarrow> jsval table \<Rightarrow> string \<Rightarrow> jsval table \<Rightarrow> compile_state \<Rightarrow> compile_state result" where
  "declare_child env layer raw address entry i fs st =
     rbind (guard (\<not> js_truthy (prop_of entry ''when'')) (''Container entry '' @ quote raw @ '' of '' @ quote layer @ '' declares child '' @ quote i
              @ '' under a condition; declare it unconditionally and narrow with only or hide.'')) (\<lambda>_.
     rbind (unknown_key CHILD_KEYS fs (''Child '' @ quote i @ '' of '' @ quote raw @ '' in '' @ quote layer)) (\<lambda>_.
       addChild env (''Addon '' @ quote layer) st (layered fs i layer address)))"

definition defer_alteration ::
  "string \<Rightarrow> string \<Rightarrow> string \<Rightarrow> jsval table \<Rightarrow> string \<Rightarrow> jsval table \<Rightarrow> pending_alteration result" where
  "defer_alteration layer raw address entry i fs =
     rbind (unknown_key ALTERATION_KEYS fs (''Alteration of '' @ quote i @ '' on '' @ quote raw @ '' in '' @ quote layer)) (\<lambda>_.
     rbind (guard (\<not> (js_truthy (prop_of entry ''when'') \<and>
                (prop_of fs ''sequence'' \<noteq> Undefined \<or> prop_of fs ''before'' \<noteq> Undefined \<or> prop_of fs ''after'' \<noteq> Undefined
                 \<or> js_truthy (prop_of fs ''remove''))))
              (''Container entry '' @ quote raw @ '' of '' @ quote layer @ '' moves or removes '' @ quote i
               @ '' under a condition; only render verbs take a condition.'')) (\<lambda>_.
       Inr \<lparr>pa_layer = layer, pa_address = address, pa_id = i, pa_alteration = fs, pa_when = condition_of (prop_of entry ''when'')\<rparr>))"

type_synonym entry_acc = "compile_state \<times> pending_alteration list \<times> pending_rule list"

definition apply_item ::
  "container_layer list \<Rightarrow> container_env \<Rightarrow> string \<Rightarrow> string \<Rightarrow> string \<Rightarrow> jsval table \<Rightarrow> entry_acc \<Rightarrow> string \<times> jsval \<Rightarrow> entry_acc result" where
  "apply_item layers env layer raw address entry acc item =
     (let (st, pending, rules) = acc; (i, v) = item
      in if i \<in> set ENTRY_KEYS then Inr acc
         else (case v of
             Obj fs \<Rightarrow>
               if obj_has fs ''content''
               then if \<not> owns_id layers layer i
                    then throw (''Addon '' @ quote layer @ '' declares child '' @ quote i @ '' of '' @ quote raw @ '' outside its namespace (\"''
                           @ layer @ ''....\").'')
                    else rbind (declare_child env layer raw address entry i fs st) (\<lambda>st'. Inr (st', pending, rules))
               else rbind (defer_alteration layer raw address entry i fs) (\<lambda>p. Inr (st, pending @ [p], rules))
           | _ \<Rightarrow> Inl (TypeError ''in'')))"

definition apply_entry ::
  "container_layer list \<Rightarrow> container_env \<Rightarrow> (string \<Rightarrow> string result) \<Rightarrow> string \<Rightarrow> entry_acc \<Rightarrow> string \<times> jsval table \<Rightarrow> entry_acc result" where
  "apply_entry layers env canonicalizeModel layer acc e =
     (let (raw, entry) = e; (st, pending, rules) = acc
      in rbind (resolveAddress env canonicalizeModel layer raw) (\<lambda>address.
         rbind (validate_container_entry layer raw entry) (\<lambda>_.
         rbind (guard (prop_of entry ''unique'' = Undefined \<and> prop_of entry ''models'' = Undefined
                       \<or> map_option dc_owner (map_of (ce_declared env) address) = Some layer)
                  (''Addon '' @ quote layer @ '' sets unique or models on container '' @ quote raw @ '' it does not own.'')) (\<lambda>_.
         rbind (guard (prop_of entry ''force'' = Undefined
                       \<or> layer = DEPLOYMENT_LAYER_ID \<and> prop_of entry ''force'' = Bool True \<and> js_truthy (prop_of entry ''only''))
                  (''Container entry '' @ quote raw @ '' of '' @ quote layer @ '': only the deployment forces, with force: true beside an only.'')) (\<lambda>_.
           fold_res (apply_item layers env layer raw address entry)
             (st, pending,
              if js_truthy (prop_of entry ''only'') \<or> js_truthy (prop_of entry ''except'')
              then rules @ [\<lparr>pr_layer = layer, pr_address = address, pr_entry = entry\<rparr>] else rules) entry)))))"

definition apply_layer ::
  "container_layer list \<Rightarrow> container_env \<Rightarrow> (string \<Rightarrow> string result) \<Rightarrow> entry_acc \<Rightarrow> container_layer \<Rightarrow> entry_acc result" where
  "apply_layer layers env canonicalizeModel acc layer =
     rbind (entriesOf layer) (\<lambda>entries. fold_res (apply_entry layers env canonicalizeModel (ly_id layer)) acc entries)"


section \<open>Alterations\<close>

definition rankOf :: "ancestry \<Rightarrow> string \<Rightarrow> nat" where
  "rankOf ancestors layer = (case map_of ancestors layer of Some s \<Rightarrow> card s | None \<Rightarrow> 0)"

definition addRule :: "string \<Rightarrow> container_rule \<Rightarrow> compile_state \<Rightarrow> compile_state" where
  "addRule address rule st = st\<lparr>st_rules := map_put address (or_else (map_of (st_rules st) address) [] @ [rule]) (st_rules st)\<rparr>"

definition dependentsOf :: "container_layer list \<Rightarrow> ancestry \<Rightarrow> string \<Rightarrow> string list" where
  "dependentsOf layers ancestors layer = map ly_id (filter (\<lambda>other. has_ancestor ancestors (ly_id other) layer) layers)"

definition targetsOf :: "container_env \<Rightarrow> compile_state \<Rightarrow> string \<Rightarrow> string \<Rightarrow> string \<Rightarrow> nat list result" where
  "targetsOf env st layer address i =
     (let family = familyOf env address; all = child_refs st family i; at' = (\<lambda>a. filter (\<lambda>r. cc_address (st_cells st ! r) = a) all)
      in if address = family then Inr all
         else if at' address \<noteq> [] then Inr (at' address)
         else if at' family \<noteq> [] then Inr (at' family)
         else if length all < 2 then Inr all
         else throw (''Addon '' @ quote layer @ '' alters child '' @ quote i @ '' at '' @ quote address @ '', which ''
                @ js_join '' and '' (map (\<lambda>r. quote (cc_address (st_cells st ! r))) all) @ '' declare; alter it at one of them.''))"

definition child_error :: "string \<Rightarrow> string \<Rightarrow> string" where
  "child_error i address = ''child '' @ quote i @ '' of container '' @ quote address"

definition may_alter :: "ancestry \<Rightarrow> string \<Rightarrow> string \<Rightarrow> string \<Rightarrow> unit result" where
  "may_alter ancestors layer owner what =
     (if owner \<noteq> FRAMEWORK then assertMayAlter ancestors layer owner what ''alters'' else Inr ())"

definition set_position :: "string \<Rightarrow> jsval \<Rightarrow> layered_child \<Rightarrow> layered_child" where
  "set_position field v child =
     (if field = ''sequence'' then child\<lparr>pos_sequence := number_of v\<rparr>
      else if field = ''before'' then child\<lparr>pos_before := string_value v\<rparr>
      else child\<lparr>pos_after := string_value v\<rparr>)"

definition alter_position ::
  "ancestry \<Rightarrow> pending_alteration \<Rightarrow> layered_child \<Rightarrow> string \<Rightarrow> layered_child result" where
  "alter_position ancestors p child field =
     (let v = prop_of (pa_alteration p) field; previous = map_of (lc_setBy child) field
      in if v = Undefined then Inr child
         else if cc_address child \<noteq> pa_address p
         then throw (''Addon '' @ quote (pa_layer p) @ '' positions child '' @ quote (pa_id p) @ '' at '' @ quote (pa_address p)
                @ ''; position it at '' @ quote (cc_address child) @ ''.'')
         else rbind (overridesField ancestors (if previous = Some FRAMEWORK then None else previous) (pa_layer p)
                       (''child '' @ quote (pa_id p) @ '' of '' @ quote (pa_address p) @ '' '' @ field)) (\<lambda>wins.
                Inr (if wins then (set_position field v child)\<lparr>lc_setBy := obj_put field (pa_layer p) (lc_setBy child)\<rparr> else child)))"

definition remove_child :: "container_env \<Rightarrow> string \<Rightarrow> nat \<Rightarrow> compile_state \<Rightarrow> compile_state" where
  "remove_child env layer ref st =
     (let child = st_cells st ! ref; i = pos_id child; family = familyOf env (cc_address child);
          rest = filter (\<lambda>other. other \<noteq> ref) (child_refs st family i); key = childKey (cc_address child) i
      in st\<lparr>st_children := obj_del key (st_children st),
            st_families := map_put family
              (if rest \<noteq> [] then map_put i rest (family_members st family) else obj_del i (family_members st family)) (st_families st),
            st_removed := map_put key \<lparr>rm_address = cc_address child, rm_id = i, rm_by = layer, rb_owner = cc_owner child\<rparr> (st_removed st)\<rparr>)"

definition alter_child :: "container_env \<Rightarrow> ancestry \<Rightarrow> pending_alteration \<Rightarrow> compile_state \<Rightarrow> nat \<Rightarrow> compile_state result" where
  "alter_child env ancestors p st ref =
     rbind (may_alter ancestors (pa_layer p) (cc_owner (st_cells st ! ref)) (child_error (pa_id p) (pa_address p))) (\<lambda>_.
     rbind (fold_res (alter_position ancestors p) (st_cells st ! ref) [''sequence'', ''before'', ''after'']) (\<lambda>child.
       let st' = st\<lparr>st_cells := (st_cells st)[ref := child]\<rparr>
       in Inr (if js_truthy (prop_of (pa_alteration p) ''remove'') then remove_child env (pa_layer p) ref st' else st')))"

text \<open>An alteration that reaches no child: removing again is accepted, anything else fails.\<close>

definition alter_missing :: "container_env \<Rightarrow> ancestry \<Rightarrow> compile_state \<Rightarrow> pending_alteration \<Rightarrow> unit result" where
  "alter_missing env ancestors st p =
     (case find (\<lambda>r. rm_id r = pa_id p \<and> familyOf env (rm_address r) = familyOf env (pa_address p)) (map snd (st_removed st)) of
        Some gone \<Rightarrow>
          rbind (may_alter ancestors (pa_layer p) (rb_owner gone) (child_error (pa_id p) (pa_address p))) (\<lambda>_.
            guard (js_truthy (prop_of (pa_alteration p) ''remove''))
              (''Addon '' @ quote (pa_layer p) @ '' alters '' @ child_error (pa_id p) (pa_address p) @ '', which '' @ quote (rm_by gone) @ '' removed.''))
      | None \<Rightarrow> throw (''Addon '' @ quote (pa_layer p) @ '' alters unknown '' @ child_error (pa_id p) (pa_address p) @ ''.''))"

definition visibility_rule :: "ancestry \<Rightarrow> pending_alteration \<Rightarrow> container_rule" where
  "visibility_rule ancestors p =
     (let hide = js_truthy (prop_of (pa_alteration p) ''hide'')
      in \<lparr>cr_layer = pa_layer p, cr_rank = rankOf ancestors (pa_layer p), cr_when = pa_when p, cr_only = None, cr_except = None,
          cr_hide = (if hide then Some [pa_id p] else None), cr_show = (if hide then None else Some [pa_id p]),
          cr_exempt = [], cr_force = False\<rparr>)"

definition apply_pending :: "container_env \<Rightarrow> ancestry \<Rightarrow> compile_state \<Rightarrow> pending_alteration \<Rightarrow> compile_state result" where
  "apply_pending env ancestors st p =
     rbind (targetsOf env st (pa_layer p) (pa_address p) (pa_id p)) (\<lambda>targets.
       if targets = [] then rbind (alter_missing env ancestors st p) (\<lambda>_. Inr st)
       else rbind (fold_res (alter_child env ancestors p) st targets) (\<lambda>st'.
              Inr (if prop_of (pa_alteration p) ''hide'' \<noteq> Undefined
                   then addRule (pa_address p) (visibility_rule ancestors p) st' else st')))"

section \<open>Narrowing rules\<close>

definition family_refs :: "compile_state \<Rightarrow> string \<Rightarrow> nat list" where
  "family_refs st family = concat (map snd (family_members st family))"

definition known_ids :: "compile_state \<Rightarrow> string \<Rightarrow> string set" where
  "known_ids st family =
     set (concat (map (\<lambda>r. pos_id (st_cells st ! r) # (case cc_variant (st_cells st ! r) of Some v \<Rightarrow> [va_of v] | None \<Rightarrow> []))
       (family_refs st family)))"

definition check_narrowed :: "bool \<Rightarrow> string set \<Rightarrow> string \<Rightarrow> string \<Rightarrow> compile_state \<Rightarrow> string \<Rightarrow> compile_state result" where
  "check_narrowed extras ids layer address st i =
     (let unknown = ''Addon '' @ quote layer @ '' narrows container '' @ quote address @ '' to unknown child '' @ quote i
      in if i \<in> ids then Inr st
         else if \<not> extras then throw (unknown @ ''.'')
         else Inr (st\<lparr>st_diagnostics := st_diagnostics st @ [unknown @ '', unless a page adds it.'']\<rparr>))"

definition apply_rule :: "container_layer list \<Rightarrow> container_env \<Rightarrow> ancestry \<Rightarrow> compile_state \<Rightarrow> pending_rule \<Rightarrow> compile_state result" where
  "apply_rule layers env ancestors st p =
     (let family = familyOf env (pr_address p); declared = map_of (ce_declared env) family; entry = pr_entry p;
          only = id_list (prop_of entry ''only''); except' = id_list (prop_of entry ''except'')
      in rbind (may_alter ancestors (pr_layer p) (case declared of Some d \<Rightarrow> dc_owner d | None \<Rightarrow> FRAMEWORK)
                  (''container '' @ quote (pr_address p))) (\<lambda>_.
         rbind (fold_res (check_narrowed (map_option dc_extras declared = Some True) (known_ids st family) (pr_layer p) (pr_address p))
                  st (or_else only [] @ or_else except' [])) (\<lambda>st'.
           Inr (addRule (pr_address p)
             \<lparr>cr_layer = pr_layer p, cr_rank = rankOf ancestors (pr_layer p), cr_when = condition_of (prop_of entry ''when''),
              cr_only = only, cr_except = except', cr_hide = None, cr_show = None,
              cr_exempt = dependentsOf layers ancestors (pr_layer p), cr_force = js_truthy (prop_of entry ''force'')\<rparr> st'))))"

section \<open>Final checks\<close>

definition check_member ::
  "string \<Rightarrow> (string \<times> nat list) list \<Rightarrow> string list \<Rightarrow> layered_child \<Rightarrow> string list result" where
  "check_member family members diagnostics child =
     rbind (case cc_variant child of
              Some v \<Rightarrow> guard (map_of members (va_of v) \<noteq> None)
                (''Child '' @ quote (pos_id child) @ '' of '' @ quote (cc_address child) @ '' is a variant of unknown child '' @ quote (va_of v) @ ''.'')
            | None \<Rightarrow> Inr ()) (\<lambda>_.
       Inr (case (case pos_before child of Some b \<Rightarrow> Some b | None \<Rightarrow> pos_after child) of
              Some anchor \<Rightarrow>
                if map_of members anchor = None
                then diagnostics @ [''Child '' @ quote (pos_id child) @ '' of '' @ quote (cc_address child) @ '' positions itself against ''
                       @ quote anchor @ '', which '' @ quote family @ '' does not hold.'']
                else diagnostics
            | None \<Rightarrow> diagnostics))"

definition rendered_groups :: "container_env \<Rightarrow> string \<Rightarrow> layered_child list \<Rightarrow> layered_child list list" where
  "rendered_groups env family all =
     (let models = filter (\<lambda>address. address \<noteq> family) (distinct_first (map cc_address all))
      in if models \<noteq> [] then map (\<lambda>model. filter (\<lambda>child. meets env (cc_address child) model) all) models else [all])"

definition check_variant_key :: "string \<Rightarrow> string table \<Rightarrow> layered_child \<Rightarrow> string table result" where
  "check_variant_key where' variantKeys child =
     (case cc_variant child of
        None \<Rightarrow> Inr variantKeys
      | Some v \<Rightarrow>
          (let key = va_of v @ [char_of (0 :: nat)] @ va_impl v
           in case map_of variantKeys key of
                Some other \<Rightarrow> throw (''Children '' @ quote other @ '' and '' @ quote (pos_id child) @ '' of '' @ quote where'
                  @ '' are both variants of '' @ quote (va_of v) @ '' for impl '' @ quote (va_impl v) @ ''.'')
              | None \<Rightarrow> Inr (map_put key (pos_id child) variantKeys)))"

definition check_unique_key :: "string \<Rightarrow> string table \<Rightarrow> layered_child \<Rightarrow> string table result" where
  "check_unique_key where' ks child =
     (case cc_key child of
        None \<Rightarrow> throw (''Child '' @ quote (pos_id child) @ '' of '' @ quote (cc_address child)
                  @ '' needs a key: the container renders one child per key.'')
      | Some key \<Rightarrow>
          (case map_of ks key of
             Some other \<Rightarrow> throw (''Children '' @ quote other @ '' and '' @ quote (pos_id child) @ '' of '' @ quote where'
               @ '' share key '' @ quote key @ ''.'')
           | None \<Rightarrow> Inr (map_put key (pos_id child) ks)))"

definition check_group :: "container_env \<Rightarrow> string \<Rightarrow> layered_child list \<Rightarrow> unit result" where
  "check_group env family group' =
     (let where' = (case find (\<lambda>child. cc_address child \<noteq> family) group' of Some c \<Rightarrow> cc_address c | None \<Rightarrow> family)
      in rbind (fold_res (check_variant_key where') [] group') (\<lambda>_.
         rbind (positionSiblings (orderById pos_id group') (''Children of '' @ quote where')) (\<lambda>_.
           if map_option dc_unique (map_of (ce_declared env) family) = Some (Str ''key'')
           then rbind (fold_res (check_unique_key where') [] group') (\<lambda>_. Inr ())
           else Inr ())))"

definition check_family ::
  "container_env \<Rightarrow> layered_child list \<Rightarrow> string list \<Rightarrow> string \<times> (string \<times> nat list) list \<Rightarrow> string list result" where
  "check_family env cells diagnostics fm =
     (let (family, members) = fm; all = map ((!) cells) (concat (map snd members))
      in rbind (fold_res (check_member family members) diagnostics all) (\<lambda>diagnostics'.
         rbind (each_res (check_group env family) (rendered_groups env family all)) (\<lambda>_. Inr diagnostics')))"

definition compose :: "container_env \<Rightarrow> compile_state \<Rightarrow> string list \<Rightarrow> composed_containers" where
  "compose env st diagnostics =
     (let live = map (\<lambda>(_, r). st_cells st ! r) (st_children st)
      in \<lparr>co_declared = ce_declared env,
          co_children = foldl add_composed [] (map container_child.truncate live),
          co_rules = obj_of (st_rules st),
          co_removed = map (\<lambda>(_, r). removed_child.truncate r) (st_removed st),
          co_provenance = obj_of (map (\<lambda>child. (childKey (cc_address child) (pos_id child), lc_setBy child)) live),
          co_diagnostics = diagnostics\<rparr>)"

definition empty_state :: compile_state where
  "empty_state = \<lparr>st_cells = [], st_children = [], st_families = [], st_rules = [], st_removed = [], st_diagnostics = []\<rparr>"

definition layer_children ::
  "container_layer list \<Rightarrow> core_container list \<Rightarrow> (string \<Rightarrow> string result) \<Rightarrow> container_env \<Rightarrow> ancestry \<Rightarrow> compile_state result" where
  "layer_children layers core canonicalizeModel env ancestors =
     rbind (fold_res (add_core env) empty_state core) (\<lambda>st.
     rbind (fold_res (apply_layer layers env canonicalizeModel) (st, [], []) layers) (\<lambda>(st, pending, rules).
     rbind (fold_res (apply_pending env ancestors) st pending) (\<lambda>st.
       fold_res (apply_rule layers env ancestors) st rules)))"

definition compileContainers ::
  "container_layer list \<Rightarrow> core_container list \<Rightarrow> (string \<Rightarrow> string result) \<Rightarrow> composed_containers result" where
  "compileContainers layers core canonicalizeModel =
     rbind (layerAncestry layers) (\<lambda>ancestors.
     rbind (declare_containers layers core) (\<lambda>env.
     rbind (layer_children layers core canonicalizeModel env ancestors) (\<lambda>st.
     rbind (fold_res (check_family env (st_cells st)) (st_diagnostics st) (st_families st)) (\<lambda>diagnostics.
       Inr (compose env st diagnostics)))))"


end
