(* ===== verification/ContainerClaims.thy ===== *)
theory ContainerClaims
  imports ContainerFacts ContainerCompile "HOL-Library.Code_Target_Numeral"
begin

text \<open>
  The composition and the page together: the compiler keeps at most one child per id among those a
  page renders together, so the page of one model loses none of them; and the children a page shows
  for a row are exactly those its rules, its session and its row admit.
\<close>

section \<open>Kinds\<close>

definition kinds_ok :: "container_env \<Rightarrow> bool" where
  "kinds_ok env \<longleftrightarrow>
     (\<forall>a d. map_of (ce_declared env) a = Some d \<longrightarrow> dc_models d \<longrightarrow>
        (\<exists>name. containerName a = Inr name \<and> map_of (ce_kinds env) name = Some a))"

lemma registerKind_put:
  assumes "registerKind name address env = Inr env'"
  shows "env' = env\<lparr>ce_kinds := map_put name address (ce_kinds env)\<rparr> \<and>
         (map_of (ce_kinds env) name = None \<or> map_of (ce_kinds env) name = Some address)"
  using assms by (auto simp: registerKind_def throw_def split: option.splits if_splits)

lemma kinds_ok_declare:
  assumes ok: "kinds_ok env" and name: "dc_models d \<Longrightarrow> containerName a = Inr name"
    and env': "(if dc_models d then registerKind name a (env\<lparr>ce_declared := obj_put a d (ce_declared env)\<rparr>)
                else Inr (env\<lparr>ce_declared := obj_put a d (ce_declared env)\<rparr>)) = Inr env'"
  shows "kinds_ok env'"
proof (cases "dc_models d")
  case True
  with env' have "registerKind name a (env\<lparr>ce_declared := obj_put a d (ce_declared env)\<rparr>) = Inr env'" by simp
  from registerKind_put[OF this] have put: "ce_declared env' = obj_put a d (ce_declared env)" "ce_kinds env' = map_put name a (ce_kinds env)"
    and free: "map_of (ce_kinds env) name = None \<or> map_of (ce_kinds env) name = Some a" by auto
  show ?thesis unfolding kinds_ok_def
  proof (intro allI impI)
    fix b d'
    assume b: "map_of (ce_declared env') b = Some d'" "dc_models d'"
    show "\<exists>n. containerName b = Inr n \<and> map_of (ce_kinds env') n = Some b"
    proof (cases "b = a")
      case True
      with name[OF \<open>dc_models d\<close>] put show ?thesis by simp
    next
      case False
      with b put have "map_of (ce_declared env) b = Some d'" by simp
      with ok b obtain n where n: "containerName b = Inr n" "map_of (ce_kinds env) n = Some b" by (auto simp: kinds_ok_def)
      with free False have "n \<noteq> name" by auto
      with n put show ?thesis by simp
    qed
  qed
next
  case False
  with env' have "ce_declared env' = obj_put a d (ce_declared env)" "ce_kinds env' = ce_kinds env" by auto
  with ok False show ?thesis unfolding kinds_ok_def by (metis map_of_obj_put option.inject)
qed

lemma kinds_ok_core: "kinds_ok env \<Longrightarrow> declare_core env container = Inr env' \<Longrightarrow> kinds_ok env'"
  by (rule kinds_ok_declare[where d = "core_declared container" and a = "kc_address container"
        and name = "case containerName (kc_address container) of Inr n \<Rightarrow> n | Inl _ \<Rightarrow> []"])
     (auto simp: declare_core_def core_declared_def Let_def throw_def rbind_Inr_iff split: if_splits sum.splits)

lemma kinds_ok_own: "kinds_ok env \<Longrightarrow> declare_own layers layer env e = Inr env' \<Longrightarrow> kinds_ok env'"
  by (auto simp: declare_own_def rbind_Inr_iff Let_def throw_def split: option.splits if_split_asm
           intro!: kinds_ok_declare[where env = env and d = "own_declared (map_of (ce_declared env) (fst e)) layer (snd e)" and a = "fst e"])

lemma kinds_ok_containers: "declare_containers layers core = Inr env \<Longrightarrow> kinds_ok env"
proof -
  assume run: "declare_containers layers core = Inr env"
  obtain env1 env2 where "fold_res declare_core \<lparr>ce_declared = [], ce_kinds = []\<rparr> core = Inr env1"
    and layers: "fold_res (declare_layer_containers layers) env1 layers = Inr env2" and env: "env2 = env"
    using run by (auto simp: declare_containers_def rbind_Inr_iff)
  then have "kinds_ok env1"
    by (elim fold_res_invariant[where P = kinds_ok]) (simp add: kinds_ok_def, erule kinds_ok_core)
  with layers show ?thesis unfolding env[symmetric]
  proof (rule fold_res_invariant[where P = kinds_ok])
    fix layer a b
    assume "kinds_ok a" "declare_layer_containers layers a layer = Inr b"
    then show "kinds_ok b"
      by (auto simp: declare_layer_containers_def rbind_Inr_iff intro: kinds_ok_own elim: fold_res_invariant[where P = kinds_ok])
  qed
qed

section \<open>The two indexes of the children\<close>

definition key_of :: "layered_child \<Rightarrow> string \<times> string" where
  "key_of child = (pos_id child, cc_address child)"

definition indexed :: "container_env \<Rightarrow> compile_state \<Rightarrow> bool" where
  "indexed env st \<longleftrightarrow>
     distinct (keys (st_children st)) \<and>
     (\<forall>k r. map_of (st_children st) k = Some r \<longrightarrow>
        k = childKey (cc_address (st_cells st ! r)) (pos_id (st_cells st ! r)) \<and>
        r \<in> set (child_refs st (familyOf env (cc_address (st_cells st ! r))) (pos_id (st_cells st ! r))))"

text \<open>A family holds under an id only children of that id, and none two that render together.\<close>

definition families_apart :: "container_env \<Rightarrow> compile_state \<Rightarrow> bool" where
  "families_apart env st \<longleftrightarrow>
     (\<forall>family i. \<forall>r \<in> set (child_refs st family i).
        r < length (st_cells st) \<and> pos_id (st_cells st ! r) = i \<and> familyOf env (cc_address (st_cells st ! r)) = family \<and>
        (\<forall>r' \<in> set (child_refs st family i). r' \<noteq> r \<longrightarrow>
           \<not> meets env (cc_address (st_cells st ! r)) (cc_address (st_cells st ! r'))))"

definition children_ok :: "container_env \<Rightarrow> compile_state \<Rightarrow> bool" where
  "children_ok env st \<longleftrightarrow> indexed env st \<and> families_apart env st"

lemma meets_sym: "meets env a b = meets env b a"
  by (auto simp: meets_def)

lemma child_refs_put:
  "child_refs (st\<lparr>st_cells := cells, st_families := map_put family (map_put i refs (family_members st family)) (st_families st), st_children := ch\<rparr>) f j =
   (if f = family \<and> j = i then refs else child_refs st f j)"
  by (simp add: child_refs_def family_members_def or_else_def)

lemma find_None_all: "find P xs = None \<Longrightarrow> x \<in> set xs \<Longrightarrow> \<not> P x"
  by (auto simp: find_None_iff)

text \<open>What the indexes see of the state.\<close>

lemma children_ok_cong:
  assumes "children_ok env st" "st_children st' = st_children st" "st_families st' = st_families st"
    and "length (st_cells st') = length (st_cells st)"
    and "\<And>r. r < length (st_cells st) \<Longrightarrow> key_of (st_cells st' ! r) = key_of (st_cells st ! r)"
  shows "children_ok env st'"
proof -
  have refs: "child_refs st' f i = child_refs st f i" for f i
    using assms(3) by (simp add: child_refs_def family_members_def)
  have same: "pos_id (st_cells st' ! r) = pos_id (st_cells st ! r)" "cc_address (st_cells st' ! r) = cc_address (st_cells st ! r)"
    if "r < length (st_cells st)" for r
    using assms(5)[OF that] by (simp_all add: key_of_def)
  have bound: "r < length (st_cells st)" if "r \<in> set (child_refs st f i)" for r f i
    using assms(1) that by (auto simp: children_ok_def families_apart_def)
  have "indexed env st'"
    unfolding indexed_def refs assms(2)
  proof (intro conjI allI impI)
    show "distinct (keys (st_children st))" using assms(1) by (simp add: children_ok_def indexed_def)
    fix k r
    assume "map_of (st_children st) k = Some r"
    with assms(1) have r: "k = childKey (cc_address (st_cells st ! r)) (pos_id (st_cells st ! r))"
      "r \<in> set (child_refs st (familyOf env (cc_address (st_cells st ! r))) (pos_id (st_cells st ! r)))"
      by (auto simp: children_ok_def indexed_def)
    note s = same[OF bound[OF r(2)]]
    show "k = childKey (cc_address (st_cells st' ! r)) (pos_id (st_cells st' ! r))" using r(1) s by simp
    show "r \<in> set (child_refs st (familyOf env (cc_address (st_cells st' ! r))) (pos_id (st_cells st' ! r)))" using r(2) s by simp
  qed
  moreover have "families_apart env st'"
    unfolding families_apart_def refs assms(4)
    using assms(1) same bound by (auto simp: children_ok_def families_apart_def)
  ultimately show ?thesis by (simp add: children_ok_def)
qed

lemma families_apartD:
  assumes "families_apart env st" "r \<in> set (child_refs st f i)"
  shows "r < length (st_cells st)" "pos_id (st_cells st ! r) = i" "familyOf env (cc_address (st_cells st ! r)) = f"
    "r' \<in> set (child_refs st f i) \<Longrightarrow> r' \<noteq> r \<Longrightarrow> \<not> meets env (cc_address (st_cells st ! r)) (cc_address (st_cells st ! r'))"
  using assms unfolding families_apart_def by blast+

lemma indexedD:
  assumes "indexed env st" "map_of (st_children st) k = Some r"
  shows "k = childKey (cc_address (st_cells st ! r)) (pos_id (st_cells st ! r))"
    "r \<in> set (child_refs st (familyOf env (cc_address (st_cells st ! r))) (pos_id (st_cells st ! r)))"
  using assms unfolding indexed_def by blast+

text \<open>The state after a child is added.\<close>

definition added :: "container_env \<Rightarrow> compile_state \<Rightarrow> layered_child \<Rightarrow> compile_state" where
  "added env st child =
     (let family = familyOf env (cc_address child); ref = length (st_cells st)
      in st\<lparr>st_cells := st_cells st @ [child],
            st_families := map_put family (map_put (pos_id child) (child_refs st family (pos_id child) @ [ref]) (family_members st family)) (st_families st),
            st_children := map_put (childKey (cc_address child) (pos_id child)) ref (st_children st)\<rparr>)"

lemma addChild_added:
  assumes "addChild env where' st child = Inr st'"
  shows "st' = added env st child \<and>
    (\<forall>other \<in> set (child_refs st (familyOf env (cc_address child)) (pos_id child)).
       \<not> meets env (cc_address (st_cells st ! other)) (cc_address child))"
  using assms by (auto simp: addChild_def added_def Let_def throw_def split: option.splits if_splits dest: find_None_all)

lemma added_refs:
  "child_refs (added env st child) f i =
     (if f = familyOf env (cc_address child) \<and> i = pos_id child then child_refs st f i @ [length (st_cells st)] else child_refs st f i)"
  by (auto simp: added_def Let_def child_refs_put)

lemma added_cells [simp]:
  "st_cells (added env st child) = st_cells st @ [child]"
  "map_of (st_children (added env st child)) k =
     (if k = childKey (cc_address child) (pos_id child) then Some (length (st_cells st)) else map_of (st_children st) k)"
  by (simp_all add: added_def Let_def)

lemma added_indexed:
  assumes "indexed env st" "families_apart env st"
  shows "indexed env (added env st child)"
  unfolding indexed_def
proof (intro conjI)
  show "distinct (keys (st_children (added env st child)))"
    using assms by (simp add: added_def Let_def indexed_def distinct_map_put)
  show "\<forall>k r. map_of (st_children (added env st child)) k = Some r \<longrightarrow>
      k = childKey (cc_address (st_cells (added env st child) ! r)) (pos_id (st_cells (added env st child) ! r)) \<and>
      r \<in> set (child_refs (added env st child) (familyOf env (cc_address (st_cells (added env st child) ! r)))
                 (pos_id (st_cells (added env st child) ! r)))"
  proof (intro allI impI)
    fix k r
    assume k: "map_of (st_children (added env st child)) k = Some r"
    show "k = childKey (cc_address (st_cells (added env st child) ! r)) (pos_id (st_cells (added env st child) ! r)) \<and>
      r \<in> set (child_refs (added env st child) (familyOf env (cc_address (st_cells (added env st child) ! r)))
                 (pos_id (st_cells (added env st child) ! r)))"
    proof (cases "k = childKey (cc_address child) (pos_id child)")
      case True
      with k have r: "r = length (st_cells st)" by simp
      show ?thesis unfolding r using True by (simp add: added_refs)
    next
      case False
      with k have old: "map_of (st_children st) k = Some r" by simp
      note r = indexedD[OF assms(1) old]
      from families_apartD(1)[OF assms(2) r(2)] r show ?thesis by (auto simp: added_refs nth_append)
    qed
  qed
qed

lemma added_apart:
  assumes ok: "families_apart env st"
    and free: "\<forall>other \<in> set (child_refs st (familyOf env (cc_address child)) (pos_id child)).
       \<not> meets env (cc_address (st_cells st ! other)) (cc_address child)"
  shows "families_apart env (added env st child)"
proof -
  let ?new = "length (st_cells st)"
  have new: "f = familyOf env (cc_address child) \<and> i = pos_id child" if "?new \<in> set (child_refs (added env st child) f i)" for f i
    using that families_apartD(1)[OF ok, of ?new f i] by (auto simp: added_refs split: if_splits)
  have old: "r \<in> set (child_refs st f i)" if "r \<in> set (child_refs (added env st child) f i)" "r \<noteq> ?new" for r f i
    using that by (auto simp: added_refs split: if_splits)
  have member: "r < length (st_cells st @ [child]) \<and> pos_id ((st_cells st @ [child]) ! r) = i \<and> familyOf env (cc_address ((st_cells st @ [child]) ! r)) = f"
    if "r \<in> set (child_refs (added env st child) f i)" for r f i
  proof (cases "r = ?new")
    case True
    with new[of f i] that show ?thesis by simp
  next
    case False
    from families_apartD[OF ok old[OF that False]] show ?thesis by (simp add: nth_append)
  qed
  have "\<not> meets env (cc_address ((st_cells st @ [child]) ! r)) (cc_address ((st_cells st @ [child]) ! r'))"
    if "r \<in> set (child_refs (added env st child) f i)" "r' \<in> set (child_refs (added env st child) f i)" "r' \<noteq> r" for r r' f i
  proof -
    consider "r = ?new" | "r' = ?new" | "r \<noteq> ?new" "r' \<noteq> ?new" by blast
    then show ?thesis
    proof cases
      case 1
      with that new[of f i] old[of r' f i] free families_apartD(1)[OF ok, of r' f i] show ?thesis
        by (simp add: nth_append meets_sym)
    next
      case 2
      with that new[of f i] old[of r f i] free families_apartD(1)[OF ok, of r f i] show ?thesis by (simp add: nth_append)
    next
      case 3
      from families_apartD[OF ok old[OF that(1) 3(1)]] families_apartD(1)[OF ok old[OF that(2) 3(2)]] old[OF that(2) 3(2)] that(3)
      show ?thesis by (simp add: nth_append)
    qed
  qed
  with member show ?thesis unfolding families_apart_def added_cells by blast
qed

lemma addChild_ok:
  assumes "children_ok env st" "addChild env where' st child = Inr st'"
  shows "children_ok env st'"
  using addChild_added[OF assms(2)] added_indexed[of env st child] added_apart[of env st child] assms(1)
  unfolding children_ok_def by simp

lemma children_ok_empty: "children_ok env empty_state"
  by (simp add: children_ok_def indexed_def families_apart_def empty_state_def child_refs_def family_members_def or_else_def)

lemma add_core_ok: "children_ok env st \<Longrightarrow> add_core env st container = Inr st' \<Longrightarrow> children_ok env st'"
  unfolding add_core_def by (erule fold_res_invariant[where P = "children_ok env"]) (auto intro: addChild_ok)

section \<open>Entries and alterations keep the indexes\<close>

lemma apply_item_ok:
  assumes "children_ok env (fst acc)" "apply_item layers env layer raw address entry acc item = Inr acc'"
  shows "children_ok env (fst acc')"
proof -
  obtain st pending rules i v where [simp]: "acc = (st, pending, rules)" "item = (i, v)" by (metis prod.exhaust)
  show ?thesis
  proof (cases "i \<in> set ENTRY_KEYS")
    case True
    with assms show ?thesis by (auto simp: apply_item_def)
  next
    case False
    then obtain fs where v: "v = Obj fs" using assms(2) by (auto simp: apply_item_def split: jsval.splits)
    show ?thesis
    proof (cases "obj_has fs ''content''")
      case True
      with assms False v obtain st' where "declare_child env layer raw address entry i fs st = Inr st'" "fst acc' = st'"
        by (auto simp: apply_item_def throw_def rbind_Inr_iff split: if_splits)
      with assms(1) show ?thesis by (auto simp: declare_child_def rbind_Inr_iff intro: addChild_ok)
    next
      case no: False
      with assms False v show ?thesis by (auto simp: apply_item_def rbind_Inr_iff)
    qed
  qed
qed

lemma apply_entry_ok:
  assumes "children_ok env (fst acc)" "apply_entry layers env canonicalizeModel layer acc e = Inr acc'"
  shows "children_ok env (fst acc')"
proof -
  obtain st pending rules raw entry where [simp]: "acc = (st, pending, rules)" "e = (raw, entry)" by (metis prod.exhaust)
  obtain address rules' where "fold_res (apply_item layers env layer raw address entry) (st, pending, rules') entry = Inr acc'"
    using assms(2) by (auto simp: apply_entry_def rbind_Inr_iff)
  then show ?thesis
    by (rule fold_res_invariant[where P = "\<lambda>acc. children_ok env (fst acc)"]) (use assms(1) apply_item_ok in auto)
qed

lemma apply_layer_ok:
  assumes "children_ok env (fst acc)" "apply_layer layers env canonicalizeModel acc layer = Inr acc'"
  shows "children_ok env (fst acc')"
proof -
  obtain entries where "fold_res (apply_entry layers env canonicalizeModel (ly_id layer)) acc entries = Inr acc'"
    using assms(2) by (auto simp: apply_layer_def rbind_Inr_iff)
  then show ?thesis
    by (rule fold_res_invariant[where P = "\<lambda>acc. children_ok env (fst acc)"]) (use assms(1) apply_entry_ok in auto)
qed


lemma alter_position_key: "alter_position ancestors p child field = Inr child' \<Longrightarrow> key_of child' = key_of child"
  by (auto simp: alter_position_def Let_def throw_def rbind_Inr_iff key_of_def set_position_def split: if_splits)

lemma update_cell_ok:
  assumes "children_ok env st" "key_of child = key_of (st_cells st ! ref)"
  shows "children_ok env (st\<lparr>st_cells := (st_cells st)[ref := child]\<rparr>)"
  using assms(1)
proof (rule children_ok_cong)
  show "key_of (st_cells (st\<lparr>st_cells := (st_cells st)[ref := child]\<rparr>) ! r) = key_of (st_cells st ! r)"
    if "r < length (st_cells st)" for r
    using that assms(2) by (cases "r = ref") simp_all
qed simp_all

lemma remove_child_ok:
  assumes ok: "children_ok env st"
  shows "children_ok env (remove_child env layer ref st)"
proof -
  let ?st' = "remove_child env layer ref st"
  let ?f = "familyOf env (cc_address (st_cells st ! ref))" and ?i = "pos_id (st_cells st ! ref)"
  have refs: "child_refs ?st' f i = (if f = ?f \<and> i = ?i then filter (\<lambda>other. other \<noteq> ref) (child_refs st f i) else child_refs st f i)" for f i
    by (simp add: remove_child_def Let_def child_refs_def family_members_def or_else_def)
  have [simp]: "st_cells ?st' = st_cells st" by (simp add: remove_child_def Let_def)
  have children: "st_children ?st' = obj_del (childKey (cc_address (st_cells st ! ref)) ?i) (st_children st)"
    by (simp add: remove_child_def Let_def)
  have "indexed env ?st'"
    unfolding indexed_def
  proof (intro conjI)
    show "distinct (keys (st_children ?st'))" unfolding children
      using ok by (simp add: children_ok_def indexed_def obj_del_def distinct_map_filter)
    show "\<forall>k r. map_of (st_children ?st') k = Some r \<longrightarrow>
        k = childKey (cc_address (st_cells ?st' ! r)) (pos_id (st_cells ?st' ! r)) \<and>
        r \<in> set (child_refs ?st' (familyOf env (cc_address (st_cells ?st' ! r))) (pos_id (st_cells ?st' ! r)))"
    proof (intro allI impI)
      fix k r
      assume "map_of (st_children ?st') k = Some r"
      then have k: "map_of (st_children st) k = Some r" "k \<noteq> childKey (cc_address (st_cells st ! ref)) ?i"
        by (auto simp: children split: if_splits)
      with ok indexedD[of env st k r] have r: "k = childKey (cc_address (st_cells st ! r)) (pos_id (st_cells st ! r))"
        "r \<in> set (child_refs st (familyOf env (cc_address (st_cells st ! r))) (pos_id (st_cells st ! r)))"
        by (simp_all add: children_ok_def)
      with k(2) have "r \<noteq> ref" by auto
      with r show "k = childKey (cc_address (st_cells ?st' ! r)) (pos_id (st_cells ?st' ! r)) \<and>
        r \<in> set (child_refs ?st' (familyOf env (cc_address (st_cells ?st' ! r))) (pos_id (st_cells ?st' ! r)))"
        by (auto simp: refs)
    qed
  qed
  moreover have "families_apart env ?st'"
  proof -
    have sub: "r \<in> set (child_refs st f i)" if "r \<in> set (child_refs ?st' f i)" for r f i
      using that by (auto simp: refs split: if_splits)
    have fam: "families_apart env st" using ok by (simp add: children_ok_def)
    show ?thesis unfolding families_apart_def
    proof (intro allI ballI)
      fix f i r
      assume "r \<in> set (child_refs ?st' f i)"
      note d = families_apartD[OF fam sub[OF this]]
      show "r < length (st_cells ?st') \<and> pos_id (st_cells ?st' ! r) = i \<and> familyOf env (cc_address (st_cells ?st' ! r)) = f \<and>
        (\<forall>r' \<in> set (child_refs ?st' f i). r' \<noteq> r \<longrightarrow>
           \<not> meets env (cc_address (st_cells ?st' ! r)) (cc_address (st_cells ?st' ! r')))"
        using d(1,2,3) d(4)[OF sub] by simp
    qed
  qed
  ultimately show ?thesis by (simp add: children_ok_def)
qed

lemma alter_child_ok:
  assumes ok: "children_ok env st" and run: "alter_child env ancestors p st ref = Inr st'"
  shows "children_ok env st'"
proof -
  obtain child where child: "fold_res (alter_position ancestors p) (st_cells st ! ref) [''sequence'', ''before'', ''after''] = Inr child"
    and st': "st' = (let st1 = st\<lparr>st_cells := (st_cells st)[ref := child]\<rparr>
                     in if js_truthy (prop_of (pa_alteration p) ''remove'') then remove_child env (pa_layer p) ref st1 else st1)"
    using run unfolding alter_child_def by (auto simp: rbind_Inr_iff Let_def simp del: fold_res.simps)
  have "key_of child = key_of (st_cells st ! ref)"
    using child by (rule fold_res_invariant[where P = "\<lambda>c. key_of c = key_of (st_cells st ! ref)"]) (auto dest: alter_position_key)
  from update_cell_ok[OF ok this] show ?thesis unfolding st' Let_def by (simp add: remove_child_ok)
qed

lemma rules_ok: "children_ok env st \<Longrightarrow> children_ok env (st\<lparr>st_rules := rules\<rparr>)"
  "children_ok env st \<Longrightarrow> children_ok env (st\<lparr>st_diagnostics := ds\<rparr>)"
  by (auto elim!: children_ok_cong)

lemma apply_pending_ok:
  assumes ok: "children_ok env st" and run: "apply_pending env ancestors st p = Inr st'"
  shows "children_ok env st'"
proof -
  obtain targets where t: "targetsOf env st (pa_layer p) (pa_address p) (pa_id p) = Inr targets"
    using run by (auto simp: apply_pending_def rbind_Inr_iff)
  show ?thesis
  proof (cases "targets = []")
    case True
    with run t ok show ?thesis by (auto simp: apply_pending_def rbind_Inr_iff)
  next
    case False
    with run t obtain st1 where "fold_res (alter_child env ancestors p) st targets = Inr st1"
      and st': "st' = st1 \<or> st' = addRule (pa_address p) (visibility_rule ancestors p) st1"
      by (auto simp: apply_pending_def rbind_Inr_iff split: if_splits)
    then have "children_ok env st1"
      by (elim fold_res_invariant[where P = "children_ok env"]) (use ok alter_child_ok in auto)
    with st' show ?thesis by (auto simp: addRule_def intro: rules_ok)
  qed
qed

lemma apply_rule_ok:
  assumes ok: "children_ok env st" and run: "apply_rule layers env ancestors st p = Inr st'"
  shows "children_ok env st'"
proof -
  obtain extras ids xs st1 rule where "fold_res (check_narrowed extras ids (pr_layer p) (pr_address p)) st xs = Inr st1"
    and st': "st' = addRule (pr_address p) rule st1"
    using run by (auto simp: apply_rule_def Let_def rbind_Inr_iff)
  then have "children_ok env st1"
    by (elim fold_res_invariant[where P = "children_ok env"])
       (use ok in \<open>auto simp: check_narrowed_def Let_def throw_def intro: rules_ok split: if_splits\<close>)
  with st' show ?thesis by (auto simp: addRule_def intro: rules_ok)
qed

lemma layer_children_ok:
  assumes "layer_children layers core canonicalizeModel env ancestors = Inr st"
  shows "children_ok env st"
proof -
  obtain st1 st2 pending rules st3 where run: "fold_res (add_core env) empty_state core = Inr st1"
    "fold_res (apply_layer layers env canonicalizeModel) (st1, [], []) layers = Inr (st2, pending, rules)"
    "fold_res (apply_pending env ancestors) st2 pending = Inr st3" "fold_res (apply_rule layers env ancestors) st3 rules = Inr st"
    using assms by (auto simp: layer_children_def rbind_Inr_iff)
  have "children_ok env st1"
    using run(1) by (rule fold_res_invariant[where P = "children_ok env"]) (auto intro: children_ok_empty add_core_ok)
  then have "children_ok env (fst (st2, pending, rules))"
    using run(2) by (elim fold_res_invariant[where P = "\<lambda>acc. children_ok env (fst acc)"]) (auto intro: apply_layer_ok)
  then have "children_ok env st3"
    using run(3) by (elim fold_res_invariant[where P = "children_ok env"]) (auto intro: apply_pending_ok)
  then show ?thesis using run(4) by (elim fold_res_invariant[where P = "children_ok env"]) (auto intro: apply_rule_ok)
qed

section \<open>The page of one model\<close>

lemma add_composed_at:
  "or_else (map_of (foldl add_composed acc xs) a) [] = or_else (map_of acc a) [] @ filter (\<lambda>c. cc_address c = a) xs"
  by (induction xs arbitrary: acc) (auto simp: add_composed_def or_else_def)

lemma new_Map_id: "distinct (map fst es) \<Longrightarrow> new_Map es = es"
proof (induction es rule: rev_induct)
  case (snoc e es)
  obtain k v where e: "e = (k, v)" by (cases e)
  have "map_put k v xs = xs @ [(k, v)]" if "k \<notin> fst ` set xs" for xs
    using that by (induction xs) auto
  with snoc show ?case by (simp add: e new_Map_snoc)
qed (simp add: new_Map_def)

definition live_children :: "compile_state \<Rightarrow> layered_child list" where
  "live_children st = map (\<lambda>(_, r). st_cells st ! r) (st_children st)"

lemma live_ids:
  assumes ok: "children_ok env st"
    and meet: "\<And>a b. a \<in> A \<Longrightarrow> b \<in> A \<Longrightarrow> familyOf env a = familyOf env b \<and> meets env a b"
  shows "distinct (map pos_id (filter (\<lambda>c. cc_address c \<in> A) (live_children st)))"
proof -
  have idx: "indexed env st" and fam: "families_apart env st" using ok by (simp_all add: children_ok_def)
  have ks: "distinct (keys (st_children st))" using idx by (simp add: indexed_def)
  have same: "e = e'" if e: "e \<in> set (st_children st)" "e' \<in> set (st_children st)"
    and at_A: "cc_address (st_cells st ! snd e) \<in> A" "cc_address (st_cells st ! snd e') \<in> A"
    and i: "pos_id (st_cells st ! snd e) = pos_id (st_cells st ! snd e')" for e e'
  proof -
    have m: "map_of (st_children st) (fst e) = Some (snd e)" "map_of (st_children st) (fst e') = Some (snd e')"
      using e ks by simp_all
    note r = indexedD[OF idx m(1)] indexedD[OF idx m(2)]
    have f: "familyOf env (cc_address (st_cells st ! snd e)) = familyOf env (cc_address (st_cells st ! snd e'))"
      "meets env (cc_address (st_cells st ! snd e)) (cc_address (st_cells st ! snd e'))" using meet at_A by blast+
    have "snd e = snd e'"
      using families_apartD(4)[OF fam r(2), of "snd e'"] r(4) f i by (metis (no_types))
    then show ?thesis using r(1,3) by (simp add: prod_eq_iff)
  qed
  have "distinct (map (\<lambda>e. pos_id (st_cells st ! snd e)) (filter (\<lambda>e. cc_address (st_cells st ! snd e) \<in> A) (st_children st)))"
    using ks same by (auto simp: distinct_map inj_on_def)
  moreover have "filter (\<lambda>c. cc_address c \<in> A) (live_children st) =
      map (\<lambda>e. st_cells st ! snd e) (filter (\<lambda>e. cc_address (st_cells st ! snd e) \<in> A) (st_children st))"
    by (simp add: live_children_def filter_map comp_def case_prod_beta)
  ultimately show ?thesis by (simp add: comp_def)
qed

lemma node_name_model: "CHR ''#'' \<notin> set model \<Longrightarrow> node_name (model @ ''#'' @ name) = (model, name)"
  by (simp add: node_name_def takeWhile_append dropWhile_append)

lemma containerName_parts: "containerName a = Inr name \<Longrightarrow> snd (node_name a) = name"
  by (auto simp: containerName_def split: if_splits)

text \<open>The addresses one page merges belong to one family and render together.\<close>

lemma page_addresses:
  assumes kinds: "kinds_ok env" and declared: "map_of (ce_declared env) a = Some d"
    and composed: "co_declared composed = ce_declared env" and one: "length models \<le> 1"
    and model: "list_all (\<lambda>m. CHR ''#'' \<notin> set m \<and> m \<noteq> nodeOf a) models"
  shows "\<exists>addresses. containerAddresses composed a models = Inr addresses \<and> distinct addresses \<and>
           (\<forall>x \<in> set addresses. \<forall>y \<in> set addresses. familyOf env x = familyOf env y \<and> meets env x y)"
proof (cases "dc_models d")
  case False
  then show ?thesis using declared composed by (simp add: containerAddresses_def meets_def)
next
  case True
  then obtain name where name: "containerName a = Inr name" "map_of (ce_kinds env) name = Some a"
    using kinds declared by (auto simp: kinds_ok_def)
  have fam_a: "familyOf env a = a" using name by (simp add: familyOf_def containerName_parts or_else_def)
  show ?thesis
  proof (cases models)
    case Nil
    then show ?thesis using True declared composed name by (simp add: containerAddresses_def meets_def)
  next
    case (Cons m ms)
    with one model have m: "models = [m]" "CHR ''#'' \<notin> set m" "m \<noteq> nodeOf a" by auto
    have "familyOf env (m @ ''#'' @ name) = a" using node_name_model[OF m(2), of name] name(2) by (simp add: familyOf_def or_else_def)
    moreover have "a \<noteq> m @ ''#'' @ name"
      using node_name_model[OF m(2), of name] m(3) by (auto simp: nodeOf_def)
    ultimately show ?thesis using True declared composed name fam_a m(1) by (simp add: containerAddresses_def meets_def)
  qed
qed

lemma at_addresses_live:
  assumes "co_children composed = foldl add_composed [] (map container_child.truncate live)" "distinct addresses"
  shows "mset (at_addresses (co_children composed) addresses) =
         mset (map container_child.truncate (filter (\<lambda>c. cc_address c \<in> set addresses) live))"
  using assms(2)
proof (induction addresses)
  case Nil
  then show ?case by (simp add: at_addresses_def)
next
  case (Cons a as)
  have here: "or_else (map_of (co_children composed) a) [] = map container_child.truncate (filter (\<lambda>c. cc_address c = a) live)"
    unfolding assms(1) add_composed_at by (simp add: or_else_def filter_map comp_def container_child.truncate_def)
  have "mset (filter (\<lambda>c. cc_address c \<in> set (a # as)) live) =
      mset (filter (\<lambda>c. cc_address c = a) live) + mset (filter (\<lambda>c. cc_address c \<in> set as) live)"
    using Cons.prems by (induction live) auto
  with Cons here show ?case by (simp add: at_addresses_def)
qed

text \<open>
  C31: in a compiled composition, the page of at most one model loses no child: the container's
  addresses resolve, the children of all of them have distinct ids, and the page holds each of them
  exactly once, although it collects them by id.
\<close>

theorem page_children_complete:
  assumes "compileContainers layers core canonicalizeModel = Inr composed"
    and "map_of (co_declared composed) address \<noteq> None"
    and "length models \<le> 1" "list_all (\<lambda>m. CHR ''#'' \<notin> set m \<and> m \<noteq> nodeOf address) models"
  shows "\<exists>addresses children. containerAddresses composed address models = Inr addresses \<and>
           composedContainerChildren composed address models = Inr children \<and>
           distinct (map pos_id children) \<and> mset children = mset (at_addresses (co_children composed) addresses)"
proof -
  obtain ancestors env st diagnostics where env: "declare_containers layers core = Inr env"
    and st: "layer_children layers core canonicalizeModel env ancestors = Inr st" and composed: "composed = compose env st diagnostics"
    using assms(1) by (auto simp: compileContainers_def rbind_Inr_iff)
  have declared: "co_declared composed = ce_declared env"
    and children: "co_children composed = foldl add_composed [] (map container_child.truncate (live_children st))"
    by (simp_all add: composed compose_def Let_def live_children_def)
  obtain d where d: "map_of (ce_declared env) address = Some d" using assms(2) declared by auto
  obtain addresses where addresses: "containerAddresses composed address models = Inr addresses" "distinct addresses"
    and meet: "\<forall>x \<in> set addresses. \<forall>y \<in> set addresses. familyOf env x = familyOf env y \<and> meets env x y"
    using page_addresses[OF kinds_ok_containers[OF env] d declared assms(3,4)] by blast
  let ?all = "at_addresses (co_children composed) addresses"
  have all: "mset ?all = mset (map container_child.truncate (filter (\<lambda>c. cc_address c \<in> set addresses) (live_children st)))"
    by (rule at_addresses_live[OF children addresses(2)])
  have "distinct (map pos_id (filter (\<lambda>c. cc_address c \<in> set addresses) (live_children st)))"
    using live_ids[OF layer_children_ok[OF st], of "set addresses"] meet by blast
  then have "distinct (map pos_id (map container_child.truncate (filter (\<lambda>c. cc_address c \<in> set addresses) (live_children st))))"
    by (simp add: comp_def container_child.truncate_def)
  then have ids: "distinct (map pos_id ?all)" using all by (metis mset_eq_imp_distinct_iff mset_map)
  then have "new_Map (map (\<lambda>child. (pos_id child, child)) ?all) = map (\<lambda>child. (pos_id child, child)) ?all"
    by (intro new_Map_id) (simp add: comp_def)
  then have "composedContainerChildren composed address models = Inr (orderById pos_id ?all)"
    using d addresses(1) by (simp add: composedContainerChildren_def declared comp_def)
  with addresses(1) ids show ?thesis by (simp add: orderById_def)
qed

text \<open>
  A form whose sections two add-ons fill: the second adds a variant of a section of the first for
  records of its own model, and hides another.
\<close>

definition sample_core :: "core_container list" where
  "sample_core = [\<lparr>kc_address = ''form#sections'', kc_models = True, kc_children = None, kc_extras = False\<rparr>]"

definition sample_container_layers :: "container_layer list" where
  "sample_container_layers =
     [\<lparr>ly_id = ''base'', ly_dependsOn = None, cl_containers = Some [(''form#sections'', Obj
         [(''base.main'', Obj [(''content'', Str ''Main'')]), (''base.notes'', Obj [(''content'', Str ''Notes'')])])]\<rparr>,
      \<lparr>ly_id = ''crm'', ly_dependsOn = Some [''base''], cl_containers = Some [(''crm.Lead#sections'', Obj
         [(''base.main'', Obj [(''hide'', Bool True)]),
          (''crm.deal'', Obj [(''content'', Str ''Deal''), (''variant'', Obj [(''of'', Str ''base.notes''), (''impl'', Str ''big'')])])])]\<rparr>]"

definition sample_page :: resolve_options where
  "sample_page = \<lparr>ro_models = [''crm.Lead''], ro_scope = EMPTY_SCOPE, ro_row = None, ro_impls = [''big''], ro_extra = [],
     ro_projection = False, ro_permitted = None\<rparr>"

definition sample_composed :: composed_containers where
  "sample_composed = (case compileContainers sample_container_layers sample_core Inr of Inr c \<Rightarrow> c | Inl _ \<Rightarrow> EMPTY_CONTAINERS)"

lemma sample_compiled: "compileContainers sample_container_layers sample_core Inr = Inr sample_composed"
proof -
  have "case compileContainers sample_container_layers sample_core Inr of Inr c \<Rightarrow> True | Inl _ \<Rightarrow> False" by code_simp
  then show ?thesis by (auto simp: sample_composed_def split: sum.splits)
qed

lemma sample_declared: "map_of (co_declared sample_composed) ''form#sections'' \<noteq> None"
  unfolding sample_composed_def by code_simp

theorem page_children_complete_witness:
  "\<exists>addresses children. containerAddresses sample_composed ''form#sections'' [''crm.Lead''] = Inr addresses \<and>
     composedContainerChildren sample_composed ''form#sections'' [''crm.Lead''] = Inr children \<and>
     distinct (map pos_id children) \<and> mset children = mset (at_addresses (co_children sample_composed) addresses)"
  by (rule page_children_complete[OF sample_compiled sample_declared]) (simp_all add: nodeOf_def node_name_def)


definition sample_children :: "container_child list" where
  "sample_children = (case composedContainerChildren sample_composed ''form#sections'' [''crm.Lead''] of Inr cs \<Rightarrow> cs | Inl _ \<Rightarrow> [])"

definition sample_result :: "container_child list" where
  "sample_result = (case resolveContainer sample_composed ''form#sections'' sample_page of Inr cs \<Rightarrow> cs | Inl _ \<Rightarrow> [])"

lemma sample_resolved:
  "containerAddresses sample_composed ''form#sections'' (ro_models sample_page) = Inr [''form#sections'', ''crm.Lead#sections'']"
  "composedContainerChildren sample_composed ''form#sections'' (ro_models sample_page) = Inr sample_children"
  "resolveContainer sample_composed ''form#sections'' sample_page = Inr sample_result"
  "map pos_id sample_result = [''crm.deal'']"
proof -
  have "case resolveContainer sample_composed ''form#sections'' sample_page of Inr cs \<Rightarrow> map pos_id cs = [''crm.deal''] | Inl _ \<Rightarrow> False"
    unfolding sample_composed_def by code_simp
  then show "resolveContainer sample_composed ''form#sections'' sample_page = Inr sample_result" "map pos_id sample_result = [''crm.deal'']"
    by (auto simp: sample_result_def split: sum.splits)
  have "case composedContainerChildren sample_composed ''form#sections'' [''crm.Lead''] of Inr cs \<Rightarrow> True | Inl _ \<Rightarrow> False"
    unfolding sample_composed_def by code_simp
  then show "composedContainerChildren sample_composed ''form#sections'' (ro_models sample_page) = Inr sample_children"
    by (auto simp: sample_children_def sample_page_def split: sum.splits)
  show "containerAddresses sample_composed ''form#sections'' (ro_models sample_page) = Inr [''form#sections'', ''crm.Lead#sections'']"
    unfolding sample_composed_def by code_simp
qed

lemma sample_pool: "distinct (map pos_id (sample_children @ ro_extra sample_page))" "variants_flat (sample_children @ ro_extra sample_page)"
  unfolding sample_children_def sample_composed_def by code_simp+



end
