(* ===== verification/RouteHrefs.thy ===== *)
theory RouteHrefs
  imports Routes Queries
begin

text \<open>
  Links to routes, \<open>packages/ui/src/runtime/route-href.ts\<close>: a composed route name, its parameters
  and a search give one href. \<open>encodeURIComponent\<close> and the form encoding of \<open>URLSearchParams\<close> are
  written out on UTF-8; parameters and search values are JavaScript values, read by \<open>String(v)\<close>.
\<close>

section \<open>Encodings\<close>

definition upper_hex :: "nat \<Rightarrow> char" where
  "upper_hex n = (if n < 10 then char_of (48 + n) else char_of (55 + n))"

definition percent :: "nat \<Rightarrow> string" where
  "percent n = [CHR ''%'', upper_hex (n div 16), upper_hex (n mod 16)]"

definition utf8 :: "char \<Rightarrow> nat list" where
  "utf8 c = (let n = of_char c in if n < 128 then [n] else [192 + n div 64, 128 + n mod 64])"

definition alphanumeric :: "char \<Rightarrow> bool" where
  "alphanumeric c \<longleftrightarrow> digit_char c \<or> (65 \<le> (of_char c :: nat) \<and> of_char c \<le> (90 :: nat)) \<or> (97 \<le> (of_char c :: nat) \<and> of_char c \<le> (122 :: nat))"

definition encodeURIComponent :: "string \<Rightarrow> string" where
  "encodeURIComponent s =
     concat (map (\<lambda>c. if alphanumeric c \<or> c \<in> set ''-_.!~*'' \<or> c = CHR 0x27 \<or> c = CHR ''('' \<or> c = CHR '')'' then [c]
                      else concat (map percent (utf8 c))) s)"

definition form_encode :: "string \<Rightarrow> string" where
  "form_encode s =
     concat (map (\<lambda>c. if alphanumeric c \<or> c \<in> set ''-_.*'' then [c] else if c = CHR '' '' then ''+'' else concat (map percent (utf8 c))) s)"

section \<open>Search strings\<close>

definition recordMatchValues :: "jsval \<Rightarrow> string list" where
  "recordMatchValues equals = (case equals of Str s \<Rightarrow> [s] | Arr xs \<Rightarrow> List.map_filter string_value xs | _ \<Rightarrow> [])"

definition routeSearchString :: "host \<Rightarrow> jsval \<Rightarrow> string" where
  "routeSearchString h search =
     (case search of
        Str s \<Rightarrow> (case s of c # s' \<Rightarrow> if c = CHR ''?'' then s' else s | [] \<Rightarrow> [])
      | Obj es \<Rightarrow>
          (let params = foldl (\<lambda>params (name, v). if is_nullish v then params else map_put name (js_string h v) params) [] es
           in js_join ''&'' (map (\<lambda>(name, v). form_encode name @ ''='' @ form_encode v) params))
      | _ \<Rightarrow> [])"

section \<open>Templates\<close>

definition routeParameterNames :: "string \<Rightarrow> string list" where
  "routeParameterNames template = List.map_filter routeParameterName (js_split (CHR ''/'') template)"

definition segment_ok :: "string \<Rightarrow> bool" where
  "segment_ok segment \<longleftrightarrow>
     routeParameterName segment \<noteq> None \<or> (CHR ''$'' \<notin> set segment \<and> CHR ''{'' \<notin> set segment)"

definition validateRouteTemplate :: "string \<times> string \<Rightarrow> unit result" where
  "validateRouteTemplate descriptor =
     (case find (\<lambda>segment. \<not> segment_ok segment) (js_split (CHR ''/'') (snd descriptor)) of
        Some segment \<Rightarrow> Inl (JsError (''Route \"'' @ fst descriptor @ ''\" has unsupported template segment \"'' @ segment @ ''\".''))
      | None \<Rightarrow> Inr ())"

section \<open>Hrefs\<close>

datatype href_error = UnknownRouteError string | HrefError string

type_synonym href_routes = "(string \<times> string) list"

definition createRouteHref :: "(string \<times> string) list \<Rightarrow> href_routes result" where
  "createRouteHref descriptors =
     rbind (each_res validateRouteTemplate descriptors) (\<lambda>_. Inr (new_Map descriptors))"

definition missing_params :: "string \<Rightarrow> jsval table \<Rightarrow> string list" where
  "missing_params template params =
     filter (\<lambda>parameter. is_nullish (prop_of params parameter)) (distinct_first (routeParameterNames template))"

definition extra_params :: "string \<Rightarrow> jsval table \<Rightarrow> string list" where
  "extra_params template params = filter (\<lambda>parameter. parameter \<notin> set (routeParameterNames template)) (keys params)"

definition fill_segment :: "host \<Rightarrow> jsval table \<Rightarrow> string \<Rightarrow> string" where
  "fill_segment h params segment =
     (case routeParameterName segment of
        None \<Rightarrow> segment
      | Some parameter \<Rightarrow> encodeURIComponent (js_string h (prop_of params parameter)))"

definition sort_names :: "string list \<Rightarrow> string list" where
  "sort_names names = js_sort (\<lambda>a b. if a < b then -1 else if a = b then 0 else 1) names"

definition resolveHref :: "host \<Rightarrow> href_routes \<Rightarrow> string \<Rightarrow> jsval table \<Rightarrow> jsval \<Rightarrow> href_error + string" where
  "resolveHref h routesByName name params search =
     (case map_of routesByName name of
        None \<Rightarrow> Inl (UnknownRouteError name)
      | Some template \<Rightarrow>
          if missing_params template params \<noteq> []
          then Inl (HrefError (''Route \"'' @ name @ ''\" is missing params: '' @ js_join '', '' (missing_params template params) @ ''.''))
          else if extra_params template params \<noteq> []
          then Inl (HrefError (''Route \"'' @ name @ ''\" received extra params: '' @ js_join '', '' (sort_names (extra_params template params)) @ ''.''))
          else (let href = js_join ''/'' (map (fill_segment h params) (js_split (CHR ''/'') template)); query = routeSearchString h search
                in Inr (if query \<noteq> [] then href @ ''?'' @ query else href)))"

definition maybeHref :: "host \<Rightarrow> href_routes \<Rightarrow> string set \<Rightarrow> string \<Rightarrow> jsval table \<Rightarrow> jsval \<Rightarrow> href_error + string option" where
  "maybeHref h routesByName unavailable name params search =
     (if name \<in> unavailable then Inr None
      else (case resolveHref h routesByName name params search of
              Inr href \<Rightarrow> Inr (Some href)
            | Inl (UnknownRouteError _) \<Rightarrow> Inr None
            | Inl e \<Rightarrow> Inl e))"

definition aliased :: "(string \<times> string) list \<Rightarrow> string \<Rightarrow> string" where
  "aliased aliases name = or_else (map_of aliases name) name"

definition aliasRouteHref ::
  "(string \<times> string) list \<Rightarrow> (string \<Rightarrow> jsval table \<Rightarrow> jsval \<Rightarrow> 'r) \<Rightarrow> string \<Rightarrow> jsval table \<Rightarrow> jsval \<Rightarrow> 'r" where
  "aliasRouteHref aliases routeHref name params search = routeHref (aliased aliases name) params search"

section \<open>Reading an href back\<close>

text \<open>
  The reader of an href: its path against the template, and the percent-encoded bytes of a segment
  decoded from UTF-8.
\<close>

definition hex_value :: "char \<Rightarrow> nat" where
  "hex_value c = (let n = of_char c in if n < 58 then n - 48 else n - 55)"

fun percent_bytes :: "string \<Rightarrow> nat list" where
  "percent_bytes (p # a # b # s) =
     (if p = CHR ''%'' then (16 * hex_value a + hex_value b) # percent_bytes s else of_char p # percent_bytes (a # b # s))"
| "percent_bytes (c # s) = of_char c # percent_bytes s"
| "percent_bytes [] = []"

fun utf8_text :: "nat list \<Rightarrow> string" where
  "utf8_text (a # b # ns) = (if a < 128 then char_of a # utf8_text (b # ns) else char_of (64 * (a - 192) + (b - 128)) # utf8_text ns)"
| "utf8_text (a # ns) = char_of a # utf8_text ns"
| "utf8_text [] = []"

definition decode_segment :: "string \<Rightarrow> string" where
  "decode_segment s = utf8_text (percent_bytes s)"

definition href_path :: "string \<Rightarrow> string" where
  "href_path href = takeWhile (\<lambda>c. c \<noteq> CHR ''?'') href"

fun read_params :: "string list \<Rightarrow> string list \<Rightarrow> (string \<times> string) list option" where
  "read_params [] [] = Some []"
| "read_params (t # ts) (s # ss) =
     (case routeParameterName t of
        Some p \<Rightarrow> map_option (\<lambda>ps. (p, decode_segment s) # ps) (read_params ts ss)
      | None \<Rightarrow> if s = t then read_params ts ss else None)"
| "read_params _ _ = None"

definition readHref :: "string \<Rightarrow> string \<Rightarrow> (string \<times> string) list option" where
  "readHref template href = read_params (js_split (CHR ''/'') template) (js_split (CHR ''/'') (href_path href))"

section \<open>Decoding what was encoded\<close>

lemma hex_value_upper: "n < 16 \<Longrightarrow> hex_value (upper_hex n) = n"
  by (auto simp: hex_value_def upper_hex_def Let_def)

lemma percent_bytes_plain: "c \<noteq> CHR ''%'' \<Longrightarrow> percent_bytes (c # s) = of_char c # percent_bytes s"
  by (cases s; cases "tl s") auto

lemma percent_bytes_percent: "n < 256 \<Longrightarrow> percent_bytes (percent n @ s) = n # percent_bytes s"
  by (simp add: percent_def hex_value_upper less_mult_imp_div_less)

lemma percent_bytes_utf8: "list_all (\<lambda>n. n < 256) ns \<Longrightarrow> percent_bytes (concat (map percent ns) @ s) = ns @ percent_bytes s"
  by (induction ns) (simp_all add: percent_bytes_percent)

lemma char_below: "(of_char c :: nat) < 256"
  by (rule nat_of_char_less_256)

lemma utf8_small: "list_all (\<lambda>n. n < 256) (utf8 c)"
proof -
  have "(of_char c :: nat) div 64 < 64" using char_below[of c] by arith
  moreover have "(of_char c :: nat) mod 64 < 128" by (rule less_trans[OF mod_less_divisor]) simp_all
  ultimately show ?thesis by (simp add: utf8_def Let_def)
qed

lemma utf8_text_utf8: "utf8_text (utf8 c @ ns) = c # utf8_text ns"
proof (cases "(of_char c :: nat) < 128")
  case True
  then show ?thesis by (cases ns) (simp_all add: utf8_def)
next
  case False
  moreover have "(of_char c :: nat) div 64 < 64" using char_below[of c] by arith
  ultimately have "utf8_text (utf8 c @ ns) = char_of (64 * (of_char c div 64 :: nat) + of_char c mod 64) # utf8_text ns"
    by (simp add: utf8_def Let_def del: mult_div_mod_eq)
  then show ?thesis by simp
qed

lemma utf8_text_all: "utf8_text (concat (map utf8 s)) = s"
  by (induction s) (simp_all add: utf8_text_utf8)

lemma utf8_ascii: "(of_char c :: nat) < 128 \<Longrightarrow> utf8 c = [of_char c]"
  by (simp add: utf8_def)

definition uri_unreserved :: "char \<Rightarrow> bool" where
  "uri_unreserved c \<longleftrightarrow> alphanumeric c \<or> c \<in> set ''-_.!~*'' \<or> c = CHR 0x27 \<or> c = CHR ''('' \<or> c = CHR '')''"

lemma uri_unreserved_ascii: "uri_unreserved c \<Longrightarrow> (of_char c :: nat) < 128 \<and> c \<noteq> CHR ''%'' \<and> c \<noteq> CHR ''/'' \<and> c \<noteq> CHR ''?''"
  by (auto simp: uri_unreserved_def alphanumeric_def digit_char_def)

lemma encodeURIComponent_Cons:
  "encodeURIComponent (c # s) = (if uri_unreserved c then [c] else concat (map percent (utf8 c))) @ encodeURIComponent s"
  by (simp add: encodeURIComponent_def uri_unreserved_def)

lemma decode_encode: "decode_segment (encodeURIComponent s) = s"
proof -
  have "percent_bytes (encodeURIComponent s) = concat (map utf8 s)"
  proof (induction s)
    case Nil
    then show ?case by (simp add: encodeURIComponent_def)
  next
    case (Cons c s)
    then show ?case
      by (cases "uri_unreserved c")
         (simp_all add: encodeURIComponent_Cons percent_bytes_plain uri_unreserved_ascii utf8_ascii percent_bytes_utf8 utf8_small)
  qed
  then show ?thesis by (simp add: decode_segment_def utf8_text_all)
qed

lemma percent_plain: "n < 256 \<Longrightarrow> CHR ''/'' \<notin> set (percent n) \<and> CHR ''?'' \<notin> set (percent n)"
proof -
  assume "n < 256"
  then have "n div 16 < 16" by (simp add: less_mult_imp_div_less)
  moreover have plain: "upper_hex k \<noteq> CHR ''/'' \<and> upper_hex k \<noteq> CHR ''?''" if "k < 16" for k
  proof -
    have "k \<in> set [0..<16]" using that by simp
    moreover have "list_all (\<lambda>k. upper_hex k \<noteq> CHR ''/'' \<and> upper_hex k \<noteq> CHR ''?'') [0..<16]" by code_simp
    ultimately show ?thesis unfolding list_all_iff by blast
  qed
  ultimately have "CHR ''/'' \<noteq> upper_hex (n div 16) \<and> CHR ''/'' \<noteq> upper_hex (n mod 16) \<and>
      CHR ''?'' \<noteq> upper_hex (n div 16) \<and> CHR ''?'' \<noteq> upper_hex (n mod 16)"
    by (metis mod_less_divisor zero_less_numeral)
  then show ?thesis by (simp add: percent_def)
qed

lemma encodeURIComponent_plain: "CHR ''/'' \<notin> set (encodeURIComponent s) \<and> CHR ''?'' \<notin> set (encodeURIComponent s)"
proof (induction s)
  case Nil
  then show ?case by (simp add: encodeURIComponent_def)
next
  case (Cons c s)
  have "CHR ''/'' \<notin> set (concat (map percent (utf8 c))) \<and> CHR ''?'' \<notin> set (concat (map percent (utf8 c)))"
    using utf8_small[of c] percent_plain by (auto simp: list_all_iff)
  with Cons uri_unreserved_ascii[of c] show ?case by (auto simp: encodeURIComponent_Cons)
qed


lemma js_split_plain: "d \<notin> set w \<Longrightarrow> js_split d w = [w]"
  by (induction w) auto

lemma js_split_first: "d \<notin> set w \<Longrightarrow> js_split d (w @ d # s) = w # js_split d s"
  by (induction w) auto

lemma js_split_join: "ws \<noteq> [] \<Longrightarrow> list_all (\<lambda>w. d \<notin> set w) ws \<Longrightarrow> js_split d (js_join [d] ws) = ws"
proof (induction ws rule: induct_list012)
  case (3 w v ws)
  then show ?case by (simp add: js_split_first)
qed (simp_all add: js_split_plain)

lemma js_split_parts: "list_all (\<lambda>w. d \<notin> set w) (js_split d s)"
  by (induction s) (auto split: list.splits)

lemma set_js_join: "set (js_join sep ws) \<subseteq> set sep \<union> (\<Union>w \<in> set ws. set w)"
  by (induction sep ws rule: js_join.induct) auto

lemma read_filled:
  "list_all (\<lambda>t. CHR ''?'' \<notin> set t) ts \<Longrightarrow>
   read_params ts (map (fill_segment h params) ts) =
     Some (map (\<lambda>p. (p, js_string h (prop_of params p))) (List.map_filter routeParameterName ts))"
  by (induction ts) (auto simp: fill_segment_def decode_encode map_filter_simps split: option.split)

lemma fill_segment_plain:
  "CHR ''/'' \<notin> set t \<Longrightarrow> CHR ''/'' \<notin> set (fill_segment h params t)"
  "CHR ''?'' \<notin> set t \<Longrightarrow> CHR ''?'' \<notin> set (fill_segment h params t)"
  using encodeURIComponent_plain by (auto simp: fill_segment_def split: option.split)

text \<open>
  C33: an href that is built reads back: its path matches the route's template segment by segment,
  and decoding the parameter segments gives the texts of the parameters, whatever characters they
  hold and whatever search follows.
\<close>

theorem href_reads_back:
  assumes "map_of routesByName name = Some template" "CHR ''?'' \<notin> set template"
    and "resolveHref h routesByName name params search = Inr href"
  shows "readHref template href =
           Some (map (\<lambda>p. (p, js_string h (prop_of params p))) (routeParameterNames template)) \<and>
         set (keys params) = set (routeParameterNames template)"
proof -
  let ?ts = "js_split (CHR ''/'') template" and ?query = "routeSearchString h search"
  let ?path = "js_join ''/'' (map (fill_segment h params) ?ts)"
  have missing: "missing_params template params = []" and extra: "extra_params template params = []"
    and href: "href = (if ?query \<noteq> [] then ?path @ ''?'' @ ?query else ?path)"
    using assms(1,3) by (auto simp: resolveHref_def Let_def split: if_splits)
  have ts: "list_all (\<lambda>t. CHR ''/'' \<notin> set t) ?ts" by (rule js_split_parts)
  have chars: "\<Union>(set ` set ?ts) \<subseteq> set template"
  proof -
    have "set t \<subseteq> set s" if "t \<in> set (js_split d s)" for t d and s :: string
      using that by (induction s arbitrary: t) (fastforce split: if_splits list.splits)+
    then show ?thesis by blast
  qed
  then have q: "list_all (\<lambda>t. CHR ''?'' \<notin> set t) ?ts" using assms(2) by (auto simp: list_all_iff)
  have "list_all (\<lambda>w. CHR ''/'' \<notin> set w) (map (fill_segment h params) ?ts)"
    using ts fill_segment_plain(1) by (auto simp: list_all_iff)
  then have split: "js_split (CHR ''/'') ?path = map (fill_segment h params) ?ts" by (intro js_split_join) simp_all
  have "CHR ''?'' \<notin> set ?path"
    using set_js_join[of "''/''" "map (fill_segment h params) ?ts"] q fill_segment_plain(2) by (auto simp: list_all_iff)
  then have "href_path href = ?path" by (auto simp: href href_path_def takeWhile_append takeWhile_eq_all_conv)
  then have "readHref template href = read_params ?ts (map (fill_segment h params) ?ts)" by (simp add: readHref_def split)
  moreover have "set (keys params) = set (routeParameterNames template)"
  proof
    show "set (keys params) \<subseteq> set (routeParameterNames template)" using extra by (auto simp: extra_params_def filter_empty_conv)
    show "set (routeParameterNames template) \<subseteq> set (keys params)"
    proof
      fix p
      assume "p \<in> set (routeParameterNames template)"
      then have "\<not> is_nullish (prop_of params p)" using missing by (auto simp: missing_params_def filter_empty_conv)
      then have "map_of params p \<noteq> None" by (cases "map_of params p") (auto simp: prop_of_def is_nullish_def)
      then show "p \<in> set (keys params)" by (simp add: map_of_eq_None_iff)
    qed
  qed
  ultimately show ?thesis using read_filled[OF q] by (simp add: routeParameterNames_def)
qed

theorem href_reads_back_witness:
  "readHref ''/crm/$id/edit'' ''/crm/a%2Fb%20%C3%A9/edit?tab=x+y'' = Some [(''id'', ''a/b '' @ [CHR 0xE9])]"
proof -
  have built: "resolveHref root_host [(''crm.lead'', ''/crm/$id/edit'')] ''crm.lead'' [(''id'', Str (''a/b '' @ [CHR 0xE9]))]
      (Obj [(''tab'', Str ''x y'')]) = Inr ''/crm/a%2Fb%20%C3%A9/edit?tab=x+y''" by code_simp
  have "routeParameterNames ''/crm/$id/edit'' = [''id'']" by code_simp
  with href_reads_back[OF _ _ built] show ?thesis by (simp add: prop_of_def)
qed

end
