(* ===== verification/MenuTrees.thy ===== *)
theory MenuTrees
  imports RouteHrefs Positions
begin

text \<open>
  The menu tree of the chrome, \<open>packages/ui/src/chrome/menu-tree.ts\<close>: contributed items become a
  forest of nodes with unique ids; the tree answers where a path sits, what the rail and the
  settings show, and projects itself onto a session or a selected app.

  A node is its fields and its children; its parent is the node above it in the forest, and
  \<open>byId\<close> is the order in which the ids were added. \<open>URL\<close> and \<open>URLSearchParams\<close> are parameters:
  the path, the search and the parameters of a location.
\<close>

section \<open>Items\<close>

record url_reader =
  url_pathname :: "string \<Rightarrow> string"
  url_search :: "string \<Rightarrow> string"
  url_params :: "string \<Rightarrow> (string \<times> string) list"

record chrome_item =
  ci_id :: string
  ci_label :: "string option"
  ci_route :: "string option"
  ci_params :: "jsval table option"
  ci_defaultResourceView :: "string option"
  ci_to :: "string option"
  ci_icon :: "string option"
  ci_parentId :: "string option"
  ci_app :: bool
  ci_description :: "string option"
  ci_group :: "string option"
  ci_status :: "string option"
  ci_tone :: "string option"
  ci_badge :: "jsnum option"
  ci_hidden :: bool
  ci_personal :: bool
  ci_home :: "string option"
  ci_brand :: jsval
  ci_theme :: "string option"
  ci_railExpanded :: "bool option"
  ci_requires :: "string option"
  ci_flatten :: bool

datatype chrome_node = ChromeNode (item_fields: chrome_item) (item_children: "chrome_node list")

abbreviation item_id :: "chrome_node \<Rightarrow> string" where
  "item_id item \<equiv> ci_id (item_fields item)"

record menu_tree =
  mt_roots :: "chrome_node list"
  mt_order :: "string list"

definition SETTINGS_ID :: string where
  "SETTINGS_ID = ''settings''"

definition is_platform :: "chrome_node \<Rightarrow> bool" where
  "is_platform item \<longleftrightarrow> ci_group (item_fields item) = Some ''platform''"

section \<open>Targets\<close>

fun scheme_rest :: "string \<Rightarrow> bool" where
  "scheme_rest [] = False"
| "scheme_rest (c # s) = (c = CHR '':'' \<or> ((alphanumeric c \<or> c \<in> set ''+.-'') \<and> scheme_rest s))"

definition isExternalTarget :: "string \<Rightarrow> bool" where
  "isExternalTarget target \<longleftrightarrow>
     startsWith target ''//'' \<or> (case target of c # s \<Rightarrow> alphanumeric c \<and> \<not> digit_char c \<and> scheme_rest s | [] \<Rightarrow> False)"

definition internal_target :: "string option \<Rightarrow> string option" where
  "internal_target target =
     (case truthy_string target of Some t \<Rightarrow> if t = ''#'' \<or> isExternalTarget t then None else Some t | None \<Rightarrow> None)"

definition pathMatchesTarget :: "url_reader \<Rightarrow> string \<Rightarrow> string option \<Rightarrow> bool" where
  "pathMatchesTarget u pathname target =
     (case internal_target target of
        None \<Rightarrow> False
      | Some t \<Rightarrow> pathname = url_pathname u t \<or> startsWith pathname (url_pathname u t @ ''/''))"

text \<open>\<open>path\<close> and \<open>search\<close>, which the constructor of a node parses from an internal target.\<close>

definition node_path :: "url_reader \<Rightarrow> chrome_node \<Rightarrow> string option" where
  "node_path u item = map_option (url_pathname u) (internal_target (ci_to (item_fields item)))"

definition node_search :: "url_reader \<Rightarrow> chrome_node \<Rightarrow> string" where
  "node_search u item = (case internal_target (ci_to (item_fields item)) of Some t \<Rightarrow> url_search u t | None \<Rightarrow> [])"

definition resolve_target :: "host \<Rightarrow> href_routes \<Rightarrow> chrome_item \<Rightarrow> string option result" where
  "resolve_target h routes item =
     (let fail = (\<lambda>what. Inl (JsError (''Menu item \"'' @ ci_id item @ ''\" '' @ what)))
      in if truthy_string (ci_route item) \<noteq> None \<and> ci_to item \<noteq> None
         then fail ''declares both route and to; use exactly one target owner.''
         else if truthy_string (ci_route item) = None \<and> ci_params item \<noteq> None
         then fail ''declares params without a route.''
         else if ci_to item \<noteq> None \<and> \<not> isExternalTarget (or_else (ci_to item) [])
         then fail (''declares internal target \"'' @ or_else (ci_to item) [] @ ''\" as to; use route and params.'')
         else case truthy_string (ci_route item) of
                None \<Rightarrow> Inr (ci_to item)
              | Some route \<Rightarrow>
                  (case resolveHref h routes route (or_else (ci_params item) [])
                          (case truthy_string (ci_defaultResourceView item) of Some p \<Rightarrow> Obj [(''preset'', Str p)] | None \<Rightarrow> Undefined) of
                     Inr href \<Rightarrow> Inr (Some href)
                   | Inl (UnknownRouteError _) \<Rightarrow> fail (''references unknown route \"'' @ route @ ''\".'')
                   | Inl (HrefError message) \<Rightarrow> fail (''cannot resolve its route: '' @ message)))"

fun resolveMenuRouteTarget :: "host \<Rightarrow> href_routes \<Rightarrow> chrome_node \<Rightarrow> chrome_node result" where
  "resolveMenuRouteTarget h routes (ChromeNode f cs) =
     rbind (resolve_target h routes f) (\<lambda>to.
     rbind (map_res (resolveMenuRouteTarget h routes) cs) (\<lambda>children. Inr (ChromeNode (f\<lparr>ci_to := to\<rparr>) children)))"

definition resolveMenuRouteTargets :: "host \<Rightarrow> href_routes \<Rightarrow> chrome_node list \<Rightarrow> chrome_node list result" where
  "resolveMenuRouteTargets h routes items = map_res (resolveMenuRouteTarget h routes) items"

text \<open>Its own target, or the first of its children's, the hidden ones last.\<close>

fun item_target :: "chrome_node \<Rightarrow> string option" where
  "item_target (ChromeNode f cs) =
     (case truthy_string (ci_to f) of
        Some t \<Rightarrow> Some t
      | None \<Rightarrow>
          (let ts = map (\<lambda>c. (ci_hidden (item_fields c), item_target c)) cs
           in case List.map_filter snd (filter (\<lambda>t. \<not> fst t) ts @ filter fst ts) of [] \<Rightarrow> None | t # _ \<Rightarrow> Some t))"

fun targetPath :: "url_reader \<Rightarrow> chrome_node \<Rightarrow> string option" where
  "targetPath u (ChromeNode f cs) =
     (case node_path u (ChromeNode f cs) of
        Some p \<Rightarrow> Some p
      | None \<Rightarrow> (case List.map_filter truthy_string (map (targetPath u) cs) of [] \<Rightarrow> None | p # _ \<Rightarrow> Some p))"

section \<open>Labels\<close>

definition ascii_lower_or_digit :: "char \<Rightarrow> bool" where
  "ascii_lower_or_digit c \<longleftrightarrow> digit_char c \<or> (97 \<le> (of_char c :: nat) \<and> of_char c \<le> (122 :: nat))"

definition ascii_upper :: "char \<Rightarrow> bool" where
  "ascii_upper c \<longleftrightarrow> 65 \<le> (of_char c :: nat) \<and> of_char c \<le> (90 :: nat)"

fun space_words :: "string \<Rightarrow> string" where
  "space_words (a # b # s) =
     (if ascii_lower_or_digit a \<and> ascii_upper b then a # CHR '' '' # b # space_words s else a # space_words (b # s))"
| "space_words s = s"

definition separator :: "char \<Rightarrow> bool" where
  "separator c \<longleftrightarrow> c \<in> set ''-_./:'' \<or> js_space c"

fun collapse :: "bool \<Rightarrow> string \<Rightarrow> string" where
  "collapse inside [] = []"
| "collapse inside (c # s) =
     (if separator c then (if inside then collapse True s else CHR '' '' # collapse True s) else c # collapse False s)"

definition word_char :: "char \<Rightarrow> bool" where
  "word_char c \<longleftrightarrow> alphanumeric c \<or> c = CHR ''_''"

fun capitalize :: "bool \<Rightarrow> string \<Rightarrow> string" where
  "capitalize inside [] = []"
| "capitalize inside (c # s) =
     (if \<not> inside \<and> ascii_lower_or_digit c \<and> \<not> digit_char c then char_of (of_char c - 32 :: nat) else c) # capitalize (word_char c) s"

definition titleCase :: "string \<Rightarrow> string" where
  "titleCase s = capitalize False (collapse False (space_words s))"

definition displayLabel :: "chrome_node \<Rightarrow> string" where
  "displayLabel item = or_else (ci_label (item_fields item)) (titleCase (item_id item))"

definition iconName :: "chrome_node \<Rightarrow> string" where
  "iconName item = or_else (ci_icon (item_fields item)) (item_id item)"

section \<open>Nodes\<close>

text \<open>Whether a node is an app: a root outside the platform group, or an included app.\<close>

definition isApp :: "bool \<Rightarrow> chrome_node \<Rightarrow> bool" where
  "isApp isRoot item \<longleftrightarrow> (isRoot \<and> \<not> is_platform item) \<or> ci_app (item_fields item)"

definition railChildren :: "bool \<Rightarrow> chrome_node \<Rightarrow> chrome_node list" where
  "railChildren includeHidden item =
     filter (\<lambda>child. item_target child \<noteq> None \<and> (includeHidden \<or> \<not> ci_hidden (item_fields child))) (item_children item)"

definition targetedChildren :: "chrome_node \<Rightarrow> chrome_node list" where
  "targetedChildren item = railChildren False item"

definition appChildren :: "chrome_node \<Rightarrow> chrome_node list" where
  "appChildren item = filter (isApp False) (targetedChildren item)"

definition menuItems :: "chrome_node \<Rightarrow> chrome_node list" where
  "menuItems item = filter (\<lambda>child. \<not> isApp False child) (targetedChildren item)"

section \<open>Building\<close>

fun item_ids :: "chrome_node \<Rightarrow> string list" where
  "item_ids (ChromeNode f cs) = ci_id f # concat (map item_ids cs)"

text \<open>The nodes of an item in preorder, each with the nodes above it.\<close>

fun item_trails :: "chrome_node list \<Rightarrow> chrome_node \<Rightarrow> chrome_node list list" where
  "item_trails outer (ChromeNode f cs) =
     (outer @ [ChromeNode f cs]) # concat (map (item_trails (outer @ [ChromeNode f cs])) cs)"

definition forest_trails :: "chrome_node list \<Rightarrow> chrome_node list list" where
  "forest_trails roots = concat (map (item_trails []) roots)"

definition claim_id :: "string list \<Rightarrow> string \<Rightarrow> string list result" where
  "claim_id order i =
     (if i = SETTINGS_ID then Inl (JsError (''Menu item \"'' @ i @ ''\" uses the reserved Settings place id.''))
      else if i \<in> set order then Inl (JsError (''Menu item \"'' @ i @ ''\" is declared more than once.''))
      else Inr (order @ [i]))"

text \<open>An item at the top level that names a parent, and the links from nodes to their parents.\<close>

definition parentKey :: "chrome_node \<Rightarrow> string option" where
  "parentKey item = truthy_string (ci_parentId (item_fields item))"

definition contributed :: "chrome_node list \<Rightarrow> chrome_node list" where
  "contributed items = filter (\<lambda>item. parentKey item \<noteq> None) items"

fun nested_links :: "chrome_node \<Rightarrow> (string \<times> string) list" where
  "nested_links (ChromeNode f cs) = map (\<lambda>c. (item_id c, ci_id f)) cs @ concat (map nested_links cs)"

definition parent_links :: "chrome_node list \<Rightarrow> (string \<times> string) list" where
  "parent_links items =
     List.map_filter (\<lambda>item. map_option (Pair (item_id item)) (parentKey item)) items @ concat (map nested_links items)"

function climb :: "(string \<times> string) list \<Rightarrow> string set \<Rightarrow> string \<Rightarrow> unit result" where
  "climb links visited current =
     (if current \<in> visited then Inl (JsError (''Menu item \"'' @ current @ ''\" creates a parent cycle.''))
      else case map_of links current of
             None \<Rightarrow> Inr ()
           | Some parent \<Rightarrow> climb links (insert current visited) parent)"
  by pat_completeness auto
termination
proof (relation "measure (\<lambda>(links, visited, current). card (fst ` set links - visited))", goal_cases)
  case (2 links visited current parent)
  then have "current \<in> fst ` set links" by (force dest: map_of_SomeD)
  with 2(1) have "card (fst ` set links - insert current visited) < card (fst ` set links - visited)"
    by (intro psubset_card_mono) auto
  then show ?case by simp
qed simp

declare climb.simps [simp del]

text \<open>
  A node with its own children and then those contributed to it. Where no node is its own ancestor a
  contributed item is reached once, so the ones already attached above need not be offered again.
\<close>

function attach :: "chrome_node list \<Rightarrow> chrome_node \<Rightarrow> chrome_node" where
  "attach moved (ChromeNode f cs) =
     ChromeNode f (map (attach moved) cs @
       map (\<lambda>m. attach (filter (\<lambda>x. x \<noteq> m) moved) m) (filter (\<lambda>m. parentKey m = Some (ci_id f)) moved))"
  by pat_completeness auto
termination
proof (relation "measures [\<lambda>(moved, item). length moved, \<lambda>(moved, item). size item]", goal_cases)
  case (2 moved f cs c)
  then show ?case using size_list_estimation'[of c cs "size c" size] by simp
next
  case (3 moved f cs m)
  then have "length (filter (\<lambda>x. x \<noteq> m) moved) < length moved" by (intro length_filter_less[of m]) auto
  then show ?case by simp
qed simp

declare attach.simps [simp del]

definition buildMenuTree :: "chrome_node list \<Rightarrow> menu_tree result" where
  "buildMenuTree items =
     rbind (fold_res claim_id [] (concat (map item_ids items))) (\<lambda>order.
     rbind (each_res (\<lambda>item. guard (or_else (parentKey item) [] \<in> set order)
                (''Menu item \"'' @ item_id item @ ''\" names unknown parent \"'' @ or_else (parentKey item) [] @ ''\".''))
              (contributed items)) (\<lambda>_.
     rbind (each_res (climb (parent_links items) {}) order) (\<lambda>_.
       Inr \<lparr>mt_roots = map (attach (contributed items)) (filter (\<lambda>item. parentKey item = None) items), mt_order = order\<rparr>)))"

section \<open>Nodes of a tree\<close>

definition tree_trails :: "menu_tree \<Rightarrow> chrome_node list list" where
  "tree_trails tree = forest_trails (mt_roots tree)"

definition trailFor :: "menu_tree \<Rightarrow> string \<Rightarrow> chrome_node list" where
  "trailFor tree i = or_else (find (\<lambda>t. item_id (last t) = i) (tree_trails tree)) []"

definition node_at :: "menu_tree \<Rightarrow> string \<Rightarrow> chrome_node option" where
  "node_at tree i = map_option last (find (\<lambda>t. item_id (last t) = i) (tree_trails tree))"

definition tree_nodes :: "menu_tree \<Rightarrow> chrome_node list" where
  "tree_nodes tree = List.map_filter (node_at tree) (mt_order tree)"

definition itemsForRoute :: "menu_tree \<Rightarrow> string \<Rightarrow> chrome_node list" where
  "itemsForRoute tree routeName = filter (\<lambda>item. ci_route (item_fields item) = Some routeName) (tree_nodes tree)"

definition railMenuItems :: "menu_tree \<Rightarrow> bool \<Rightarrow> chrome_node list" where
  "railMenuItems tree includeHidden =
     filter (\<lambda>item. (includeHidden \<or> \<not> ci_hidden (item_fields item)) \<and> \<not> is_platform item \<and> item_target item \<noteq> None) (mt_roots tree)"

definition settingsMenuItems :: "menu_tree \<Rightarrow> bool \<Rightarrow> chrome_node list" where
  "settingsMenuItems tree includeHidden =
     filter (\<lambda>item. (includeHidden \<or> \<not> ci_hidden (item_fields item)) \<and> is_platform item \<and> item_target item \<noteq> None) (mt_roots tree)"

text \<open>The synthetic entry: its target and the settings roots.\<close>

definition settingsEntry :: "menu_tree \<Rightarrow> (string \<times> chrome_node list) option" where
  "settingsEntry tree =
     (case settingsMenuItems tree False of
        [] \<Rightarrow> None
      | item # items \<Rightarrow> map_option (\<lambda>target. (target, item # items)) (item_target item))"

definition scopesApp :: "bool \<Rightarrow> chrome_node \<Rightarrow> bool" where
  "scopesApp isRoot item \<longleftrightarrow> isApp isRoot item \<or> ci_flatten (item_fields item)"

definition appIds :: "menu_tree \<Rightarrow> string set" where
  "appIds tree = set (map (item_id \<circ> last) (filter (\<lambda>t. scopesApp (length t = 1) (last t)) (tree_trails tree)))"

definition navigableItems :: "menu_tree \<Rightarrow> (chrome_node \<times> chrome_node \<times> string) list" where
  "navigableItems tree =
     List.map_filter (\<lambda>node.
       case item_target node of
         None \<Rightarrow> None
       | Some target \<Rightarrow>
           if target = ''#'' \<or> targetedChildren node \<noteq> [] then None
           else Some (node, (case trailFor tree (item_id node) of r # _ \<Rightarrow> r | [] \<Rightarrow> node), target)) (tree_nodes tree)"

section \<open>The place of a path\<close>

definition equal_params :: "(string \<times> string) list \<Rightarrow> (string \<times> string) list \<Rightarrow> nat" where
  "equal_params params targetParams = length (filter (\<lambda>p. p \<in> set params) targetParams)"

text \<open>The rank of the node a trail leads to; \<open>None\<close>: it does not hold the path.\<close>

definition match_rank ::
  "url_reader \<Rightarrow> string \<Rightarrow> (string \<times> string) list \<Rightarrow> string option \<Rightarrow> chrome_node list \<Rightarrow> int list option" where
  "match_rank u pathname params menuId trail =
     (let item = last trail; anchored = (menuId \<noteq> None \<and> list_ex (\<lambda>node. menuId = Some (item_id node)) trail); depth = int (length trail)
      in case node_path u item of
           Some p \<Rightarrow>
             if pathMatchesTarget u pathname (Some p)
             then (let targetParams = url_params u (node_search u item); equal = equal_params params targetParams;
                       mismatches = length targetParams - equal;
                       place = (if menuId = None then 0 else if p = pathname \<and> mismatches = 0 then 2 else if anchored then 1 else 0 :: int)
                   in Some [place, int (length p), int equal, - int mismatches, if anchored then 1 else 0, depth])
             else if menuId = Some (item_id item) then Some [1, -1, 0, 0, 1, depth] else None
         | None \<Rightarrow> if menuId = Some (item_id item) then Some [1, -1, 0, 0, 1, depth] else None)"

fun rank_above :: "int list \<Rightarrow> int list \<Rightarrow> bool" where
  "rank_above (x # xs) (y # ys) = (if x = y then rank_above xs ys else x > y)"
| "rank_above (x # xs) [] = True"
| "rank_above [] ys = False"

definition consider_trail ::
  "(chrome_node list \<Rightarrow> int list option) \<Rightarrow> (chrome_node list \<times> int list) option \<Rightarrow> chrome_node list \<Rightarrow> (chrome_node list \<times> int list) option" where
  "consider_trail rank best trail =
     (case rank trail of
        None \<Rightarrow> best
      | Some r \<Rightarrow> if rank_above r (case best of Some (_, b) \<Rightarrow> b | None \<Rightarrow> []) then Some (trail, r) else best)"

definition matchWithin ::
  "url_reader \<Rightarrow> chrome_node list \<Rightarrow> string \<Rightarrow> string option \<Rightarrow> string option \<Rightarrow> chrome_node list option" where
  "matchWithin u roots path search menuId =
     (let params = url_params u (or_else search (url_search u path))
      in map_option fst (foldl (consider_trail (match_rank u (url_pathname u path) params menuId)) None (forest_trails roots)))"

record menu_match =
  mm_trail :: "chrome_node list"
  mm_app :: "chrome_node option"

definition match_app :: "bool \<Rightarrow> chrome_node list \<Rightarrow> chrome_node option" where
  "match_app includeHidden trail =
     map_option snd (find (\<lambda>(i, item). isApp (i = 0) item \<and> (includeHidden \<or> \<not> ci_hidden (item_fields item))) (rev (enumerate 0 trail)))"

definition match_anchor :: "menu_tree \<Rightarrow> string option \<Rightarrow> string option" where
  "match_anchor tree menuId = (case menuId of Some i \<Rightarrow> if i \<in> set (mt_order tree) then Some i else None | None \<Rightarrow> None)"

definition tree_match :: "url_reader \<Rightarrow> menu_tree \<Rightarrow> string \<Rightarrow> string option \<Rightarrow> bool \<Rightarrow> string option \<Rightarrow> menu_match option" where
  "tree_match u tree path search includeHidden menuId =
     map_option (\<lambda>trail. \<lparr>mm_trail = trail, mm_app = match_app includeHidden trail\<rparr>)
       (matchWithin u (mt_roots tree) path search (match_anchor tree menuId))"

definition activeAppRoot :: "url_reader \<Rightarrow> menu_tree \<Rightarrow> string \<Rightarrow> chrome_node option" where
  "activeAppRoot u tree pathname = map_option (hd \<circ> mm_trail) (tree_match u tree pathname None False None)"

definition activeItem :: "url_reader \<Rightarrow> menu_tree \<Rightarrow> string \<Rightarrow> chrome_node option" where
  "activeItem u tree pathname = map_option (last \<circ> mm_trail) (tree_match u tree pathname None False None)"

definition appTrail :: "url_reader \<Rightarrow> menu_tree \<Rightarrow> string \<Rightarrow> string option \<Rightarrow> string option \<Rightarrow> chrome_node list" where
  "appTrail u tree pathname search menuId =
     (case tree_match u tree pathname search False menuId of
        Some m \<Rightarrow> map snd (filter (\<lambda>(i, item). scopesApp (i = 0) item) (enumerate 0 (mm_trail m)))
      | None \<Rightarrow> [])"

definition activeTargetedChild :: "url_reader \<Rightarrow> chrome_node \<Rightarrow> string \<Rightarrow> chrome_node option" where
  "activeTargetedChild u item pathname = map_option hd (matchWithin u (targetedChildren item) pathname None None)"

record rail_place =
  rp_settings :: bool
  rp_roots :: "chrome_node list"
  rp_activeRootId :: "string option"

definition railPlace :: "menu_tree \<Rightarrow> menu_match option \<Rightarrow> bool \<Rightarrow> rail_place" where
  "railPlace tree location includeHidden =
     (let active = map_option (hd \<circ> mm_trail) location;
          settings = (case active of Some a \<Rightarrow> is_platform a | None \<Rightarrow> False);
          roots = (if settings then settingsMenuItems tree includeHidden else railMenuItems tree includeHidden)
      in \<lparr>rp_settings = settings, rp_roots = roots,
          rp_activeRootId = (case active of
              Some a \<Rightarrow> if list_ex (\<lambda>item. item_id item = item_id a) roots then Some (item_id a) else None
            | None \<Rightarrow> None)\<rparr>)"

section \<open>Projections\<close>

text \<open>An app without its platform nodes, and those nodes as roots in preorder.\<close>

fun lift_settings :: "chrome_node \<Rightarrow> chrome_node \<times> chrome_node list" where
  "lift_settings (ChromeNode f cs) =
     (let parts = map (\<lambda>c. if is_platform c then (None, [ChromeNode ((item_fields c)\<lparr>ci_parentId := None, ci_app := False\<rparr>) (item_children c)])
                         else (let (c', settings) = lift_settings c in (Some c', settings))) cs
      in (ChromeNode f (List.map_filter fst parts), concat (map snd parts)))"

definition settings_items :: "chrome_node list \<Rightarrow> chrome_node list" where
  "settings_items roots =
     concat (map (\<lambda>root. if is_platform root then [root] else (let (app, settings) = lift_settings root in app # settings)) roots)"

definition withSettingsPlace :: "menu_tree \<Rightarrow> menu_tree result" where
  "withSettingsPlace tree = buildMenuTree (settings_items (mt_roots tree))"

fun reaches :: "chrome_node \<Rightarrow> bool" where
  "reaches (ChromeNode f cs) \<longleftrightarrow> truthy_string (ci_to f) \<noteq> None \<or> list_ex (\<lambda>b. b) (map reaches cs)"

fun keep_items :: "string set \<Rightarrow> chrome_node \<Rightarrow> chrome_node option" where
  "keep_items gone (ChromeNode f cs) =
     (if ci_id f \<in> gone then None
      else (let kept = ChromeNode f (List.map_filter (\<lambda>k. k) (map (keep_items gone) cs))
            in if item_target (ChromeNode f cs) \<noteq> None \<and> \<not> reaches kept then None else Some kept))"

definition without :: "menu_tree \<Rightarrow> string set \<Rightarrow> menu_tree result" where
  "without tree ids =
     (if ids = {} then Inr tree else buildMenuTree (List.map_filter (keep_items ids) (mt_roots tree)))"

definition rail_root :: "menu_tree \<Rightarrow> string \<Rightarrow> chrome_node result" where
  "rail_root tree rootId =
     (case find (\<lambda>item. item_id item = rootId) (mt_roots tree) of
        Some item \<Rightarrow> Inr (ChromeNode ((item_fields item)\<lparr>ci_group := Some ''domain''\<rparr>) (item_children item))
      | None \<Rightarrow> Inl (JsError (''Unknown menu root \"'' @ rootId @ ''\" in the rail.'')))"

definition confineTo :: "menu_tree \<Rightarrow> string list \<Rightarrow> menu_tree result" where
  "confineTo tree rootIds =
     rbind (map_res (rail_root tree) rootIds) (\<lambda>rail.
       let personal = filter (\<lambda>item. ci_personal (item_fields item) \<and> is_platform item \<and> item_id item \<notin> set rootIds) (mt_roots tree)
       in rbind (buildMenuTree (rail @ personal)) withSettingsPlace)"

end
