(* ===== verification/MenuForest.thy ===== *)
theory MenuForest
  imports MenuTrees
begin

text \<open>
  What building a menu tree guarantees: every item, nested or contributed, becomes one node of the
  forest, below the parent it names. An item reaches the forest along its links to a root, which the
  check for parent cycles has walked.
\<close>

section \<open>Nodes of an item\<close>

lemma item_ids_Cons: "item_ids item = item_id item # concat (map item_ids (item_children item))"
  by (cases item) simp

lemma item_id_in_ids [simp]: "item_id item \<in> set (item_ids item)"
  by (cases item) simp

lemma trail_ids: "map (item_id \<circ> last) (item_trails outer item) = item_ids item"
proof (induction outer item rule: item_trails.induct)
  case (1 outer f cs)
  have "map (map (item_id \<circ> last)) (map (item_trails (outer @ [ChromeNode f cs])) cs) = map item_ids cs"
    using 1 by (simp add: o_def)
  then show ?case by (simp only: item_trails.simps item_ids.simps map_concat list.map) simp
qed

lemma item_trails_Nil: "t \<in> set (item_trails outer item) \<Longrightarrow> t \<noteq> []"
  by (induction outer item rule: item_trails.induct) auto

lemma item_trails_hd: "t \<in> set (item_trails outer item) \<Longrightarrow> hd t = (case outer of [] \<Rightarrow> item | x # _ \<Rightarrow> x)"
proof (induction outer item rule: item_trails.induct)
  case (1 outer f cs)
  then show ?case by (cases outer) auto
qed

lemma item_trails_prefix: "t \<in> set (item_trails outer item) \<Longrightarrow> \<exists>s. t = outer @ item # s"
  by (induction outer item rule: item_trails.induct) fastforce

lemma forest_trails_Nil: "t \<in> set (forest_trails roots) \<Longrightarrow> t \<noteq> []"
  by (auto simp: forest_trails_def dest: item_trails_Nil)

lemma forest_trail_ids: "map (item_id \<circ> last) (forest_trails roots) = concat (map item_ids roots)"
  by (simp add: forest_trails_def map_concat o_def trail_ids[unfolded o_def])

lemma nested_link_ids: "(i, p) \<in> set (nested_links item) \<Longrightarrow> i \<in> set (item_ids item) \<and> p \<in> set (item_ids item)"
  by (induction item rule: nested_links.induct) force

lemma nested_link_exists: "i \<in> set (item_ids item) \<Longrightarrow> i = item_id item \<or> i \<in> fst ` set (nested_links item)"
proof (induction item rule: item_ids.induct)
  case (1 f cs)
  then consider "i = ci_id f" | c where "c \<in> set cs" "i \<in> set (item_ids c)" by auto
  then show ?case
  proof cases
    case 2
    with 1 have "i = item_id c \<or> i \<in> fst ` set (nested_links c)" by blast
    with 2 show ?thesis by force
  qed simp
qed

lemma same_item:
  assumes "distinct (concat (map f xs))" "x \<in> set xs" "y \<in> set xs" "i \<in> set (f x)" "i \<in> set (f y)"
  shows "x = y"
  using assms by (induction xs) auto

section \<open>Attaching\<close>

lemma attach_ids:
  "item_ids (attach moved (ChromeNode f cs)) =
     ci_id f # concat (map (\<lambda>c. item_ids (attach moved c)) cs) @
       concat (map (\<lambda>m. item_ids (attach (filter (\<lambda>x. x \<noteq> m) moved) m)) (filter (\<lambda>m. parentKey m = Some (ci_id f)) moved))"
  by (subst attach.simps) (simp add: o_def)

lemma attach_keeps: "set (item_ids item) \<subseteq> set (item_ids (attach moved item))"
proof (induction moved item rule: attach.induct)
  case (1 moved f cs)
  then show ?case unfolding attach_ids by fastforce
qed

lemma attach_reaches:
  assumes "m \<in> set moved" "parentKey m = Some p" "p \<in> set (item_ids (attach moved item))"
  shows "set (item_ids m) \<subseteq> set (item_ids (attach moved item))"
  using assms
proof (induction moved item rule: attach.induct)
  case (1 moved f cs)
  from "1.prems"(3) consider "p = ci_id f"
    | c where "c \<in> set cs" "p \<in> set (item_ids (attach moved c))"
    | x where "x \<in> set moved" "parentKey x = Some (ci_id f)" "p \<in> set (item_ids (attach (filter (\<lambda>y. y \<noteq> x) moved) x))"
    unfolding attach_ids by auto
  then show ?case
  proof cases
    case 1
    then show ?thesis using "1.prems" attach_keeps[of m "filter (\<lambda>y. y \<noteq> m) moved"] unfolding attach_ids by auto
  next
    case 2
    with "1.IH"(1)[of c] "1.prems" show ?thesis unfolding attach_ids by auto
  next
    case 3
    show ?thesis
    proof (cases "x = m")
      case True
      then show ?thesis using 3 attach_keeps[of m "filter (\<lambda>y. y \<noteq> m) moved"] unfolding attach_ids by auto
    next
      case False
      with 3 "1.IH"(2)[of x] "1.prems" show ?thesis unfolding attach_ids by auto
    qed
  qed
qed

lemma attach_only: "i \<in> set (item_ids (attach moved item)) \<Longrightarrow> i \<in> set (item_ids item) \<or> (\<exists>m \<in> set moved. i \<in> set (item_ids m))"
proof (induction moved item rule: attach.induct)
  case (1 moved f cs)
  from "1.prems" consider "i = ci_id f"
    | c where "c \<in> set cs" "i \<in> set (item_ids (attach moved c))"
    | x where "x \<in> set moved" "parentKey x = Some (ci_id f)" "i \<in> set (item_ids (attach (filter (\<lambda>y. y \<noteq> x) moved) x))"
    unfolding attach_ids by auto
  then show ?case
  proof cases
    case 2
    with "1.IH"(1)[of c] show ?thesis by auto
  next
    case 3
    with "1.IH"(2)[of x] show ?thesis by auto
  qed simp
qed

section \<open>Reaching the forest\<close>

text \<open>The top-level items that a chain of parents leads to a root.\<close>

inductive reached :: "chrome_node list \<Rightarrow> chrome_node \<Rightarrow> bool" for items where
  reached_root: "x \<in> set items \<Longrightarrow> parentKey x = None \<Longrightarrow> reached items x"
| reached_below: "x \<in> set items \<Longrightarrow> parentKey x = Some p \<Longrightarrow> y \<in> set items \<Longrightarrow> p \<in> set (item_ids y) \<Longrightarrow> reached items y \<Longrightarrow> reached items x"

definition built_roots :: "chrome_node list \<Rightarrow> chrome_node list" where
  "built_roots items = map (attach (contributed items)) (filter (\<lambda>item. parentKey item = None) items)"

lemma reached_ids: "reached items x \<Longrightarrow> set (item_ids x) \<subseteq> set (concat (map item_ids (built_roots items)))"
proof (induction rule: reached.induct)
  case (reached_root x)
  then show ?case using attach_keeps[of x "contributed items"] by (auto simp: built_roots_def)
next
  case (reached_below x p y)
  then obtain r where "r \<in> set items" "parentKey r = None" "p \<in> set (item_ids (attach (contributed items) r))"
    by (auto simp: built_roots_def)
  moreover have "x \<in> set (contributed items)" using reached_below by (simp add: contributed_def)
  ultimately show ?case using attach_reaches[of x "contributed items" p r] reached_below(2) by (auto simp: built_roots_def)
qed

lemma parent_link_cases:
  assumes "(i, p) \<in> set (parent_links items)"
  obtains x where "x \<in> set items" "i = item_id x" "parentKey x = Some p"
    | x where "x \<in> set items" "(i, p) \<in> set (nested_links x)"
  using assms by (auto simp: parent_links_def List.map_filter_def)

lemma parent_link_None:
  assumes "map_of (parent_links items) i = None" "x \<in> set items" "i \<in> set (item_ids x)"
  shows "i = item_id x \<and> parentKey x = None"
proof -
  from assms(1) have no: "i \<notin> fst ` set (parent_links items)" by (simp add: map_of_eq_None_iff)
  then have "i \<notin> fst ` set (nested_links x)" using assms(2) by (force simp: parent_links_def)
  then have i: "i = item_id x" using nested_link_exists assms(3) by blast
  have "parentKey x = None"
  proof (rule ccontr)
    assume "parentKey x \<noteq> None"
    then obtain p where "parentKey x = Some p" by blast
    then have "(i, p) \<in> set (parent_links items)" using assms(2) i by (force simp: parent_links_def List.map_filter_def)
    with no show False by force
  qed
  with i show ?thesis by simp
qed

lemma climb_reached:
  assumes "climb (parent_links items) visited i = Inr ()" "x \<in> set items" "i \<in> set (item_ids x)"
    and ids: "distinct (concat (map item_ids items))"
    and known: "\<And>x p. x \<in> set items \<Longrightarrow> parentKey x = Some p \<Longrightarrow> p \<in> set (concat (map item_ids items))"
  shows "reached items x"
  using assms(1-3)
proof (induction "parent_links items" visited i arbitrary: x rule: climb.induct)
  case (1 visited i)
  show ?case
  proof (cases "map_of (parent_links items) i")
    case None
    then show ?thesis using parent_link_None "1.prems" by (blast intro: reached_root)
  next
    case (Some p)
    have notin: "i \<notin> visited" using "1.prems"(1) by (subst (asm) climb.simps) (simp split: if_splits)
    have climb: "climb (parent_links items) (insert i visited) p = Inr ()"
      using "1.prems"(1) Some notin by (subst (asm) climb.simps) simp
    note IH = "1.hyps"[OF notin Some climb]
    from map_of_SomeD[OF Some] show ?thesis
    proof (cases rule: parent_link_cases)
      case (1 y)
      then have "x = y" using same_item[OF ids, of x y i] "1.prems" by simp
      moreover obtain z where "z \<in> set items" "p \<in> set (item_ids z)" using known[OF 1(1) 1(3)] by auto
      ultimately show ?thesis using reached_below[of x items p z] IH 1 by blast
    next
      case (2 y)
      then have "x = y" using same_item[OF ids, of x y i] nested_link_ids "1.prems" by blast
      then show ?thesis using IH 2 nested_link_ids by blast
    qed
  qed
qed

section \<open>No node twice\<close>

text \<open>A contributed item whose chain of parents, inside the contributed items, ends in \<open>S\<close>.\<close>

inductive leads :: "chrome_node set \<Rightarrow> string set \<Rightarrow> chrome_node \<Rightarrow> bool" for M S where
  leads_here: "x \<in> M \<Longrightarrow> parentKey x = Some p \<Longrightarrow> p \<in> S \<Longrightarrow> leads M S x"
| leads_up: "x \<in> M \<Longrightarrow> parentKey x = Some p \<Longrightarrow> y \<in> M \<Longrightarrow> p \<in> set (item_ids y) \<Longrightarrow> leads M S y \<Longrightarrow> leads M S x"

lemma leads_mono: "leads M S x \<Longrightarrow> M \<subseteq> N \<Longrightarrow> S \<subseteq> T \<Longrightarrow> leads N T x"
  by (induction rule: leads.induct) (blast intro: leads.intros)+

lemma leads_member: "leads M S x \<Longrightarrow> x \<in> M"
  by (cases rule: leads.cases)

lemma attach_leads:
  "i \<in> set (item_ids (attach moved item)) \<Longrightarrow>
     i \<in> set (item_ids item) \<or> (\<exists>m. leads (set moved) (set (item_ids item)) m \<and> i \<in> set (item_ids m))"
proof (induction moved item rule: attach.induct)
  case (1 moved f cs)
  let ?S = "set (item_ids (ChromeNode f cs))"
  from "1.prems" consider "i = ci_id f"
    | c where "c \<in> set cs" "i \<in> set (item_ids (attach moved c))"
    | x where "x \<in> set moved" "parentKey x = Some (ci_id f)" "i \<in> set (item_ids (attach (filter (\<lambda>y. y \<noteq> x) moved) x))"
    unfolding attach_ids by auto
  then show ?case
  proof cases
    case 2
    then have "set (item_ids c) \<subseteq> ?S" by auto
    with 2 "1.IH"(1)[of c] show ?thesis using leads_mono[of "set moved" "set (item_ids c)" _ "set moved" ?S] by blast
  next
    case 3
    have x: "leads (set moved) ?S x" using 3 by (intro leads_here[of _ _ "ci_id f"]) auto
    have up: "leads (set moved) ?S m" if "leads {y \<in> set moved. y \<noteq> x} (set (item_ids x)) m" for m
      using that by (induction rule: leads.induct) (use x 3 in \<open>blast intro: leads.intros\<close>)+
    from 3 "1.IH"(2)[of x] consider "i \<in> set (item_ids x)" | m where "leads {y \<in> set moved. y \<noteq> x} (set (item_ids x)) m" "i \<in> set (item_ids m)"
      by auto
    then show ?thesis using x up by cases blast+
  qed simp
qed

text \<open>The ids below a set of ids, with those of the items that lead there.\<close>

definition spread :: "chrome_node set \<Rightarrow> string set \<Rightarrow> string set" where
  "spread M S = S \<union> \<Union> {set (item_ids m) | m. leads M S m}"

definition apart :: "chrome_node set \<Rightarrow> bool" where
  "apart M \<longleftrightarrow> (\<forall>x \<in> M. \<forall>y \<in> M. \<forall>i. i \<in> set (item_ids x) \<longrightarrow> i \<in> set (item_ids y) \<longrightarrow> x = y)"

text \<open>No item of \<open>M\<close> that has an id of \<open>S\<close> leads to \<open>T\<close>.\<close>

definition clear_of :: "chrome_node set \<Rightarrow> string set \<Rightarrow> string set \<Rightarrow> bool" where
  "clear_of M S T \<longleftrightarrow> (\<forall>m \<in> M. \<forall>i. i \<in> set (item_ids m) \<longrightarrow> i \<in> S \<longrightarrow> \<not> leads M T m)"

lemma apartD: "apart M \<Longrightarrow> x \<in> M \<Longrightarrow> y \<in> M \<Longrightarrow> i \<in> set (item_ids x) \<Longrightarrow> i \<in> set (item_ids y) \<Longrightarrow> x = y"
  unfolding apart_def by blast

lemma attach_spread:
  assumes "set moved \<subseteq> M"
  shows "set (item_ids (attach moved item)) \<subseteq> spread M (set (item_ids item))"
proof
  fix i assume "i \<in> set (item_ids (attach moved item))"
  then consider "i \<in> set (item_ids item)" | m where "leads (set moved) (set (item_ids item)) m" "i \<in> set (item_ids m)"
    using attach_leads by blast
  then show "i \<in> spread M (set (item_ids item))"
  proof cases
    case (2 m)
    then show ?thesis using leads_mono[OF 2(1) assms order_refl] unfolding spread_def by blast
  qed (simp add: spread_def)
qed

lemma leads_one_way:
  assumes "leads M S x" "leads M T x" "apart M" "S \<inter> T = {}" "clear_of M S T" "clear_of M T S"
  shows False
  using assms(1,2)
proof (induction rule: leads.induct)
  case (leads_here x p)
  from leads_here.prems show ?case
  proof (cases rule: leads.cases)
    case (leads_up q y)
    then show ?thesis using leads_here assms(5) unfolding clear_of_def by force
  qed (use leads_here assms(4) in auto)
next
  case (leads_up x p y)
  from leads_up.prems show ?case
  proof (cases rule: leads.cases)
    case (leads_here q)
    then show ?thesis using leads_up assms(6) unfolding clear_of_def by force
  next
    case (leads_up q z)
    then have "y = z" using leads_up.hyps apartD[OF assms(3), of y z p] by simp
    then show ?thesis using leads_up leads_up.IH by blast
  qed
qed

lemma spread_disjoint:
  assumes "apart M" "S \<inter> T = {}" "clear_of M S T" "clear_of M T S"
  shows "spread M S \<inter> spread M T = {}"
proof (rule ccontr)
  assume "spread M S \<inter> spread M T \<noteq> {}"
  then obtain i where i: "i \<in> spread M S" "i \<in> spread M T" by blast
  have no: False if "i \<in> A" "leads M B m" "i \<in> set (item_ids m)" "clear_of M A B" for A B m
    using that leads_member[OF that(2)] unfolding clear_of_def by blast
  from i assms(2) consider m where "i \<in> S" "leads M T m" "i \<in> set (item_ids m)"
    | m where "i \<in> T" "leads M S m" "i \<in> set (item_ids m)"
    | m n where "leads M S m" "i \<in> set (item_ids m)" "leads M T n" "i \<in> set (item_ids n)"
    unfolding spread_def by blast
  then show False
  proof cases
    case (3 m n)
    then have "m = n" using apartD[OF assms(1)] leads_member by blast
    with 3 show False using leads_one_way assms by blast
  qed (use no assms in blast)+
qed

lemma clear_of_outside: "(\<And>m. m \<in> M \<Longrightarrow> set (item_ids m) \<inter> S = {}) \<Longrightarrow> clear_of M S T"
  unfolding clear_of_def by blast

lemma clear_of_member:
  assumes "apart M" "x \<in> M" "parentKey x = Some p" "p \<notin> T" "\<And>m. m \<in> M \<Longrightarrow> p \<notin> set (item_ids m)"
  shows "clear_of M (set (item_ids x)) T"
proof -
  have "\<not> leads M T x" using assms(3-5) by (auto elim: leads.cases)
  then show ?thesis using apartD[OF assms(1) _ assms(2)] unfolding clear_of_def by blast
qed

lemma attached_disjoint:
  assumes "apart M" "set l \<subseteq> M" "set k \<subseteq> M" "set (item_ids x) \<inter> set (item_ids y) = {}"
    and "clear_of M (set (item_ids x)) (set (item_ids y))" "clear_of M (set (item_ids y)) (set (item_ids x))"
  shows "set (item_ids (attach l x)) \<inter> set (item_ids (attach k y)) = {}"
  using spread_disjoint[OF assms(1,4-6)] attach_spread[OF assms(2), of x] attach_spread[OF assms(3), of y] by blast

lemma distinct_concat_map:
  assumes "distinct xs" "\<And>x. x \<in> set xs \<Longrightarrow> distinct (g x)"
    and "\<And>x y. x \<in> set xs \<Longrightarrow> y \<in> set xs \<Longrightarrow> x \<noteq> y \<Longrightarrow> set (g x) \<inter> set (g y) = {}"
  shows "distinct (concat (map g xs))"
  using assms
proof (induction xs)
  case (Cons x xs)
  have "set (g x) \<inter> set (g y) = {}" if "y \<in> set xs" for y
    using Cons.prems(1) that by (intro Cons.prems(3)) auto
  moreover have "distinct (concat (map g xs))" using Cons by simp
  ultimately show ?case using Cons.prems(2) by auto
qed simp

lemma distinct_items:
  assumes "distinct (concat (map item_ids xs))"
  shows "distinct xs" and "\<And>x. x \<in> set xs \<Longrightarrow> distinct (item_ids x)"
  using assms
proof (induction xs)
  case (Cons x xs)
  { case 1
    then have "set (item_ids x) \<inter> (\<Union>a \<in> set xs. set (item_ids a)) = {}" by simp
    then have "x \<notin> set xs" using item_id_in_ids[of x] by blast
    with 1 show ?case using Cons.IH(1) by simp }
  { case 2
    then show ?case using Cons.IH(2) by auto }
qed simp_all

lemma attach_distinct:
  assumes "distinct (item_ids item)" "distinct moved" "apart (set moved)"
    and "\<And>m. m \<in> set moved \<Longrightarrow> distinct (item_ids m) \<and> set (item_ids m) \<inter> set (item_ids item) = {}"
  shows "distinct (item_ids (attach moved item))"
  using assms
proof (induction moved item rule: attach.induct)
  case (1 moved f cs)
  let ?M = "set moved"
  let ?below = "filter (\<lambda>m. parentKey m = Some (ci_id f)) moved"
  let ?rest = "\<lambda>m. filter (\<lambda>y. y \<noteq> m) moved"
  have outside: "set (item_ids m) \<inter> set (item_ids c) = {}" if "m \<in> ?M" "c \<in> set cs" for m c
    using "1.prems"(4)[OF that(1)] that(2) by auto
  have own: "ci_id f \<notin> set (item_ids c)" if "c \<in> set cs" for c using "1.prems"(1) that by auto
  have own': "ci_id f \<notin> set (item_ids m)" if "m \<in> ?M" for m using "1.prems"(4)[OF that] by auto
  have other: "set (item_ids m) \<inter> set (item_ids n) = {}" if "m \<in> ?M" "n \<in> ?M" "m \<noteq> n" for m n
    using apartD[OF "1.prems"(3) that(1,2)] that(3) by blast
  have children: "distinct (concat (map item_ids cs))" using "1.prems"(1) by simp
  note apart = attached_disjoint[OF "1.prems"(3)]
  have clear_c: "clear_of ?M (set (item_ids c)) T" if "c \<in> set cs" for c T
    using outside that by (intro clear_of_outside) blast
  have clear_x: "clear_of ?M (set (item_ids x)) T" if "x \<in> set ?below" "ci_id f \<notin> T" for x T
    using that own' by (intro clear_of_member[OF "1.prems"(3), of x "ci_id f"]) auto
  have cc: "set (item_ids (attach moved c)) \<inter> set (item_ids (attach moved d)) = {}" if "c \<in> set cs" "d \<in> set cs" "c \<noteq> d" for c d
    using same_item[OF children that(1,2)] that(3) by (intro apart clear_c that) auto
  have cx: "set (item_ids (attach moved c)) \<inter> set (item_ids (attach (?rest x) x)) = {}" if "c \<in> set cs" "x \<in> set ?below" for c x
    using outside[of x c] that own by (intro apart clear_c clear_x) auto
  have xx: "set (item_ids (attach (?rest x) x)) \<inter> set (item_ids (attach (?rest y) y)) = {}" if "x \<in> set ?below" "y \<in> set ?below" "x \<noteq> y" for x y
    using other[of x y] own' that by (intro apart clear_x) auto
  have "distinct (concat (map (\<lambda>c. item_ids (attach moved c)) cs))"
    using distinct_items[OF children] "1.IH"(1) "1.prems"(2-4) outside cc by (intro distinct_concat_map) auto
  moreover have "distinct (concat (map (\<lambda>x. item_ids (attach (?rest x) x)) ?below))"
  proof (rule distinct_concat_map)
    fix x assume x: "x \<in> set ?below"
    have "apart (set (?rest x))" using "1.prems"(3) unfolding apart_def by auto
    then show "distinct (item_ids (attach (?rest x) x))"
      using x "1.IH"(2)[of x] "1.prems"(2,4) other by auto
  qed (use xx "1.prems"(2) in auto)
  moreover have "ci_id f \<notin> set (item_ids (attach moved c))" if "c \<in> set cs" for c
    using attach_only[of "ci_id f" moved c] own[OF that] own' by blast
  moreover have "ci_id f \<notin> set (item_ids (attach (?rest x) x))" if "x \<in> set ?below" for x
    using attach_only[of "ci_id f" "?rest x" x] that own' by auto
  moreover have "set (concat (map (\<lambda>c. item_ids (attach moved c)) cs)) \<inter> set (concat (map (\<lambda>x. item_ids (attach (?rest x) x)) ?below)) = {}"
    using cx by fastforce
  ultimately show ?case unfolding attach_ids by simp
qed

section \<open>Building\<close>

lemma claim_ids: "fold_res claim_id order is = Inr order' \<Longrightarrow> order' = order @ is"
  by (induction "is" arbitrary: order) (fastforce simp: claim_id_def rbind_Inr_iff split: if_splits)+

lemma claim_ids_distinct: "fold_res claim_id order is = Inr order' \<Longrightarrow> distinct order \<Longrightarrow> distinct order'"
  by (erule fold_res_invariant) (auto simp: claim_id_def split: if_splits)

lemma claim_ids_reserved: "fold_res claim_id order is = Inr order' \<Longrightarrow> SETTINGS_ID \<notin> set order \<Longrightarrow> SETTINGS_ID \<notin> set order'"
  by (erule fold_res_invariant) (auto simp: claim_id_def split: if_splits)

lemma claim_ids_total: "distinct (order @ is) \<Longrightarrow> SETTINGS_ID \<notin> set is \<Longrightarrow> fold_res claim_id order is = Inr (order @ is)"
  by (induction "is" arbitrary: order) (auto simp: claim_id_def)

lemma buildMenuTree_Inr:
  assumes "buildMenuTree items = Inr tree"
  shows "mt_roots tree = built_roots items" "mt_order tree = concat (map item_ids items)" "distinct (mt_order tree)"
    and "\<And>x p. x \<in> set items \<Longrightarrow> parentKey x = Some p \<Longrightarrow> p \<in> set (mt_order tree)"
    and "\<And>i. i \<in> set (mt_order tree) \<Longrightarrow> climb (parent_links items) {} i = Inr ()"
proof -
  from assms obtain order where order: "fold_res claim_id [] (concat (map item_ids items)) = Inr order"
    and parents: "\<forall>item \<in> set (contributed items). or_else (parentKey item) [] \<in> set order"
    and climbs: "\<forall>i \<in> set order. climb (parent_links items) {} i = Inr ()"
    and tree: "tree = \<lparr>mt_roots = built_roots items, mt_order = order\<rparr>"
    by (auto simp: buildMenuTree_def rbind_Inr_iff each_res_Inr guard_def built_roots_def split: if_splits)
  from tree show "mt_roots tree = built_roots items" by simp
  from tree claim_ids[OF order] show "mt_order tree = concat (map item_ids items)" by simp
  from tree claim_ids_distinct[OF order] show "distinct (mt_order tree)" by simp
  show "p \<in> set (mt_order tree)" if "x \<in> set items" "parentKey x = Some p" for x p
    using bspec[OF parents, of x] that tree by (simp add: contributed_def or_else_def)
  show "climb (parent_links items) {} i = Inr ()" if "i \<in> set (mt_order tree)" for i
    using climbs that tree by simp
qed

lemma build_reserved: "buildMenuTree items = Inr tree \<Longrightarrow> SETTINGS_ID \<notin> set (mt_order tree)"
  by (auto simp: buildMenuTree_def rbind_Inr_iff dest: claim_ids_reserved)

lemma built_ids:
  assumes "buildMenuTree items = Inr tree"
  shows "set (concat (map item_ids (built_roots items))) = set (mt_order tree)"
proof
  note build = buildMenuTree_Inr[OF assms]
  show "set (concat (map item_ids (built_roots items))) \<subseteq> set (mt_order tree)"
    using attach_only[of _ "contributed items"] by (fastforce simp: built_roots_def build contributed_def)
  show "set (mt_order tree) \<subseteq> set (concat (map item_ids (built_roots items)))"
  proof
    fix i assume i: "i \<in> set (mt_order tree)"
    then obtain x where x: "x \<in> set items" "i \<in> set (item_ids x)" by (auto simp: build)
    then have "reached items x"
      using climb_reached[OF build(5)[OF i] x] build(2-4) by simp
    then show "i \<in> set (concat (map item_ids (built_roots items)))" using reached_ids x by blast
  qed
qed

lemma built_distinct:
  assumes "buildMenuTree items = Inr tree"
  shows "distinct (concat (map item_ids (built_roots items)))"
proof -
  note build = buildMenuTree_Inr[OF assms]
  let ?moved = "contributed items"
  have ids: "distinct (concat (map item_ids items))" using build(2,3) by simp
  have separate: "set (item_ids x) \<inter> set (item_ids y) = {}" if "x \<in> set items" "y \<in> set items" "x \<noteq> y" for x y
    using same_item[OF ids that(1,2)] that(3) by blast
  have apart: "apart (set ?moved)" using same_item[OF ids] unfolding apart_def contributed_def by auto
  have root: "x \<in> set items" "x \<notin> set ?moved" "clear_of (set ?moved) (set (item_ids x)) T"
    if "x \<in> set (filter (\<lambda>item. parentKey item = None) items)" for x T
  proof -
    show "x \<in> set items" "x \<notin> set ?moved" using that by (auto simp: contributed_def)
    show "clear_of (set ?moved) (set (item_ids x)) T"
    proof (rule clear_of_outside)
      fix m assume "m \<in> set ?moved"
      then have "m \<in> set items" "m \<noteq> x" using that by (auto simp: contributed_def)
      then show "set (item_ids m) \<inter> set (item_ids x) = {}" using separate that by auto
    qed
  qed
  have "distinct (item_ids (attach ?moved x))" if x: "x \<in> set (filter (\<lambda>item. parentKey item = None) items)" for x
  proof (rule attach_distinct[OF _ _ apart])
    show "distinct (item_ids x)" "distinct ?moved" using distinct_items[OF ids] root[OF x] by (auto simp: contributed_def)
    fix m assume m: "m \<in> set ?moved"
    then have "m \<in> set items" "m \<noteq> x" using root[OF x] by (auto simp: contributed_def)
    then show "distinct (item_ids m) \<and> set (item_ids m) \<inter> set (item_ids x) = {}"
      using distinct_items(2)[OF ids] separate root(1)[OF x] by simp
  qed
  moreover have "set (item_ids (attach ?moved x)) \<inter> set (item_ids (attach ?moved y)) = {}"
    if "x \<in> set (filter (\<lambda>item. parentKey item = None) items)" "y \<in> set (filter (\<lambda>item. parentKey item = None) items)" "x \<noteq> y" for x y
    using root[OF that(1)] root[OF that(2)] separate that(3) by (intro attached_disjoint[OF apart]) auto
  ultimately show ?thesis
    using distinct_items(1)[OF ids] distinct_concat_map[of "filter (\<lambda>item. parentKey item = None) items" "item_ids \<circ> attach ?moved"]
    by (simp add: built_roots_def o_def)
qed

lemma built_nodes:
  assumes "buildMenuTree items = Inr tree"
  shows "mset (map (item_id \<circ> last) (tree_trails tree)) = mset (concat (map item_ids items))"
proof -
  note build = buildMenuTree_Inr[OF assms]
  have "mset (concat (map item_ids (built_roots items))) = mset (mt_order tree)"
    using built_distinct[OF assms] build(3) built_ids[OF assms] by (simp only: set_eq_iff_mset_eq_distinct)
  then show ?thesis using forest_trail_ids by (simp add: tree_trails_def build)
qed

section \<open>Parents\<close>

definition tree_links :: "chrome_node list \<Rightarrow> (string \<times> string) list" where
  "tree_links items = concat (map nested_links items)"

lemma trail_link:
  "t \<in> set (item_trails outer item) \<Longrightarrow>
     t = outer @ [item] \<or> (length t \<ge> Suc (Suc (length outer)) \<and> (item_id (last t), item_id (last (butlast t))) \<in> set (nested_links item))"
proof (induction outer item rule: item_trails.induct)
  case (1 outer f cs)
  let ?item = "ChromeNode f cs"
  from "1.prems" consider "t = outer @ [?item]" | c where "c \<in> set cs" "t \<in> set (item_trails (outer @ [?item]) c)" by auto
  then show ?case
  proof cases
    case (2 c)
    from "1.IH"[OF this] show ?thesis
    proof
      assume "t = (outer @ [?item]) @ [c]"
      then show ?thesis using 2 by (auto simp: butlast_append)
    qed (use 2 in auto)
  qed simp
qed

lemma forest_trail_link:
  assumes "t \<in> set (forest_trails roots)"
  shows "(\<exists>r \<in> set roots. t = [r]) \<or> (length t > 1 \<and> (item_id (last t), item_id (last (butlast t))) \<in> set (tree_links roots))"
proof -
  from assms obtain r where r: "r \<in> set roots" "t \<in> set (item_trails [] r)" by (auto simp: forest_trails_def)
  with trail_link[OF r(2)] show ?thesis by (auto simp: tree_links_def)
qed

lemma attach_fields [simp]: "item_fields (attach moved item) = item_fields item"
  by (cases item) (simp add: attach.simps)

lemma attach_links:
  "l \<in> set (nested_links (attach moved item)) \<Longrightarrow>
     l \<in> set (nested_links item) \<or> (\<exists>m \<in> set moved. l \<in> set (nested_links m) \<or> (\<exists>p. parentKey m = Some p \<and> l = (item_id m, p)))"
proof (induction moved item rule: attach.induct)
  case (1 moved f cs)
  let ?rest = "\<lambda>m. filter (\<lambda>x. x \<noteq> m) moved"
  from "1.prems" consider c where "c \<in> set cs" "l = (item_id c, ci_id f)"
    | c where "c \<in> set cs" "l \<in> set (nested_links (attach moved c))"
    | m where "m \<in> set moved" "parentKey m = Some (ci_id f)" "l = (item_id m, ci_id f)"
    | m where "m \<in> set moved" "parentKey m = Some (ci_id f)" "l \<in> set (nested_links (attach (?rest m) m))"
    by (subst (asm) attach.simps) auto
  then show ?case
  proof cases
    case (2 c)
    with "1.IH"(1)[of c] show ?thesis by auto
  next
    case (4 m)
    with "1.IH"(2)[of m] show ?thesis by auto
  qed auto
qed

lemma built_link:
  assumes "buildMenuTree items = Inr tree" "t \<in> set (tree_trails tree)" "length t > 1"
  shows "(item_id (last t), item_id (last (butlast t))) \<in> set (parent_links items)"
proof -
  have roots: "mt_roots tree = built_roots items" using buildMenuTree_Inr(1)[OF assms(1)] .
  have "\<not> (\<exists>r \<in> set (built_roots items). t = [r])" using assms(3) by auto
  then have "(item_id (last t), item_id (last (butlast t))) \<in> set (tree_links (built_roots items))"
    using forest_trail_link[of t] assms(2) unfolding tree_trails_def roots by blast
  then obtain x where x: "x \<in> set items" and link: "(item_id (last t), item_id (last (butlast t))) \<in> set (nested_links (attach (contributed items) x))"
    by (auto simp: tree_links_def built_roots_def)
  let ?l = "(item_id (last t), item_id (last (butlast t)))"
  from attach_links[OF link] x
  consider y where "y \<in> set items" "?l \<in> set (nested_links y)" | m p where "m \<in> set items" "parentKey m = Some p" "?l = (item_id m, p)"
    by (auto simp: contributed_def)
  then show ?thesis
  proof cases
    case (2 m p)
    then show ?thesis by (force simp: parent_links_def List.map_filter_def)
  qed (auto simp: parent_links_def)
qed

lemma built_root:
  assumes "buildMenuTree items = Inr tree" "r \<in> set (mt_roots tree)"
  shows "parentKey r = None"
  using assms buildMenuTree_Inr(1)[OF assms(1)] by (auto simp: built_roots_def parentKey_def)

section \<open>Trees rebuilt\<close>

lemma attach_nothing [simp]: "attach [] item = item"
proof (induction item rule: item_ids.induct)
  case (1 f cs)
  then have "map (attach []) cs = cs" by (simp add: map_idI)
  then show ?case by (subst attach.simps) simp
qed

lemma nested_link_keys: "mset (map fst (nested_links item)) = mset (concat (map item_ids (item_children item)))"
proof (induction item rule: nested_links.induct)
  case (1 f cs)
  have "mset (map fst (concat (map nested_links cs))) = mset (concat (map (\<lambda>c. concat (map item_ids (item_children c))) cs))"
    using 1 by (induction cs) auto
  moreover have "mset (concat (map item_ids ds)) = mset (map item_id ds) + mset (concat (map (\<lambda>c. concat (map item_ids (item_children c))) ds))" for ds
  proof (induction ds)
    case (Cons d ds)
    then show ?case using item_ids_Cons[of d] by (simp only: list.map concat.simps mset_append mset.simps) simp
  qed simp
  ultimately show ?case by (simp add: o_def)
qed

lemma tree_link_keys: "mset (concat (map item_ids roots)) = mset (map item_id roots) + mset (map fst (tree_links roots))"
proof (induction roots)
  case (Cons r roots)
  then show ?case using item_ids_Cons[of r] nested_link_keys[of r]
    by (simp only: tree_links_def list.map concat.simps mset_append map_append mset.simps) simp
qed (simp add: tree_links_def)

lemma distinct_links:
  assumes "distinct (concat (map item_ids roots))"
  shows "distinct (map fst (tree_links roots))" "\<And>r. r \<in> set roots \<Longrightarrow> item_id r \<notin> fst ` set (tree_links roots)"
proof -
  have "mset (concat (map item_ids roots)) = mset (map item_id roots @ map fst (tree_links roots))"
    using tree_link_keys by simp
  then have d: "distinct (map item_id roots @ map fst (tree_links roots))"
    using assms mset_eq_imp_distinct_iff by blast
  then show "distinct (map fst (tree_links roots))" by simp
  from d show "item_id r \<notin> fst ` set (tree_links roots)" if "r \<in> set roots" for r using that by auto
qed

lemma trail_prefix:
  "t \<in> set (item_trails outer item) \<Longrightarrow> t = outer @ [item] \<or> (butlast t \<in> set (item_trails outer item))"
proof (induction outer item rule: item_trails.induct)
  case (1 outer f cs)
  let ?item = "ChromeNode f cs"
  from "1.prems" consider "t = outer @ [?item]" | c where "c \<in> set cs" "t \<in> set (item_trails (outer @ [?item]) c)" by auto
  then show ?case
  proof cases
    case (2 c)
    from "1.IH"[OF this] show ?thesis
    proof
      assume "t = (outer @ [?item]) @ [c]"
      then show ?thesis by (simp add: butlast_append)
    qed (use 2 in auto)
  qed simp
qed

lemma trail_distinct:
  assumes "t \<in> set (item_trails outer item)" "distinct (item_ids item)"
  shows "\<exists>s. t = outer @ s \<and> s \<noteq> [] \<and> distinct (map item_id s) \<and> set (map item_id s) \<subseteq> set (item_ids item)"
  using assms
proof (induction outer item rule: item_trails.induct)
  case (1 outer f cs)
  let ?item = "ChromeNode f cs"
  from "1.prems"(1) consider "t = outer @ [?item]" | c where "c \<in> set cs" "t \<in> set (item_trails (outer @ [?item]) c)" by auto
  then show ?case
  proof cases
    case (2 c)
    then have "distinct (item_ids c)" using "1.prems"(2) distinct_items(2)[of cs c] by simp
    from "1.IH"[OF 2 this] obtain s where s: "t = (outer @ [?item]) @ s" "s \<noteq> []" "distinct (map item_id s)" "set (map item_id s) \<subseteq> set (item_ids c)"
      by blast
    have "ci_id f \<notin> set (item_ids c)" using "1.prems"(2) 2 by auto
    then show ?thesis using s 2 by (intro exI[of _ "?item # s"]) auto
  qed simp
qed

lemma climb_trail:
  assumes ids: "distinct (concat (map item_ids roots))"
  shows "t \<in> set (forest_trails roots) \<Longrightarrow> V \<inter> set (map item_id t) = {} \<Longrightarrow> climb (tree_links roots) V (item_id (last t)) = Inr ()"
proof (induction "length t" arbitrary: t V rule: less_induct)
  case less
  let ?i = "item_id (last t)"
  have t: "t \<noteq> []" using less.prems(1) by (rule forest_trails_Nil)
  then have fresh: "?i \<notin> V" using less.prems(2) by auto
  from forest_trail_link[OF less.prems(1)] show ?case
  proof
    assume "\<exists>r \<in> set roots. t = [r]"
    then obtain r where "r \<in> set roots" "t = [r]" by blast
    then have "map_of (tree_links roots) ?i = None" using distinct_links(2)[OF ids, of r] by (simp add: map_of_eq_None_iff)
    with fresh show ?thesis by (simp add: climb.simps)
  next
    assume link: "length t > 1 \<and> (?i, item_id (last (butlast t))) \<in> set (tree_links roots)"
    then have Some: "map_of (tree_links roots) ?i = Some (item_id (last (butlast t)))"
      using distinct_links(1)[OF ids] by (simp add: map_of_is_SomeI)
    obtain r where r: "r \<in> set roots" "t \<in> set (item_trails [] r)" using less.prems(1) by (auto simp: forest_trails_def)
    have d: "distinct (map item_id t)" using trail_distinct[OF r(2)] distinct_items(2)[OF ids r(1)] by auto
    have "butlast t \<in> set (forest_trails roots)"
      using trail_prefix[OF r(2)] link r(1) by (auto simp: forest_trails_def)
    moreover have "insert ?i V \<inter> set (map item_id (butlast t)) = {}"
    proof -
      have "map item_id t = map item_id (butlast t) @ [?i]" 
        using arg_cong[OF append_butlast_last_id[OF t, symmetric], of "map item_id"] by simp
      then have "?i \<notin> set (map item_id (butlast t))" using d by auto
      then show ?thesis using less.prems(2) by (auto dest: in_set_butlastD)
    qed
    ultimately have "climb (tree_links roots) (insert ?i V) (item_id (last (butlast t))) = Inr ()"
      using less.hyps[of "butlast t"] t by simp
    with fresh Some show ?thesis by (simp add: climb.simps)
  qed
qed

lemma rebuild:
  assumes ids: "distinct (concat (map item_ids items))" "SETTINGS_ID \<notin> set (concat (map item_ids items))"
    and roots: "\<And>x. x \<in> set items \<Longrightarrow> parentKey x = None"
  shows "buildMenuTree items = Inr \<lparr>mt_roots = items, mt_order = concat (map item_ids items)\<rparr>"
proof -
  have none: "contributed items = []" "filter (\<lambda>item. parentKey item = None) items = items"
    using roots by (auto simp: contributed_def filter_empty_conv filter_id_conv)
  have links: "parent_links items = tree_links items"
    using roots by (auto simp: parent_links_def tree_links_def List.map_filter_def filter_empty_conv)
  have "climb (tree_links items) {} i = Inr ()" if i: "i \<in> set (concat (map item_ids items))" for i
  proof -
    from i obtain t where "t \<in> set (forest_trails items)" "i = item_id (last t)"
      by (auto simp flip: forest_trail_ids)
    then show ?thesis using climb_trail[OF ids(1), of t "{}"] by simp
  qed
  then have "each_res (climb (parent_links items) {}) (concat (map item_ids items)) = Inr ()"
    by (simp only: each_res_Inr links) simp
  moreover have "fold_res claim_id [] (concat (map item_ids items)) = Inr (concat (map item_ids items))"
    using claim_ids_total[of "[]"] ids by simp
  ultimately show ?thesis unfolding buildMenuTree_def none by (simp add: map_idI)
qed

section \<open>The settings place\<close>

lemma lift_fields [simp]: "item_fields (fst (lift_settings item)) = item_fields item"
  by (cases item) (simp add: Let_def)

definition settings_root :: "chrome_node \<Rightarrow> chrome_node" where
  "settings_root c = ChromeNode ((item_fields c)\<lparr>ci_parentId := None, ci_app := False\<rparr>) (item_children c)"

text \<open>A child of an app: it stays, without its platform nodes, or becomes a root of the settings.\<close>

definition lift_child :: "chrome_node \<Rightarrow> chrome_node option \<times> chrome_node list" where
  "lift_child c = (if is_platform c then (None, [settings_root c]) else (Some (fst (lift_settings c)), snd (lift_settings c)))"

lemma lift_settings_alt:
  "lift_settings (ChromeNode f cs) = (ChromeNode f (List.map_filter fst (map lift_child cs)), concat (map snd (map lift_child cs)))"
proof -
  have "map (\<lambda>c. if is_platform c then (None, [ChromeNode ((item_fields c)\<lparr>ci_parentId := None, ci_app := False\<rparr>) (item_children c)])
                 else (let (c', settings) = lift_settings c in (Some c', settings))) cs = map lift_child cs"
    by (simp add: lift_child_def settings_root_def split: prod.split)
  then show ?thesis by (simp only: lift_settings.simps Let_def)
qed

declare lift_settings.simps [simp del]

lemma settings_items_alt:
  "settings_items roots = concat (map (\<lambda>r. if is_platform r then [r] else fst (lift_settings r) # snd (lift_settings r)) roots)"
  by (simp add: settings_items_def split_beta cong: if_cong)

lemma settings_root_ids [simp]: "item_ids (settings_root c) = item_ids c"
  by (cases c) (simp add: settings_root_def)

lemma lift_child_ids:
  assumes "\<And>c. c \<in> set cs \<Longrightarrow> \<not> is_platform c \<Longrightarrow>
    mset (item_ids (fst (lift_settings c))) + mset (concat (map item_ids (snd (lift_settings c)))) = mset (item_ids c)"
  shows "mset (concat (map item_ids (List.map_filter fst (map lift_child cs)))) + mset (concat (map item_ids (concat (map snd (map lift_child cs)))))
    = mset (concat (map item_ids cs))"
  using assms
proof (induction cs)
  case (Cons c cs)
  note head = Cons.prems[of c] and tail = Cons.IH[OF Cons.prems]
  show ?case
  proof (cases "is_platform c")
    case True
    then show ?thesis using tail by (simp add: lift_child_def List.map_filter_def ac_simps)
  next
    case False
    then show ?thesis using head tail by (simp add: lift_child_def List.map_filter_def ac_simps flip: union_assoc)
  qed
qed (simp add: List.map_filter_def)

lemma lift_ids: "mset (item_ids (fst (lift_settings item))) + mset (concat (map item_ids (snd (lift_settings item)))) = mset (item_ids item)"
proof (induction item rule: item_ids.induct)
  case (1 f cs)
  then show ?case using lift_child_ids[of cs] unfolding lift_settings_alt by simp
qed

lemma settings_ids: "mset (concat (map item_ids (settings_items roots))) = mset (concat (map item_ids roots))"
proof (induction roots)
  case (Cons r roots)
  then show ?case using lift_ids[of r] by (auto simp: settings_items_alt ac_simps)
qed (simp add: settings_items_alt)

lemma lifted_settings: "x \<in> set (snd (lift_settings item)) \<Longrightarrow> is_platform x \<and> parentKey x = None"
proof (induction item rule: item_ids.induct)
  case (1 f cs)
  then obtain c where c: "c \<in> set cs" "x \<in> set (snd (lift_child c))" by (auto simp: lift_settings_alt)
  show ?case
  proof (cases "is_platform c")
    case True
    then have "x = settings_root c" using c by (simp add: lift_child_def)
    then show ?thesis using True by (simp add: settings_root_def parentKey_def is_platform_def truthy_string_def)
  next
    case False
    then show ?thesis using c 1(1)[of c] by (simp add: lift_child_def)
  qed
qed

lemma settings_items_cases:
  assumes "x \<in> set (settings_items roots)"
  obtains "x \<in> set roots" "is_platform x" | r where "r \<in> set roots" "\<not> is_platform r" "x = fst (lift_settings r)"
    | "is_platform x" "parentKey x = None"
proof -
  from assms obtain r where r: "r \<in> set roots" "x \<in> set (if is_platform r then [r] else fst (lift_settings r) # snd (lift_settings r))"
    by (auto simp: settings_items_alt)
  then show thesis using lifted_settings[of x r] that by (cases "is_platform r") auto
qed

lemma lifted_app:
  "t \<in> set (item_trails outer (fst (lift_settings item))) \<Longrightarrow> \<not> is_platform item \<Longrightarrow> \<not> is_platform (last t)"
proof (induction item arbitrary: outer rule: item_ids.induct)
  case (1 f cs)
  let ?app = "ChromeNode f (List.map_filter fst (map lift_child cs))"
  from "1.prems"(1) consider "t = outer @ [?app]"
    | c where "c \<in> set cs" "\<not> is_platform c" "t \<in> set (item_trails (outer @ [?app]) (fst (lift_settings c)))"
    by (auto simp: lift_settings_alt List.map_filter_def lift_child_def split: if_splits)
  then show ?case
  proof cases
    case 1
    then show ?thesis using "1.prems"(2) by (simp add: is_platform_def)
  next
    case (2 c)
    with "1.IH"[of c "outer @ [?app]"] show ?thesis by blast
  qed
qed

section \<open>Plain items\<close>

definition plain_item :: "string \<Rightarrow> string option \<Rightarrow> string option \<Rightarrow> chrome_item" where
  "plain_item i target parent =
     \<lparr>ci_id = i, ci_label = None, ci_route = None, ci_params = None, ci_defaultResourceView = None, ci_to = target,
      ci_icon = None, ci_parentId = parent, ci_app = False, ci_description = None, ci_group = None, ci_status = None,
      ci_tone = None, ci_badge = None, ci_hidden = False, ci_personal = False, ci_home = None, ci_brand = Undefined,
      ci_theme = None, ci_railExpanded = None, ci_requires = None, ci_flatten = False\<rparr>"

definition sample_reader :: url_reader where
  "sample_reader = \<lparr>url_pathname = takeWhile (\<lambda>c. c \<noteq> CHR ''?''), url_search = dropWhile (\<lambda>c. c \<noteq> CHR ''?''), url_params = (\<lambda>_. [])\<rparr>"

end
