(* ===== verification/MenuTreeClaims.thy ===== *)
theory MenuTreeClaims
  imports MenuForest
begin

text \<open>
  The place of a page in the menu tree: \<open>matchWithin\<close> returns the first trail of greatest rank, and a
  page with a declared anchor is placed at the anchor or at a destination of its own.
\<close>

section \<open>Ranks\<close>

lemma rank_above_irrefl [simp]: "\<not> rank_above r r"
  by (induction r) auto

lemma rank_above_trans: "rank_above p q \<Longrightarrow> rank_above q r \<Longrightarrow> rank_above p r"
proof (induction p q arbitrary: r rule: rank_above.induct)
  case (1 x xs y ys)
  then show ?case by (cases r) (auto split: if_splits)
qed auto

lemma rank_above_total: "length p = length q \<Longrightarrow> \<not> rank_above p q \<Longrightarrow> p = q \<or> rank_above q p"
  by (induction p q rule: rank_above.induct) (auto split: if_splits)

lemma rank_above_weak: "rank_above p q \<Longrightarrow> \<not> rank_above r q \<Longrightarrow> length r = length q \<Longrightarrow> rank_above p r"
  using rank_above_total rank_above_trans by metis

lemma rank_above_hd: "p \<noteq> [] \<Longrightarrow> q \<noteq> [] \<Longrightarrow> \<not> rank_above p q \<Longrightarrow> hd p \<le> hd q"
  by (cases p; cases q) (auto split: if_splits)

lemma match_rank_length: "match_rank u pathname params menuId t = Some r \<Longrightarrow> length r = 6"
  by (auto simp: match_rank_def Let_def split: option.splits if_splits)

section \<open>The first trail of greatest rank\<close>

text \<open>\<open>t\<close> is the first of the trails \<open>ts\<close> with the greatest rank \<open>r\<close>.\<close>

definition first_best :: "(chrome_node list \<Rightarrow> int list option) \<Rightarrow> chrome_node list list \<Rightarrow> chrome_node list \<Rightarrow> int list \<Rightarrow> bool" where
  "first_best rank ts t r \<longleftrightarrow>
     (\<exists>pre post. ts = pre @ t # post \<and> rank t = Some r \<and>
        (\<forall>x \<in> set pre. \<forall>q. rank x = Some q \<longrightarrow> rank_above r q) \<and>
        (\<forall>x \<in> set post. \<forall>q. rank x = Some q \<longrightarrow> \<not> rank_above q r))"

lemma first_bestI:
  assumes "ts = pre @ t # post" "rank t = Some r"
    and "\<And>x q. x \<in> set pre \<Longrightarrow> rank x = Some q \<Longrightarrow> rank_above r q"
    and "\<And>x q. x \<in> set post \<Longrightarrow> rank x = Some q \<Longrightarrow> \<not> rank_above q r"
  shows "first_best rank ts t r"
  unfolding first_best_def using assms by blast

lemma first_bestE:
  assumes "first_best rank ts t r"
  obtains pre post where "ts = pre @ t # post" "rank t = Some r"
    "\<And>x q. x \<in> set pre \<Longrightarrow> rank x = Some q \<Longrightarrow> rank_above r q"
    "\<And>x q. x \<in> set post \<Longrightarrow> rank x = Some q \<Longrightarrow> \<not> rank_above q r"
  using assms unfolding first_best_def by blast

lemma first_best_rank: "first_best rank ts t r \<Longrightarrow> t \<in> set ts \<and> rank t = Some r"
  by (elim first_bestE) simp

lemma first_best_greatest: "first_best rank ts t r \<Longrightarrow> x \<in> set ts \<Longrightarrow> rank x = Some q \<Longrightarrow> \<not> rank_above q r"
  using rank_above_trans[of q r q] by (elim first_bestE) fastforce

lemma first_best_keep:
  assumes "first_best rank ts t r" and later: "\<And>q. rank s = Some q \<Longrightarrow> \<not> rank_above q r"
  shows "first_best rank (ts @ [s]) t r"
proof -
  from assms(1) obtain pre post where parts: "ts = pre @ t # post" "rank t = Some r"
    "\<And>x q. x \<in> set pre \<Longrightarrow> rank x = Some q \<Longrightarrow> rank_above r q"
    "\<And>x q. x \<in> set post \<Longrightarrow> rank x = Some q \<Longrightarrow> \<not> rank_above q r"
    unfolding first_best_def by blast
  show ?thesis by (rule first_bestI[of _ pre _ "post @ [s]"]) (use parts later in auto)
qed

lemma first_best_replace:
  assumes best: "first_best rank ts t r" and s: "rank s = Some q" and greater: "rank_above q r"
    and lengths: "\<And>x p. rank x = Some p \<Longrightarrow> length p = n"
  shows "first_best rank (ts @ [s]) s q"
proof -
  have r: "rank t = Some r" using first_best_rank[OF best] by simp
  have "rank_above q p" if "x \<in> set ts" and p: "rank x = Some p" for x p
    using rank_above_weak[OF greater first_best_greatest[OF best that]] lengths[OF p] lengths[OF r] by simp
  then show ?thesis by (intro first_bestI[of _ ts _ "[]"]) (use s in auto)
qed

text \<open>What the loop has found after the trails it has seen.\<close>

definition best_trail :: "(chrome_node list \<Rightarrow> int list option) \<Rightarrow> chrome_node list list \<Rightarrow> (chrome_node list \<times> int list) option \<Rightarrow> bool" where
  "best_trail rank ts best =
     (case best of None \<Rightarrow> \<forall>t \<in> set ts. rank t = None | Some (t, r) \<Rightarrow> first_best rank ts t r)"

lemma best_trail_step:
  assumes best: "best_trail rank ts best" and lengths: "\<And>x p. rank x = Some p \<Longrightarrow> length p = n" and "n \<noteq> 0"
  shows "best_trail rank (ts @ [s]) (consider_trail rank best s)"
proof (cases best)
  case None
  have "rank_above q []" if "rank s = Some q" for q using lengths[OF that] \<open>n \<noteq> 0\<close> by (cases q) auto
  then show ?thesis
    using best None by (cases "rank s") (auto simp: consider_trail_def best_trail_def intro!: first_bestI[of _ ts _ "[]"])
next
  case (Some b)
  then have b: "first_best rank ts (fst b) (snd b)" using best by (cases b) (auto simp: best_trail_def)
  show ?thesis
    using Some first_best_keep[OF b, of s] first_best_replace[OF b, of s _ n] lengths
    by (cases b) (auto simp: consider_trail_def best_trail_def split: option.splits)
qed

lemma best_trail_foldl:
  assumes "\<And>x p. rank x = Some p \<Longrightarrow> length p = n" and "n \<noteq> 0"
  shows "best_trail rank ts (foldl (consider_trail rank) None ts)"
proof (induction ts rule: rev_induct)
  case Nil
  show ?case by (simp add: best_trail_def)
next
  case (snoc s ts)
  show ?case using best_trail_step[of rank ts _ n s, OF snoc.IH assms] by simp
qed

abbreviation location_rank :: "url_reader \<Rightarrow> string \<Rightarrow> string option \<Rightarrow> string option \<Rightarrow> chrome_node list \<Rightarrow> int list option" where
  "location_rank u path search menuId \<equiv> match_rank u (url_pathname u path) (url_params u (or_else search (url_search u path))) menuId"

lemma matchWithin_best:
  "\<exists>best. matchWithin u roots path search menuId = map_option fst best \<and>
     best_trail (location_rank u path search menuId) (forest_trails roots) best"
  unfolding matchWithin_def Let_def
  using best_trail_foldl[of "location_rank u path search menuId" 6 "forest_trails roots", OF match_rank_length] by auto

lemma matchWithin_None:
  "matchWithin u roots path search menuId = None \<longleftrightarrow> (\<forall>t \<in> set (forest_trails roots). location_rank u path search menuId t = None)"
proof -
  obtain best where best: "matchWithin u roots path search menuId = map_option fst best"
      "best_trail (location_rank u path search menuId) (forest_trails roots) best"
    using matchWithin_best by blast
  show ?thesis
  proof (cases best)
    case None
    with best show ?thesis by (simp add: best_trail_def)
  next
    case (Some b)
    with best have "first_best (location_rank u path search menuId) (forest_trails roots) (fst b) (snd b)"
      by (cases b) (simp add: best_trail_def)
    then show ?thesis using best Some by (elim first_bestE) auto
  qed
qed

lemma matchWithin_Some:
  assumes "matchWithin u roots path search menuId = Some t"
  obtains r where "first_best (location_rank u path search menuId) (forest_trails roots) t r"
proof -
  obtain best where best: "matchWithin u roots path search menuId = map_option fst best"
      "best_trail (location_rank u path search menuId) (forest_trails roots) best"
    using matchWithin_best by blast
  with assms obtain r where "best = Some (t, r)" by (cases best) auto
  with best show thesis by (intro that[of r]) (simp add: best_trail_def)
qed

section \<open>Anchors\<close>

text \<open>The page at a trail is a destination of its own: its exact path, and no contrary parameter.\<close>

definition own_destination :: "url_reader \<Rightarrow> string \<Rightarrow> (string \<times> string) list \<Rightarrow> chrome_node \<Rightarrow> bool" where
  "own_destination u pathname params item \<longleftrightarrow>
     node_path u item = Some pathname \<and> (\<forall>p \<in> set (url_params u (node_search u item)). p \<in> set params)"

lemma equal_params_le: "equal_params params targetParams \<le> length targetParams"
  by (simp add: equal_params_def)

lemma equal_params_all: "length targetParams - equal_params params targetParams = 0 \<longleftrightarrow> (\<forall>p \<in> set targetParams. p \<in> set params)"
proof -
  have "length targetParams - equal_params params targetParams = length (filter (\<lambda>p. p \<notin> set params) targetParams)"
    using sum_length_filter_compl[of "\<lambda>p. p \<in> set params" targetParams] by (simp add: equal_params_def)
  then show ?thesis by (auto simp: filter_empty_conv)
qed

lemma rank_of_anchor:
  assumes "t \<noteq> []" "item_id (last t) = anchor"
  shows "\<exists>q. match_rank u pathname params (Some anchor) t = Some q \<and> hd q \<ge> 1"
  using assms by (auto simp: match_rank_def Let_def list_ex_iff split: option.splits)

lemma rank_hd_cases:
  assumes "match_rank u pathname params (Some anchor) t = Some r" "hd r \<ge> 1" "t \<noteq> []"
  shows "anchor \<in> set (map item_id t) \<or> own_destination u pathname params (last t)"
  using assms equal_params_all[of _ params]
  by (auto simp: match_rank_def Let_def list_ex_iff own_destination_def split: option.splits if_splits)

section \<open>Properties\<close>

text \<open>
  C34: building a menu tree loses no item and makes no item twice: its nodes have the ids of all the items,
  nested or contributed, each once; a root names no parent, and every other node stands below the
  parent that its item is nested in or names.
\<close>

theorem buildMenuTree_nodes:
  assumes "buildMenuTree items = Inr tree"
  shows "mset (map (item_id \<circ> last) (tree_trails tree)) = mset (concat (map item_ids items)) \<and>
     distinct (map (item_id \<circ> last) (tree_trails tree)) \<and>
     list_all (\<lambda>t. if length t = 1 then parentKey (last t) = None
                   else (item_id (last t), item_id (last (butlast t))) \<in> set (parent_links items)) (tree_trails tree)"
proof (intro conjI)
  note build = buildMenuTree_Inr[OF assms]
  show nodes: "mset (map (item_id \<circ> last) (tree_trails tree)) = mset (concat (map item_ids items))"
    using built_nodes[OF assms] .
  show "distinct (map (item_id \<circ> last) (tree_trails tree))"
    using mset_eq_imp_distinct_iff[OF nodes] build(2,3) by simp
  have "if length t = 1 then parentKey (last t) = None else (item_id (last t), item_id (last (butlast t))) \<in> set (parent_links items)"
    if t: "t \<in> set (tree_trails tree)" for t
  proof (cases "length t > 1")
    case True
    then show ?thesis using built_link[OF assms t] by simp
  next
    case False
    then obtain r where "r \<in> set (mt_roots tree)" "t = [r]"
      using forest_trail_link[of t "mt_roots tree"] t by (auto simp: tree_trails_def)
    then show ?thesis using built_root[OF assms] by simp
  qed
  then show "list_all (\<lambda>t. if length t = 1 then parentKey (last t) = None
                   else (item_id (last t), item_id (last (butlast t))) \<in> set (parent_links items)) (tree_trails tree)"
    by (simp only: list_all_iff) blast
qed


text \<open>
  C35: a page whose route declares an anchor in the menu always has a place: the anchor, an item below
  it, or a destination of the page itself (its exact path, with no contrary parameter), never another
  item that merely holds a prefix of the path.
\<close>

theorem anchored_place:
  assumes "buildMenuTree items = Inr tree" "anchor \<in> set (mt_order tree)"
  shows "case tree_match u tree path search includeHidden (Some anchor) of
      None \<Rightarrow> False
    | Some m \<Rightarrow> anchor \<in> set (map item_id (mm_trail m)) \<or>
        own_destination u (url_pathname u path) (url_params u (or_else search (url_search u path))) (last (mm_trail m))"
proof -
  have "anchor \<in> set (map (item_id \<circ> last) (forest_trails (mt_roots tree)))"
    using built_ids[OF assms(1)] assms(2) forest_trail_ids buildMenuTree_Inr(1)[OF assms(1)] by metis
  then obtain s where s: "s \<in> set (forest_trails (mt_roots tree))" "item_id (last s) = anchor" by auto
  obtain q where q: "location_rank u path search (Some anchor) s = Some q" "hd q \<ge> 1"
    using rank_of_anchor[OF forest_trails_Nil[OF s(1)] s(2)] by blast
  then obtain t where t: "matchWithin u (mt_roots tree) path search (Some anchor) = Some t"
    using s(1) matchWithin_None[of u "mt_roots tree" path search "Some anchor"]
    by (cases "matchWithin u (mt_roots tree) path search (Some anchor)") auto
  then obtain r where best: "first_best (location_rank u path search (Some anchor)) (forest_trails (mt_roots tree)) t r" by (rule matchWithin_Some)
  note rank = first_best_rank[OF best]
  have "hd q \<le> hd r"
    using first_best_greatest[OF best s(1) q(1)] match_rank_length[OF q(1)] match_rank_length[OF conjunct2[OF rank]]
    by (intro rank_above_hd) auto
  then have "anchor \<in> set (map item_id t) \<or> own_destination u (url_pathname u path) (url_params u (or_else search (url_search u path))) (last t)"
    using rank_hd_cases[OF conjunct2[OF rank]] q(2) forest_trails_Nil[OF conjunct1[OF rank]] by simp
  then show ?thesis using t assms(2) by (simp add: tree_match_def match_anchor_def)
qed

text \<open>
  C37: lifting the settings of a menu tree always succeeds, keeps every node, and leaves no platform
  node below an app: in the result every platform node stands below a platform root.
\<close>

theorem withSettingsPlace_lifts:
  assumes "buildMenuTree items = Inr tree"
  shows "\<exists>settled. withSettingsPlace tree = Inr settled \<and> mset (mt_order settled) = mset (mt_order tree) \<and>
     list_all (\<lambda>t. is_platform (last t) \<longrightarrow> is_platform (hd t)) (tree_trails settled)"
proof -
  note build = buildMenuTree_Inr[OF assms]
  let ?items = "settings_items (mt_roots tree)"
  have nodes: "mset (concat (map item_ids ?items)) = mset (mt_order tree)"
    using built_nodes[OF assms] settings_ids forest_trail_ids[of "mt_roots tree"] build(2) by (simp add: tree_trails_def)
  have ids: "distinct (concat (map item_ids ?items))" using mset_eq_imp_distinct_iff[OF nodes] build(3) by simp
  have "SETTINGS_ID \<notin> set (mt_order tree)" using build_reserved[OF assms] .
  then have reserved: "SETTINGS_ID \<notin> set (concat (map item_ids ?items))" using mset_eq_setD[OF nodes] by metis
  have roots: "parentKey x = None" if "x \<in> set ?items" for x
    using that built_root[OF assms] by (cases rule: settings_items_cases) (auto simp: parentKey_def)
  have "is_platform (last t) \<longrightarrow> is_platform (hd t)" if t: "t \<in> set (forest_trails ?items)" for t
  proof -
    obtain x where x: "x \<in> set ?items" "t \<in> set (item_trails [] x)" using t by (auto simp: forest_trails_def)
    then have hd: "hd t = x" using item_trails_hd[of t "[]" x] by simp
    from x(1) show ?thesis using hd lifted_app x(2) by (cases rule: settings_items_cases) auto
  qed
  then show ?thesis using rebuild[OF ids reserved roots] nodes
    unfolding withSettingsPlace_def by (auto simp: tree_trails_def list_all_iff)
qed

section \<open>Witnesses\<close>

text \<open>An app with a page, a settings page below it, and a page that another addon contributes.\<close>

definition sample_items :: "chrome_node list" where
  "sample_items =
     [ChromeNode (plain_item ''crm'' None None)
        [ChromeNode (plain_item ''leads'' (Some ''/crm/leads'') None) [],
         ChromeNode ((plain_item ''rules'' (Some ''/crm/rules'') None)\<lparr>ci_group := Some ''platform''\<rparr>) []],
      ChromeNode (plain_item ''calls'' (Some ''/calls'') (Some ''leads'')) []]"

definition sample_tree :: menu_tree where
  "sample_tree =
     \<lparr>mt_roots =
        [ChromeNode (plain_item ''crm'' None None)
           [ChromeNode (plain_item ''leads'' (Some ''/crm/leads'') None) [ChromeNode (plain_item ''calls'' (Some ''/calls'') (Some ''leads'')) []],
            ChromeNode ((plain_item ''rules'' (Some ''/crm/rules'') None)\<lparr>ci_group := Some ''platform''\<rparr>) []]],
      mt_order = [''crm'', ''leads'', ''rules'', ''calls'']\<rparr>"

lemma sample_built: "buildMenuTree sample_items = Inr sample_tree"
  by code_simp

lemma sample_anchor: "''leads'' \<in> set (mt_order sample_tree)"
  by (simp add: sample_tree_def)

lemma buildMenuTree_nodes_witness: "distinct (map (item_id \<circ> last) (tree_trails sample_tree))"
  using buildMenuTree_nodes[OF sample_built] by blast

lemma anchored_place_witness: "tree_match sample_reader sample_tree ''/tasks'' None False (Some ''leads'') \<noteq> None"
  using anchored_place[OF sample_built sample_anchor, of sample_reader "''/tasks''" None False]
  by (auto split: option.splits)

lemma withSettingsPlace_lifts_witness: "\<exists>settled. withSettingsPlace sample_tree = Inr settled \<and> mset (mt_order settled) = mset (mt_order sample_tree)"
  using withSettingsPlace_lifts[OF sample_built] by blast

end
