(* ===== verification/RouteProjection.thy ===== *)
theory RouteProjection
  imports MenuForest Containers
begin

text \<open>
  Where routes, menus and add-ons meet, \<open>packages/app/src/resource-projection.ts\<close>: which routes are
  available, which menu node places a route, which route a resource opens at in an app, and what of
  the navigation a session sees (\<open>presence.ts\<close>); \<open>recordDestination\<close> is that of \<open>runtime.ts\<close>.

  Route names are distinct, which composition checks, so the caches of roots and of navigations never
  change an answer and are left out. A walk along the parents of routes is over resolved routes, whose
  parents lead to a root; on a cycle, where the loops of the code would not end, it is an error.
\<close>

section \<open>Lists of results\<close>

fun find_res :: "('a \<Rightarrow> bool result) \<Rightarrow> 'a list \<Rightarrow> 'a option result" where
  "find_res f [] = Inr None"
| "find_res f (x # xs) = rbind (f x) (\<lambda>b. if b then Inr (Some x) else find_res f xs)"

fun filter_res :: "('a \<Rightarrow> bool result) \<Rightarrow> 'a list \<Rightarrow> 'a list result" where
  "filter_res f [] = Inr []"
| "filter_res f (x # xs) = rbind (f x) (\<lambda>b. rbind (filter_res f xs) (\<lambda>ys. Inr (if b then x # ys else ys)))"

section \<open>Menu nodes of routes\<close>

definition menuNodeForRoute :: "'c addon_route \<Rightarrow> menu_tree \<Rightarrow> chrome_node option result" where
  "menuNodeForRoute route tree =
     (let refs = filter (\<lambda>item. ci_params (item_fields item) = None) (itemsForRoute tree (ar_name route))
      in case Option.bind (truthy_string (ar_menu route)) (node_at tree) of
           Some anchor \<Rightarrow>
             if refs \<noteq> [] \<and> \<not> list_ex (\<lambda>item. item_id item = item_id anchor) refs
             then Inl (JsError (''Route \"'' @ ar_name route @ ''\" sets menu \"'' @ or_else (ar_menu route) []
                        @ ''\", but that item does not reference the route.''))
             else Inr (Some anchor)
         | None \<Rightarrow> Inr (case refs of [item] \<Rightarrow> Some item | _ \<Rightarrow> None))"

section \<open>Unavailable routes\<close>

record removed_node =
  rn_id :: string
  rn_route :: "string option"

definition in_console :: "string \<Rightarrow> bool" where
  "in_console layout \<longleftrightarrow> layout = ''console''"

definition layoutOf :: "'c routes_map \<Rightarrow> 'c addon_route \<Rightarrow> string result" where
  "layoutOf byName route =
     rbind (inheritedRouteFact route byName (\<lambda>r. truthy_string (ar_layout r))) (\<lambda>layout. Inr (or_else layout ''console''))"

type_synonym reasons = "(string \<times> string) list"

definition consider_route :: "'c routes_map \<Rightarrow> menu_tree \<Rightarrow> reasons \<Rightarrow> 'c addon_route \<times> string \<Rightarrow> reasons result" where
  "consider_route byName tree gone = (\<lambda>(route, reason).
     if ar_name route \<in> fst ` set gone then Inr gone
     else rbind (layoutOf byName route) (\<lambda>layout.
       if in_console layout \<and> itemsForRoute tree (ar_name route) = [] then Inr (gone @ [(ar_name route, reason)]) else Inr gone))"

definition removed_reasons :: "'c routes_map \<Rightarrow> 'c addon_route list \<Rightarrow> removed_node list \<Rightarrow> ('c addon_route \<times> string) list" where
  "removed_reasons byName routes removed =
     List.map_filter (\<lambda>node. map_option (\<lambda>route. (route, ''menu item \"'' @ rn_id node @ ''\" was removed''))
       (Option.bind (truthy_string (rn_route node)) (map_of byName))) removed
     @ List.map_filter (\<lambda>route. case truthy_string (ar_menu route) of
         Some anchor \<Rightarrow> if anchor \<in> rn_id ` set removed then Some (route, ''its menu anchor \"'' @ anchor @ ''\" was removed'') else None
       | None \<Rightarrow> None) routes"

definition parent_reason :: "string \<Rightarrow> string" where
  "parent_reason parent = ''its parent route \"'' @ parent @ ''\" is unavailable''"

definition follow_parent :: "'c routes_map \<Rightarrow> reasons \<Rightarrow> 'c addon_route \<Rightarrow> reasons result" where
  "follow_parent byName gone route =
     (case truthy_string (ar_parent route) of
        Some parent \<Rightarrow>
          if parent \<in> fst ` set gone \<and> ar_name route \<notin> fst ` set gone
          then rbind (layoutOf byName route) (\<lambda>layout.
            if in_console layout then Inr (gone @ [(ar_name route, parent_reason parent)]) else Inr gone)
          else Inr gone
      | None \<Rightarrow> Inr gone)"

lemma follow_parent_grows:
  "follow_parent byName gone route = Inr gone' \<Longrightarrow>
     gone' = gone \<or> (\<exists>reason. gone' = gone @ [(ar_name route, reason)] \<and> ar_name route \<notin> fst ` set gone)"
  by (auto simp: follow_parent_def rbind_Inr_iff split: option.splits if_splits)

lemma follow_parents_grow:
  "fold_res (follow_parent byName) gone routes = Inr gone' \<Longrightarrow>
     \<exists>more. gone' = gone @ more \<and> fst ` set more \<subseteq> ar_name ` set routes \<and> fst ` set more \<inter> fst ` set gone = {}"
proof (induction routes arbitrary: gone)
  case (Cons route routes)
  then obtain mid where mid: "follow_parent byName gone route = Inr mid" "fold_res (follow_parent byName) mid routes = Inr gone'"
    by (auto simp: rbind_Inr_iff)
  obtain more where more: "gone' = mid @ more" "fst ` set more \<subseteq> ar_name ` set routes" "fst ` set more \<inter> fst ` set mid = {}"
    using Cons.IH[OF mid(2)] by blast
  from follow_parent_grows[OF mid(1)] show ?case
  proof (elim disjE exE conjE)
    assume "mid = gone"
    then show ?thesis using more by auto
  next
    fix reason assume "mid = gone @ [(ar_name route, reason)]" "ar_name route \<notin> fst ` set gone"
    then show ?thesis using more by (intro exI[of _ "(ar_name route, reason) # more"]) auto
  qed
qed simp

lemma left_less: "x \<in> C \<Longrightarrow> C \<subseteq> A \<Longrightarrow> C \<inter> B = {} \<Longrightarrow> A - (B \<union> C) \<subset> A - B"
  by blast

text \<open>The passes over the routes until one finds no further descendant.\<close>

function follow_parents :: "'c routes_map \<Rightarrow> 'c addon_route list \<Rightarrow> reasons \<Rightarrow> reasons result" where
  "follow_parents byName routes gone =
     (case fold_res (follow_parent byName) gone routes of
        Inl e \<Rightarrow> Inl e
      | Inr gone' \<Rightarrow> if length gone' = length gone then Inr gone else follow_parents byName routes gone')"
  by pat_completeness auto
termination
proof (relation "measure (\<lambda>(byName, routes, gone). card (ar_name ` set routes - fst ` set gone))", goal_cases)
  case (2 byName routes gone gone')
  from follow_parents_grow[OF 2(1)] obtain more where more: "gone' = gone @ more"
    "fst ` set more \<subseteq> ar_name ` set routes" "fst ` set more \<inter> fst ` set gone = {}" by blast
  with 2(2) have "more \<noteq> []" by auto
  then obtain x where x: "x \<in> fst ` set more" by fastforce
  have keys: "fst ` set gone' = fst ` set gone \<union> fst ` set more" using more(1) by auto
  have "ar_name ` set routes - fst ` set gone' \<subset> ar_name ` set routes - fst ` set gone"
    unfolding keys using left_less[OF x more(2,3)] .
  then have "card (ar_name ` set routes - fst ` set gone') < card (ar_name ` set routes - fst ` set gone)"
    by (rule psubset_card_mono[rotated]) simp
  then show ?case by simp
qed simp

declare follow_parents.simps [simp del]

definition unavailableRoutes :: "'c addon_route list \<Rightarrow> menu_tree \<Rightarrow> removed_node list \<Rightarrow> reasons result" where
  "unavailableRoutes routes tree removed =
     (let byName = routes_by_name routes
      in rbind (each_res (\<lambda>route. case truthy_string (ar_menu route) of
             Some anchor \<Rightarrow> guard (anchor \<in> set (mt_order tree) \<or> anchor \<in> rn_id ` set removed)
               (''Route \"'' @ ar_name route @ ''\" references unknown menu item \"'' @ anchor @ ''\".'')
           | None \<Rightarrow> Inr ()) routes) (\<lambda>_.
         rbind (fold_res (consider_route byName tree) [] (removed_reasons byName routes removed)) (follow_parents byName routes)))"

section \<open>Resource routes\<close>

type_synonym record_route = "string \<times> string"

record resource_routes =
  rr_collection :: string
  rr_record :: "record_route option"
  rr_recordDestinations :: "(record_route \<times> record_match) list option"
  rr_recordFallback :: "record_route option"

text \<open>The message on a parameterized path ends at its dash.\<close>

definition claim_resource ::
  "(string \<times> 'c addon_route list) list \<Rightarrow> resource_routes table \<Rightarrow> 'c addon_route \<Rightarrow> resource_routes table result" where
  "claim_resource children byResource route =
     (case truthy_string (ar_resource route) of
        None \<Rightarrow> Inr byResource
      | Some resource \<Rightarrow>
          let claims = ''Route \"'' @ ar_name route @ ''\" claims resource \"'' @ resource @ ''\"'';
              records = filter (\<lambda>child. routeChildHasTrailingParam child route) (or_else (map_of children (ar_name route)) [])
          in if CHR ''$'' \<in> set (ar_path route)
             then Inl (JsError (claims @ '' but its path \"'' @ ar_path route @ ''\" is parameterized''))
             else if resource \<in> fst ` set byResource then Inl (JsError (claims @ '' already claimed by another route.''))
             else if length records > 1 then Inl (JsError (''Route \"'' @ ar_name route @ ''\" has multiple record routes.''))
             else Inr (obj_put resource
               \<lparr>rr_collection = ar_name route,
                rr_record = (case records of [] \<Rightarrow> None | child # _ \<Rightarrow> map_option (Pair (ar_name child)) (truthy_string (trailingRouteParamName (ar_path child)))),
                rr_recordDestinations = None, rr_recordFallback = None\<rparr> byResource))"

definition resourceRouteIndex :: "'c addon_route list \<Rightarrow> resource_routes table result" where
  "resourceRouteIndex routes = fold_res (claim_resource (childRoutesByParentName routes)) [] routes"

definition canonicalClaims ::
  "(string \<times> 'c addon_route list) list \<Rightarrow> string table \<Rightarrow> ancestry \<Rightarrow> 'c addon_route list result" where
  "canonicalClaims claimants owners ancestors =
     (let ownerOf = (\<lambda>route. or_else (map_of owners (ar_name route)) (ar_name route))
      in rbind (map_res (\<lambda>(resource, routes).
           if length routes = 1 then Inr routes
           else case commonBase (map ownerOf routes) ancestors of
             None \<Rightarrow> Inl (JsError (''Routes '' @ js_join '', '' (map (\<lambda>r. ''\"'' @ ar_name r @ ''\" of \"'' @ ownerOf r @ ''\"'') routes)
                       @ '' claim resource \"'' @ resource @ ''\" from addons that do not depend on one another; one must depend on the other.''))
           | Some base \<Rightarrow> Inr (filter (\<lambda>route. ownerOf route = base) routes)) claimants) (\<lambda>parts. Inr (concat parts)))"

section \<open>Roots of routes\<close>

text \<open>The one root of the nodes that refer to a route, if it is one.\<close>

definition referring_root :: "menu_tree \<Rightarrow> chrome_node list \<Rightarrow> string option" where
  "referring_root tree refs =
     (case distinct_first (map (\<lambda>item. case trailFor tree (item_id item) of r # _ \<Rightarrow> Some (item_id r) | [] \<Rightarrow> None) refs) of
        [found] \<Rightarrow> found
      | _ \<Rightarrow> None)"

function root_for :: "'c routes_map \<Rightarrow> menu_tree \<Rightarrow> 'c addon_route \<Rightarrow> string set \<Rightarrow> string option result" where
  "root_for byName tree route visited =
     (if ar_name route \<in> visited then Inl (JsError (''Route \"'' @ ar_name route @ ''\" creates a parent cycle.''))
      else rbind (if truthy_string (ar_menu route) \<noteq> None then menuNodeForRoute route tree else Inr None) (\<lambda>selected.
        case (Option.bind (truthy_string (ar_parent route)) (map_of byName), selected) of
          (Some parent, None) \<Rightarrow> root_for byName tree parent (insert (ar_name route) visited)
        | _ \<Rightarrow> Inr (referring_root tree (case selected of Some item \<Rightarrow> [item] | None \<Rightarrow> itemsForRoute tree (ar_name route)))))"
  by pat_completeness auto
termination
proof (relation "measure (\<lambda>(byName, tree, route, visited).
    2 * card (route_names byName - visited) + (if ar_name route \<in> route_names byName then 0 else 1))", goal_cases)
  case (2 byName tree route visited selected found item parent)
  then have "Option.bind (truthy_string (ar_parent route)) (map_of byName) = Some parent" by simp
  then have parent: "ar_name parent \<in> route_names byName"
    by (auto simp: bind_eq_Some_conv intro: route_names_mem)
  show ?case
  proof (cases "ar_name route \<in> route_names byName")
    case True
    then have "card (route_names byName - insert (ar_name route) visited) < card (route_names byName - visited)"
      using 2(1) by (intro psubset_card_mono) (auto simp: route_names_def)
    then show ?thesis using True parent by simp
  next
    case False
    then have "route_names byName - insert (ar_name route) visited = route_names byName - visited" by auto
    then show ?thesis using False parent by simp
  qed
qed auto

declare root_for.simps [simp del]

definition rootFor :: "'c routes_map \<Rightarrow> menu_tree \<Rightarrow> 'c addon_route \<Rightarrow> string option result" where
  "rootFor byName tree route = root_for byName tree route {}"

section \<open>The projection\<close>

type_synonym claims_map = "(string \<times> (string \<times> resource_routes list) list) list"
type_synonym destinations_map = "(string \<times> (record_route \<times> record_match) list) list"

record 'c projection =
  pj_routes :: "'c addon_route list"
  pj_byName :: "'c routes_map"
  pj_menuTree :: menu_tree
  pj_selection :: "(string list \<times> string option) option"
  pj_navigationTree :: menu_tree
  pj_canonical :: "resource_routes table"
  pj_homeApp :: "string option"
  pj_claims :: claims_map
  pj_recordDestinations :: destinations_map
  pj_canonicalModels :: "string table"
  pj_unavailable :: reasons

record 'c claiming =
  cs_canonical :: "'c addon_route list"
  cs_claimants :: "(string \<times> 'c addon_route list) list"
  cs_claims :: claims_map
  cs_destinations :: destinations_map

definition declared_resource :: "'c addon_route \<Rightarrow> string option" where
  "declared_resource route = truthy_string (case ar_resource route of Some r \<Rightarrow> Some r | None \<Rightarrow> ar_recordModel route)"

text \<open>Menu order, then names.\<close>

definition order_rank :: "menu_tree \<Rightarrow> 'c addon_route \<Rightarrow> nat option" where
  "order_rank tree route =
     (let i = findIndex (\<lambda>item. ci_route (item_fields item) = Some (ar_name route)) (tree_nodes tree) in if i < 0 then None else Some (nat i))"

definition compare_claims :: "menu_tree \<Rightarrow> 'c addon_route \<Rightarrow> 'c addon_route \<Rightarrow> int" where
  "compare_claims tree a b =
     (let names = (if ar_name a < ar_name b then -1 else if ar_name a > ar_name b then 1 else 0)
      in case (order_rank tree a, order_rank tree b) of
           (Some i, Some j) \<Rightarrow> if i = j then names else int i - int j
         | (Some _, None) \<Rightarrow> -1
         | (None, Some _) \<Rightarrow> 1
         | (None, None) \<Rightarrow> names)"

definition claimOf :: "'c addon_route list \<Rightarrow> 'c addon_route \<Rightarrow> string \<Rightarrow> resource_routes result" where
  "claimOf routes route model =
     rbind (resourceRouteIndex (route\<lparr>ar_resource := Some model\<rparr> # filter (\<lambda>child. ar_parent child = Some (ar_name route)) routes)) (\<lambda>index.
       case map_of index model of Some claim \<Rightarrow> Inr claim | None \<Rightarrow> Inl (JsError ''Cannot read properties of undefined''))"

definition same_match :: "record_match \<Rightarrow> record_match \<Rightarrow> bool" where
  "same_match match taken \<longleftrightarrow> rm_field taken = rm_field match \<and> list_ex (\<lambda>v. v \<in> set (rm_equals match)) (rm_equals taken)"

definition claim_match ::
  "'c addon_route list \<Rightarrow> 'c addon_route \<Rightarrow> string \<Rightarrow> record_match \<Rightarrow> destinations_map \<Rightarrow> destinations_map result" where
  "claim_match routes route resource match destinations =
     (if CHR ''$'' \<in> set (ar_path route) then Inl (JsError (''Route \"'' @ ar_name route @ ''\" declares recordMatch on a parameterized path.''))
      else rbind (claimOf routes route resource) (\<lambda>claim.
        case rr_record claim of
          None \<Rightarrow> Inl (JsError (''Route \"'' @ ar_name route @ ''\" declares recordMatch without a record child.''))
        | Some record' \<Rightarrow>
            (let known = or_else (map_of destinations resource) []
             in case find (\<lambda>(_, taken). same_match match taken) known of
                  Some (_, taken) \<Rightarrow>
                    Inl (JsError (''Resource \"'' @ resource @ ''\" has duplicate record match \"'' @ rm_field match @ ''=''
                      @ or_else (find (\<lambda>v. v \<in> set (rm_equals match)) (rm_equals taken)) ''undefined'' @ ''\".''))
                | None \<Rightarrow> Inr (map_put resource (known @ [(record', match)]) destinations))))"

definition claim_page :: "'c addon_route list \<Rightarrow> 'c addon_route \<Rightarrow> string option \<Rightarrow> 'c claiming \<Rightarrow> 'c claiming result" where
  "claim_page routes route home s =
     (case (declared_resource route, truthy_string home) of
        (Some r, Some app) \<Rightarrow>
          if CHR ''$'' \<in> set (ar_path route)
          then (if truthy_string (ar_resource route) \<noteq> None then rbind (resourceRouteIndex [route]) (\<lambda>_. Inr s) else Inr s)
          else rbind (claimOf routes route r) (\<lambda>claim.
            let resources = or_else (map_of (cs_claims s) app) [];
                s = s\<lparr>cs_claims := map_put app (map_put r (or_else (map_of resources r) [] @ [claim]) resources) (cs_claims s)\<rparr>
            in Inr (case truthy_string (ar_resource route) of
                 Some r \<Rightarrow> s\<lparr>cs_claimants := map_put r (or_else (map_of (cs_claimants s) r) [] @ [route]) (cs_claimants s)\<rparr>
               | None \<Rightarrow> s))
      | _ \<Rightarrow> Inr (s\<lparr>cs_canonical := cs_canonical s @ [route]\<rparr>))"

definition claim_route ::
  "'c addon_route list \<Rightarrow> 'c routes_map \<Rightarrow> menu_tree \<Rightarrow> reasons \<Rightarrow> 'c claiming \<Rightarrow> 'c addon_route \<Rightarrow> 'c claiming result" where
  "claim_route routes byName tree unavailable s route =
     (if ar_name route \<in> fst ` set unavailable then Inr s
      else rbind (rootFor byName tree route) (\<lambda>home.
        rbind (case (ar_recordMatch route, declared_resource route) of
             (Some match, Some r) \<Rightarrow> claim_match routes route r match (cs_destinations s)
           | _ \<Rightarrow> Inr (cs_destinations s)) (\<lambda>destinations.
          claim_page routes route home (s\<lparr>cs_destinations := destinations\<rparr>))))"

section \<open>Places\<close>

definition menuAnchor :: "'c routes_map \<Rightarrow> menu_tree \<Rightarrow> string option \<Rightarrow> chrome_node option result" where
  "menuAnchor byName tree routeName =
     (case Option.bind (truthy_string routeName) (map_of byName) of
        None \<Rightarrow> Inr None
      | Some route \<Rightarrow>
          rbind (inheritedRouteFact route byName (\<lambda>r. if truthy_string (ar_menu r) \<noteq> None then Some r else None)) (\<lambda>owner.
            case owner of Some r \<Rightarrow> menuNodeForRoute r tree | None \<Rightarrow> Inr None))"

definition placeOf :: "menu_tree \<Rightarrow> menu_match option \<Rightarrow> string" where
  "placeOf places m =
     (if rp_settings (railPlace places m False) then ''Settings''
      else ''app \"'' @ (case m of Some m \<Rightarrow> item_id (hd (mm_trail m)) | None \<Rightarrow> ''undefined'') @ ''\"'')"

definition assert_place :: "url_reader \<Rightarrow> 'c routes_map \<Rightarrow> menu_tree \<Rightarrow> menu_tree \<Rightarrow> reasons \<Rightarrow> 'c addon_route \<Rightarrow> unit result" where
  "assert_place u byName tree places unavailable route =
     rbind (if ar_name route \<in> fst ` set unavailable then Inr None else menuAnchor byName tree (Some (ar_name route))) (\<lambda>anchor.
       case anchor of
         None \<Rightarrow> Inr ()
       | Some node \<Rightarrow>
           (case tree_match u places (ar_path route) None False None of
              None \<Rightarrow> Inr ()
            | Some byPath \<Rightarrow>
                let anchored = tree_match u places (ar_path route) None False (Some (item_id node))
                in guard (rp_settings (railPlace places anchored False) = rp_settings (railPlace places (Some byPath) False))
                     (''Route \"'' @ ar_name route @ ''\" is anchored to menu item \"'' @ item_id node @ ''\" in '' @ placeOf places anchored
                      @ '', but its path \"'' @ ar_path route @ ''\" nests under menu item \"'' @ item_id (last (mm_trail byPath)) @ ''\" in ''
                      @ placeOf places (Some byPath)
                      @ ''. Give the route a path under its anchor's, or anchor it in the place its path names.'')))"

record projection_options =
  op_navigation :: "menu_tree option"
  op_removed :: "removed_node list"
  op_owners :: "string table"
  op_ancestors :: ancestry
  op_canonicalModels :: "string table"

definition newAppRouteProjection ::
  "url_reader \<Rightarrow> 'c addon_route list \<Rightarrow> menu_tree \<Rightarrow> (string list \<times> string option) option \<Rightarrow> projection_options \<Rightarrow> 'c projection result" where
  "newAppRouteProjection u routes tree selection opts =
     (let navigation = or_else (op_navigation opts) tree; byName = routes_by_name routes
      in rbind (case selection of None \<Rightarrow> withSettingsPlace navigation | Some (rail, _) \<Rightarrow> confineTo navigation rail) (\<lambda>shown.
         rbind (unavailableRoutes routes tree (op_removed opts)) (\<lambda>unavailable.
         rbind (case selection of None \<Rightarrow> Inr shown | Some _ \<Rightarrow> withSettingsPlace navigation) (\<lambda>places.
         rbind (each_res (assert_place u byName tree places unavailable) routes) (\<lambda>_.
         rbind (case Option.bind selection snd of
                  None \<Rightarrow> Inr None
                | Some name \<Rightarrow> (case map_of byName name of Some route \<Rightarrow> rootFor byName tree route | None \<Rightarrow> Inr None)) (\<lambda>home.
         rbind (fold_res (claim_route routes byName tree unavailable)
                  \<lparr>cs_canonical = [], cs_claimants = [], cs_claims = [], cs_destinations = []\<rparr> (js_sort (compare_claims tree) routes)) (\<lambda>s.
         rbind (canonicalClaims (cs_claimants s) (op_owners opts) (op_ancestors opts)) (\<lambda>claims.
         rbind (resourceRouteIndex (cs_canonical s @ claims)) (\<lambda>canonical.
           Inr \<lparr>pj_routes = routes, pj_byName = byName, pj_menuTree = tree, pj_selection = selection, pj_navigationTree = shown,
                pj_canonical = canonical,
                pj_homeApp = (case selection of
                    None \<Rightarrow> None
                  | Some (rail, _) \<Rightarrow> (case home of Some r \<Rightarrow> Some r | None \<Rightarrow> case rail of r # _ \<Rightarrow> Some r | [] \<Rightarrow> None)),
                pj_claims = cs_claims s, pj_recordDestinations = cs_destinations s,
                pj_canonicalModels = op_canonicalModels opts, pj_unavailable = unavailable\<rparr>)))))))))"

definition menu_anchor_id :: "'c projection \<Rightarrow> string option \<Rightarrow> string option result" where
  "menu_anchor_id p routeName = rbind (menuAnchor (pj_byName p) (pj_menuTree p) routeName) (\<lambda>anchor. Inr (map_option item_id anchor))"

definition activeMenu ::
  "url_reader \<Rightarrow> 'c projection \<Rightarrow> string \<Rightarrow> string option \<Rightarrow> string option \<Rightarrow> menu_tree \<Rightarrow> menu_match option result" where
  "activeMenu u p pathname routeName search navigation =
     rbind (menu_anchor_id p routeName) (\<lambda>anchor. Inr (tree_match u navigation pathname search False anchor))"

text \<open>The menu nodes a session lacks, each with its subtree.\<close>

definition absentMenuNodes :: "menu_tree \<Rightarrow> string list option \<Rightarrow> string set" where
  "absentMenuNodes tree permitted =
     foldl (\<lambda>absent item. if item_id item \<notin> absent \<and> \<not> isPresent (ci_requires (item_fields item)) permitted
                          then absent \<union> set (item_ids item) else absent) {} (tree_nodes tree)"

definition navigationFor :: "'c projection \<Rightarrow> string list option \<Rightarrow> menu_tree result" where
  "navigationFor p permitted =
     (case permitted of
        None \<Rightarrow> Inr (pj_navigationTree p)
      | Some refs \<Rightarrow> without (pj_navigationTree p) (absentMenuNodes (pj_menuTree p) (Some refs)))"

definition inRail :: "'c projection \<Rightarrow> string option \<Rightarrow> bool" where
  "inRail p app = (case pj_selection p of None \<Rightarrow> True | Some (rail, _) \<Rightarrow> (case app of Some r \<Rightarrow> r \<in> set rail | None \<Rightarrow> False))"

definition activeApp :: "url_reader \<Rightarrow> 'c projection \<Rightarrow> string \<Rightarrow> string option \<Rightarrow> string option \<Rightarrow> string option result" where
  "activeApp u p pathname routeName search =
     rbind (menu_anchor_id p routeName) (\<lambda>anchor.
       let app = map_option (\<lambda>m. item_id (hd (mm_trail m))) (tree_match u (pj_menuTree p) pathname search False anchor)
       in Inr (if inRail p app then app else pj_homeApp p))"

text \<open>The home app is read as present: an app with a rail of no roots gives \<open>None\<close> for its name.\<close>

definition projection_appTrail ::
  "url_reader \<Rightarrow> 'c projection \<Rightarrow> string \<Rightarrow> string option \<Rightarrow> string option \<Rightarrow> string option list result" where
  "projection_appTrail u p pathname routeName search =
     rbind (menu_anchor_id p routeName) (\<lambda>anchor.
       let trail = map item_id (appTrail u (pj_menuTree p) pathname search anchor)
       in Inr (if inRail p (case trail of r # _ \<Rightarrow> Some r | [] \<Rightarrow> None) then map Some trail else [pj_homeApp p]))"

definition route_named :: "'c projection \<Rightarrow> string option \<Rightarrow> 'c addon_route option" where
  "route_named p routeName = Option.bind (truthy_string routeName) (map_of (pj_byName p))"

definition defaultResourceView :: "'c projection \<Rightarrow> string option \<Rightarrow> string option result" where
  "defaultResourceView p routeName =
     (case route_named p routeName of
        None \<Rightarrow> Inr None
      | Some route \<Rightarrow> inheritedRouteFact route (pj_byName p) ar_defaultResourceView)"

definition route_model :: "'c addon_route \<Rightarrow> string option" where
  "route_model route = (case ar_recordModel route of Some m \<Rightarrow> Some m | None \<Rightarrow> ar_resource route)"

definition defaultResourceFilter :: "'c projection \<Rightarrow> string option \<Rightarrow> (string \<times> jsval) option result" where
  "defaultResourceFilter p routeName =
     (case route_named p routeName of
        None \<Rightarrow> Inr None
      | Some route \<Rightarrow>
          rbind (inheritedRouteFact route (pj_byName p) ar_defaultFilter) (\<lambda>flt.
          rbind (inheritedRouteFact route (pj_byName p) route_model) (\<lambda>resource.
            Inr (case (flt, truthy_string resource) of (Some f, Some r) \<Rightarrow> Some (r, f) | _ \<Rightarrow> None))))"

section \<open>Mounted aliases\<close>

text \<open>The names from a route up to its root.\<close>

function route_trail :: "'c routes_map \<Rightarrow> 'c addon_route \<Rightarrow> string set \<Rightarrow> string list result" where
  "route_trail byName route seen =
     (if ar_name route \<in> seen then Inl (JsError ''Maximum call stack size exceeded'')
      else case Option.bind (truthy_string (ar_parent route)) (map_of byName) of
             None \<Rightarrow> Inr [ar_name route]
           | Some parent \<Rightarrow> rbind (route_trail byName parent (insert (ar_name route) seen)) (\<lambda>names. Inr (ar_name route # names)))"
  by pat_completeness auto
termination
proof (relation "measure (\<lambda>(byName, route, seen).
    2 * card (route_names byName - seen) + (if ar_name route \<in> route_names byName then 0 else 1))", goal_cases)
  case (2 byName route seen parent)
  then have parent: "ar_name parent \<in> route_names byName"
    by (auto simp: bind_eq_Some_conv intro: route_names_mem)
  show ?case
  proof (cases "ar_name route \<in> route_names byName")
    case True
    then have "card (route_names byName - insert (ar_name route) seen) < card (route_names byName - seen)"
      using 2(1) by (intro psubset_card_mono) (auto simp: route_names_def)
    then show ?thesis using True parent by simp
  next
    case False
    then have "route_names byName - insert (ar_name route) seen = route_names byName - seen" by auto
    then show ?thesis using False parent by simp
  qed
qed auto

declare route_trail.simps [simp del]

type_synonym family = "(string \<times> string) list"

definition family_in :: "'c projection \<Rightarrow> string \<Rightarrow> family \<Rightarrow> bool result" where
  "family_in p app family =
     (case Option.bind (truthy_string (case family of (_, alias) # _ \<Rightarrow> Some alias | [] \<Rightarrow> None)) (map_of (pj_byName p)) of
        None \<Rightarrow> Inr False
      | Some route \<Rightarrow> rbind (rootFor (pj_byName p) (pj_menuTree p) route) (\<lambda>home. Inr (home = Some app)))"

definition mountedRouteAliases :: "'c projection \<Rightarrow> string option \<Rightarrow> string option \<Rightarrow> family list \<Rightarrow> family result" where
  "mountedRouteAliases p app activeRoute families =
     (case truthy_string app of
        None \<Rightarrow> Inr []
      | Some name \<Rightarrow>
          rbind (case route_named p activeRoute of None \<Rightarrow> Inr [] | Some route \<Rightarrow> route_trail (pj_byName p) route {}) (\<lambda>activeTrail.
          rbind (filter_res (family_in p name) families) (\<lambda>scoped.
            let ordered = (case find (\<lambda>family. list_ex (\<lambda>(_, alias). alias \<in> set activeTrail) family) scoped of
                  Some active \<Rightarrow> active # remove1 active scoped
                | None \<Rightarrow> scoped)
            in Inr (foldl (\<lambda>aliases (source, alias). if source \<in> fst ` set aliases then aliases else aliases @ [(source, alias)]) []
                      (concat ordered)))))"

section \<open>Resource routes of a page\<close>

definition is_collection :: "'c projection \<Rightarrow> 'c addon_route option \<Rightarrow> resource_routes \<Rightarrow> bool result" where
  "is_collection p route claim =
     (case route of
        None \<Rightarrow> Inr False
      | Some r \<Rightarrow> rbind (inheritedRouteFact r (pj_byName p) (\<lambda>x. if ar_name x = rr_collection claim then Some () else None)) (\<lambda>found. Inr (found \<noteq> None)))"

definition first_record :: "resource_routes list \<Rightarrow> record_route option" where
  "first_record claims = Option.bind (find (\<lambda>claim. rr_record claim \<noteq> None) claims) rr_record"

definition own_record :: "'c projection \<Rightarrow> string \<Rightarrow> resource_routes list \<Rightarrow> resource_routes \<Rightarrow> record_route option" where
  "own_record p resource claims selected =
     (case rr_record selected of
        Some r \<Rightarrow> Some r
      | None \<Rightarrow> (case first_record claims of Some r \<Rightarrow> Some r | None \<Rightarrow> Option.bind (map_of (pj_canonical p) resource) rr_record))"

text \<open>The app's own claim of a resource: the collection the page lies in, else its first.\<close>

definition own_claim ::
  "'c projection \<Rightarrow> 'c addon_route option \<Rightarrow> resource_routes table \<Rightarrow> string \<times> resource_routes list \<Rightarrow> resource_routes table result" where
  "own_claim p route result = (\<lambda>(resource, claims).
     rbind (find_res (is_collection p route) claims) (\<lambda>found.
       case (case found of Some claim \<Rightarrow> [claim] | None \<Rightarrow> claims) of
         [] \<Rightarrow> Inl (JsError ''Cannot read properties of undefined'')
       | selected # _ \<Rightarrow> Inr (obj_put resource (selected\<lparr>rr_record := own_record p resource claims selected\<rparr>) result)))"

definition match_fallback :: "'c projection \<Rightarrow> resource_routes list \<Rightarrow> string \<Rightarrow> record_route option" where
  "match_fallback p claims resource =
     (case Option.bind (find (\<lambda>claim. rr_record claim \<noteq> None \<and>
              (case map_of (pj_byName p) (rr_collection claim) of Some route \<Rightarrow> ar_recordMatch route = None | None \<Rightarrow> True)) claims) rr_record of
        Some r \<Rightarrow> Some r
      | None \<Rightarrow> Option.bind (map_of (pj_canonical p) resource) rr_record)"

definition add_destinations ::
  "'c projection \<Rightarrow> (string \<times> resource_routes list) list \<Rightarrow> resource_routes table \<Rightarrow>
   string \<times> (record_route \<times> record_match) list \<Rightarrow> resource_routes table" where
  "add_destinations p owned result = (\<lambda>(resource, destinations).
     case map_of result resource of
       None \<Rightarrow> result
     | Some selected \<Rightarrow>
         let fallback = match_fallback p (or_else (map_of owned resource) []) resource
         in obj_put resource (selected\<lparr>rr_recordDestinations := Some destinations,
              rr_recordFallback := (case fallback of Some r \<Rightarrow> Some r | None \<Rightarrow> rr_recordFallback selected)\<rparr>) result)"

definition keep_identity :: "string option \<Rightarrow> string option \<Rightarrow> resource_routes table \<Rightarrow> resource_routes table" where
  "keep_identity activeModel canonicalModel result =
     (case (truthy_string canonicalModel, Option.bind (Option.bind activeModel (map_of result)) rr_record) of
        (Some base, Some active) \<Rightarrow>
          (case map_of result base of
             None \<Rightarrow> result
           | Some c \<Rightarrow> obj_put base (c\<lparr>rr_record := Some active,
               rr_recordFallback := (if rr_recordDestinations c \<noteq> None then Some active else rr_recordFallback c)\<rparr>) result)
      | _ \<Rightarrow> result)"

definition owned_claims :: "'c projection \<Rightarrow> string option \<Rightarrow> (string \<times> resource_routes list) list" where
  "owned_claims p app = or_else (map_of (pj_claims p) (or_else app [])) []"

definition resourceRoutes :: "'c projection \<Rightarrow> string option \<Rightarrow> string option \<Rightarrow> resource_routes table result" where
  "resourceRoutes p app activeRoute =
     (let route = route_named p activeRoute; owned = owned_claims p app
      in rbind (fold_res (own_claim p route) (pj_canonical p) owned) (\<lambda>result.
         let result = foldl (add_destinations p owned) result (pj_recordDestinations p)
         in rbind (case route of Some r \<Rightarrow> inheritedRouteFact r (pj_byName p) route_model | None \<Rightarrow> Inr None) (\<lambda>model.
            let activeModel = truthy_string model
            in Inr (keep_identity activeModel (Option.bind activeModel (map_of (pj_canonicalModels p))) result))))"

text \<open>
  The value of a dotted field in a row (of the properties of an array only its elements can be
  strings), and the record route that the row opens at.\<close>

definition row_value :: "string \<Rightarrow> jsval \<Rightarrow> jsval" where
  "row_value field row =
     foldl (\<lambda>current key. case current of
         Obj es \<Rightarrow> prop_of es key
       | Arr xs \<Rightarrow> (case index_key key of Some i \<Rightarrow> if i < length xs then xs ! i else Undefined | None \<Rightarrow> Undefined)
       | _ \<Rightarrow> Undefined) row (js_split (CHR ''.'') field)"

definition matches_row :: "jsval \<Rightarrow> record_match \<Rightarrow> bool" where
  "matches_row row match = (case row_value (rm_field match) row of Str s \<Rightarrow> s \<in> set (rm_equals match) | _ \<Rightarrow> False)"

definition recordDestination :: "resource_routes option \<Rightarrow> jsval \<Rightarrow> record_route option result" where
  "recordDestination routes row =
     (case routes of
        None \<Rightarrow> Inr None
      | Some r \<Rightarrow>
          (case rr_recordDestinations r of
             None \<Rightarrow> Inr (rr_record r)
           | Some destinations \<Rightarrow>
               if destinations = [] then Inr (rr_record r)
               else (case filter (\<lambda>(_, match). matches_row row match) destinations of
                       [] \<Rightarrow> Inr (rr_recordFallback r)
                     | [(record', _)] \<Rightarrow> Inr (Some record')
                     | _ \<Rightarrow> Inl (JsError ''Record matches more than one app route.''))))"

section \<open>Resources of the menu\<close>

text \<open>A parameter after a slash, or at the start, is written with a colon.\<close>

fun tan_stack :: "bool \<Rightarrow> string \<Rightarrow> string" where
  "tan_stack start (d # c # s) =
     (if start \<and> d = CHR ''$'' \<and> c \<notin> set ''/?#'' then CHR '':'' # tan_stack False (c # s) else d # tan_stack (d = CHR ''/'') (c # s))"
| "tan_stack start s = s"

definition refineRoutePathForTanStack :: "string \<Rightarrow> string" where
  "refineRoutePathForTanStack path = tan_stack True path"

definition menuRouteResourceIdentifier :: "string \<Rightarrow> string" where
  "menuRouteResourceIdentifier menuId = ''menu:'' @ menuId"

definition breadcrumb_step :: "chrome_node list \<Rightarrow> chrome_node \<Rightarrow> chrome_node list" where
  "breadcrumb_step items item =
     (if items \<noteq> [] \<and> displayLabel (last items) = displayLabel item \<and> item_target (last items) = item_target item
      then butlast items @ [item] else items @ [item])"

definition breadcrumbTrailFromMenuTrail :: "chrome_node list \<Rightarrow> chrome_node list" where
  "breadcrumbTrailFromMenuTrail trail = foldl breadcrumb_step [] trail"

definition before_last :: "chrome_node list \<Rightarrow> chrome_node option" where
  "before_last trail = (if length trail > 1 then Some (last (butlast trail)) else None)"

definition menuRouteShowPath ::
  "'c routes_map \<Rightarrow> (string \<times> 'c addon_route list) list \<Rightarrow> chrome_node \<Rightarrow> string option" where
  "menuRouteShowPath byName children item =
     (case Option.bind (truthy_string (ci_route (item_fields item))) (map_of byName) of
        None \<Rightarrow> None
      | Some route \<Rightarrow>
          map_option (\<lambda>child. fullRoutePath child (Some route))
            (find (\<lambda>child. routeChildHasTrailingParam child route) (or_else (map_of children (ar_name route)) [])))"

record menu_resource =
  mr_identifier :: string
  mr_list :: string
  mr_show :: "string option"
  mr_label :: string
  mr_icon :: string
  mr_menuId :: string
  mr_menuOrder :: nat
  mr_menuTarget :: "string option"
  mr_app :: bool
  mr_description :: "string option"
  mr_group :: "string option"
  mr_status :: "string option"
  mr_tone :: "string option"
  mr_badge :: "jsnum option"
  mr_hidden :: bool
  mr_parent :: "string option"
  mr_menuParent :: "string option"

definition addMenuRouteResource ::
  "menu_resource list \<Rightarrow> chrome_node \<Rightarrow> chrome_node option \<Rightarrow> string option \<Rightarrow> chrome_node option \<Rightarrow> menu_resource list" where
  "addMenuRouteResource resources item parent showPath breadcrumbParent =
     (case item_target item of
        None \<Rightarrow> resources
      | Some target \<Rightarrow>
          if target = ''#'' \<or> menuRouteResourceIdentifier (item_id item) \<in> mr_identifier ` set resources then resources
          else resources @
            [\<lparr>mr_identifier = menuRouteResourceIdentifier (item_id item), mr_list = refineRoutePathForTanStack target,
              mr_show = map_option refineRoutePathForTanStack (truthy_string showPath),
              mr_label = displayLabel item, mr_icon = iconName item, mr_menuId = item_id item, mr_menuOrder = length resources,
              mr_menuTarget = ci_to (item_fields item), mr_app = ci_app (item_fields item),
              mr_description = truthy_string (ci_description (item_fields item)), mr_group = truthy_string (ci_group (item_fields item)),
              mr_status = truthy_string (ci_status (item_fields item)), mr_tone = truthy_string (ci_tone (item_fields item)),
              mr_badge = ci_badge (item_fields item), mr_hidden = ci_hidden (item_fields item),
              mr_parent = map_option (\<lambda>b. menuRouteResourceIdentifier (item_id b)) breadcrumbParent,
              mr_menuParent = map_option (\<lambda>b. menuRouteResourceIdentifier (item_id b)) parent\<rparr>])"

definition trail_resources ::
  "'c routes_map \<Rightarrow> (string \<times> 'c addon_route list) list \<Rightarrow> menu_resource list \<Rightarrow> chrome_node list \<Rightarrow> menu_resource list" where
  "trail_resources byName children resources trail =
     foldl (\<lambda>resources (index, item).
       addMenuRouteResource resources item (if index = 0 then None else Some (trail ! (index - 1))) (menuRouteShowPath byName children item)
         (before_last (breadcrumbTrailFromMenuTrail (take (index + 1) trail)))) resources (enumerate 0 trail)"

record resource_metadata =
  md_label :: "string option"
  md_icon :: "string option"
  md_parent :: "string option"

definition routeLabel :: "'c addon_route \<Rightarrow> string option" where
  "routeLabel route = Option.bind (ar_title route) string_value"

definition routeIcon :: "'c addon_route \<Rightarrow> string option" where
  "routeIcon route = truthy_string (ar_icon route)"

definition route_metadata ::
  "menu_tree \<Rightarrow> resource_routes table option \<Rightarrow> resource_metadata table \<Rightarrow> 'c addon_route \<Rightarrow> resource_metadata table result" where
  "route_metadata tree selectedRoutes metadata route =
     (case declared_resource route of
        None \<Rightarrow> Inr metadata
      | Some resource \<Rightarrow>
          if (case selectedRoutes of
                Some selected \<Rightarrow> map_option rr_collection (map_of selected resource) \<noteq> Some (ar_name route)
              | None \<Rightarrow> False) then Inr metadata
          else rbind (menuNodeForRoute route tree) (\<lambda>selected.
            let trail = (case selected of Some item \<Rightarrow> breadcrumbTrailFromMenuTrail (trailFor tree (item_id item)) | None \<Rightarrow> [])
            in Inr (obj_put resource
                 \<lparr>md_label = (if trail = [] then routeLabel route else Some (displayLabel (last trail))),
                  md_icon = (if trail = [] then routeIcon route else Some (iconName (last trail))),
                  md_parent = map_option (\<lambda>b. menuRouteResourceIdentifier (item_id b)) (before_last trail)\<rparr> metadata)))"

definition refineRouteResourceProjection ::
  "'c addon_route list \<Rightarrow> menu_tree \<Rightarrow> menu_tree \<Rightarrow> resource_routes table option \<Rightarrow> (menu_resource list \<times> resource_metadata table) result" where
  "refineRouteResourceProjection routes tree navigation selectedRoutes =
     rbind (fold_res (route_metadata tree selectedRoutes) [] routes) (\<lambda>metadata.
       Inr (foldl (trail_resources (routes_by_name routes) (childRoutesByParentName routes)) []
              (map (\<lambda>node. trailFor navigation (item_id node)) (tree_nodes navigation)), metadata))"

section \<open>Witnesses\<close>

text \<open>A console with one app: a collection route, its record route, and the menu item of the collection.\<close>

definition desk_routes :: "unit addon_route list" where
  "desk_routes =
     [(new_route ''desk.list'' ''/desk'')\<lparr>ar_resource := Some ''crm.Lead''\<rparr>,
      (new_route ''desk.record'' ''/desk/$id'')\<lparr>ar_parent := Some ''desk.list''\<rparr>]"

definition desk_items :: "chrome_node list" where
  "desk_items = [ChromeNode (plain_item ''crm'' None None) [ChromeNode ((plain_item ''leads'' (Some ''/desk'') None)\<lparr>ci_route := Some ''desk.list''\<rparr>) []]]"

definition desk_tree :: menu_tree where
  "desk_tree = \<lparr>mt_roots = desk_items, mt_order = [''crm'', ''leads'']\<rparr>"

definition plain_options :: projection_options where
  "plain_options = \<lparr>op_navigation = None, op_removed = [], op_owners = [], op_ancestors = [], op_canonicalModels = []\<rparr>"

definition desk_projection :: "unit projection" where
  "desk_projection = projr (newAppRouteProjection sample_reader desk_routes desk_tree None plain_options)"

lemma desk_built: "buildMenuTree desk_items = Inr desk_tree"
  by code_simp

lemma desk_projected: "newAppRouteProjection sample_reader desk_routes desk_tree None plain_options = Inr desk_projection"
proof -
  have "\<not> isl (newAppRouteProjection sample_reader desk_routes desk_tree None plain_options)" by code_simp
  then show ?thesis by (simp add: desk_projection_def)
qed

end
