(* ===== verification/NavigationClaims.thy ===== *)
theory NavigationClaims
  imports RouteProjection
begin

text \<open>
  What a session sees of the navigation: the nodes whose permission it lacks leave with what is below
  them, and every other destination stays.
\<close>

section \<open>Removing nodes\<close>

lemma keep_items_ids: "keep_items gone item = Some k \<Longrightarrow> set (item_ids k) \<subseteq> set (item_ids item) - gone \<and> item_id k = item_id item"
proof (induction gone item arbitrary: k rule: keep_items.induct)
  case (1 gone f cs)
  then have k: "ci_id f \<notin> gone" "k = ChromeNode f (List.map_filter (\<lambda>k. k) (map (keep_items gone) cs))"
    by (auto simp: Let_def split: if_splits)
  have "set (item_ids x) \<subseteq> (\<Union>c \<in> set cs. set (item_ids c)) - gone" if "x \<in> set (List.map_filter (\<lambda>k. k) (map (keep_items gone) cs))" for x
  proof -
    from that obtain c where c: "c \<in> set cs" "keep_items gone c = Some x" by (auto simp: List.map_filter_def)
    have "set (item_ids x) \<subseteq> set (item_ids c) - gone" using "1.IH"[OF k(1) c(1,2)] by blast
    then show ?thesis using c(1) by blast
  qed
  then show ?case using k by auto
qed

lemma keep_items_fields: "keep_items gone item = Some k \<Longrightarrow> item_fields k = item_fields item"
  by (cases item) (auto simp: Let_def split: if_splits)

lemma keep_destination:
  assumes "t \<in> set (item_trails outer item)" "set (map item_id (drop (length outer) t)) \<inter> gone = {}"
    and "truthy_string (ci_to (item_fields (last t))) \<noteq> None"
  shows "\<exists>k. keep_items gone item = Some k \<and> reaches k \<and> item_id (last t) \<in> set (item_ids k)"
  using assms
proof (induction outer item rule: item_trails.induct)
  case (1 outer f cs)
  let ?item = "ChromeNode f cs"
  let ?kept = "ChromeNode f (List.map_filter (\<lambda>k. k) (map (keep_items gone) cs))"
  obtain s where s: "t = outer @ ?item # s" using item_trails_prefix[OF "1.prems"(1)] by auto
  then have own: "ci_id f \<notin> gone" using "1.prems"(2) by auto
  have kept: "reaches ?kept \<and> item_id (last t) \<in> set (item_ids ?kept)"
  proof -
    from "1.prems"(1) consider "t = outer @ [?item]" | c where "c \<in> set cs" "t \<in> set (item_trails (outer @ [?item]) c)" by auto
    then show ?thesis
    proof cases
      case 1
      then show ?thesis using "1.prems"(3) by simp
    next
      case (2 c)
      have "set (map item_id (drop (length (outer @ [?item])) t)) \<inter> gone = {}" using "1.prems"(2) s by simp
      from "1.IH"[OF 2 this "1.prems"(3)] obtain k where k: "keep_items gone c = Some k" "reaches k" "item_id (last t) \<in> set (item_ids k)" by blast
      then have "k \<in> set (List.map_filter (\<lambda>k. k) (map (keep_items gone) cs))" using 2(1) by (force simp: List.map_filter_def)
      then show ?thesis using k by (auto simp: list_ex_iff)
    qed
  qed
  then show ?case using own by (simp add: Let_def)
qed

lemma kept_items_ids:
  "set (concat (map item_ids (List.map_filter (keep_items gone) roots))) \<subseteq> set (concat (map item_ids roots)) - gone"
  using keep_items_ids by (fastforce simp: List.map_filter_def)

lemma subseq_concat_filter:
  assumes "\<And>c k. c \<in> set cs \<Longrightarrow> f c = Some k \<Longrightarrow> subseq (g k) (g c)"
  shows "subseq (concat (map g (List.map_filter f cs))) (concat (map g cs))"
  using assms
proof (induction cs)
  case (Cons c cs)
  then have "subseq (concat (map g (List.map_filter f cs))) (concat (map g cs))" by simp
  then show ?case using Cons.prems[of c] by (cases "f c") (auto simp: List.map_filter_def intro: list_emb_append_mono subseq_drop_many)
qed (simp add: List.map_filter_def)

lemma map_filter_map: "List.map_filter (\<lambda>k. k) (map f xs) = List.map_filter f xs"
  by (induction xs) (simp_all add: List.map_filter_def)

lemma keep_items_subseq: "keep_items gone item = Some k \<Longrightarrow> subseq (item_ids k) (item_ids item)"
proof (induction gone item arbitrary: k rule: keep_items.induct)
  case (1 gone f cs)
  then have k: "ci_id f \<notin> gone" "k = ChromeNode f (List.map_filter (keep_items gone) cs)"
    by (auto simp: Let_def map_filter_map split: if_splits)
  then show ?case using subseq_concat_filter[of cs "keep_items gone" item_ids] "1.IH" by simp
qed

lemma kept_items_distinct:
  "distinct (concat (map item_ids roots)) \<Longrightarrow> distinct (concat (map item_ids (List.map_filter (keep_items gone) roots)))"
  by (rule subseq_distinct[OF subseq_concat_filter]) (rule keep_items_subseq)

text \<open>A tree whose roots name no parents, with distinct ids, none of them reserved.\<close>

definition tree_ok :: "menu_tree \<Rightarrow> bool" where
  "tree_ok tree \<longleftrightarrow>
     distinct (mt_order tree) \<and> mset (concat (map item_ids (mt_roots tree))) = mset (mt_order tree) \<and>
     SETTINGS_ID \<notin> set (mt_order tree) \<and> (\<forall>r \<in> set (mt_roots tree). parentKey r = None)"

lemma built_ok: "buildMenuTree items = Inr tree \<Longrightarrow> tree_ok tree"
  using built_nodes[of items tree] buildMenuTree_Inr[of items tree] build_reserved[of items tree] built_root[of items tree]
  by (simp add: tree_ok_def tree_trails_def forest_trail_ids)

lemma without_ok:
  assumes "tree_ok tree"
  shows "\<exists>kept. without tree gone = Inr kept \<and> set (mt_order kept) \<inter> gone = {} \<and> tree_ok kept \<and>
    (\<forall>t \<in> set (tree_trails tree). set (map item_id t) \<inter> gone = {} \<longrightarrow> truthy_string (ci_to (item_fields (last t))) \<noteq> None \<longrightarrow>
       item_id (last t) \<in> set (mt_order kept))"
proof (cases "gone = {}")
  case True
  have "item_id (last t) \<in> set (mt_order tree)" if "t \<in> set (tree_trails tree)" for t
  proof -
    have "item_id (last t) \<in> set (map (item_id \<circ> last) (forest_trails (mt_roots tree)))" using that by (auto simp: tree_trails_def)
    moreover have "set (concat (map item_ids (mt_roots tree))) = set (mt_order tree)"
      using assms mset_eq_setD[of "concat (map item_ids (mt_roots tree))" "mt_order tree"] by (simp add: tree_ok_def)
    ultimately show ?thesis by (simp only: forest_trail_ids)
  qed
  then show ?thesis using True assms by (simp add: without_def)
next
  case False
  let ?kept = "List.map_filter (keep_items gone) (mt_roots tree)"
  have sub: "set (concat (map item_ids ?kept)) \<subseteq> set (mt_order tree) - gone"
    using kept_items_ids[of gone "mt_roots tree"] assms mset_eq_setD[of "concat (map item_ids (mt_roots tree))" "mt_order tree"]
    by (simp add: tree_ok_def)
  have "distinct (concat (map item_ids (mt_roots tree)))"
    using assms mset_eq_imp_distinct_iff[of "concat (map item_ids (mt_roots tree))" "mt_order tree"] by (simp add: tree_ok_def)
  note distinct = kept_items_distinct[OF this, of gone]
  have roots: "parentKey x = None" if "x \<in> set ?kept" for x
    using that assms keep_items_fields by (fastforce simp: List.map_filter_def tree_ok_def parentKey_def)
  have build: "without tree gone = Inr \<lparr>mt_roots = ?kept, mt_order = concat (map item_ids ?kept)\<rparr>"
    using rebuild[OF distinct _ roots] sub assms False by (auto simp: without_def tree_ok_def)
  moreover have "item_id (last t) \<in> set (concat (map item_ids ?kept))"
    if t: "t \<in> set (tree_trails tree)" "set (map item_id t) \<inter> gone = {}" "truthy_string (ci_to (item_fields (last t))) \<noteq> None" for t
  proof -
    obtain r where r: "r \<in> set (mt_roots tree)" "t \<in> set (item_trails [] r)" using t(1) by (auto simp: tree_trails_def forest_trails_def)
    then obtain k where "keep_items gone r = Some k" "item_id (last t) \<in> set (item_ids k)"
      using keep_destination[OF r(2), of gone] t(2,3) by auto
    then show ?thesis using r(1) by (force simp: List.map_filter_def)
  qed
  moreover have "tree_ok \<lparr>mt_roots = ?kept, mt_order = concat (map item_ids ?kept)\<rparr>"
    using build built_ok[of ?kept] False by (simp add: without_def)
  ultimately show ?thesis using sub by auto
qed

section \<open>Nodes of a tree\<close>

lemma trail_nodes:
  "t \<in> set (item_trails outer item) \<Longrightarrow> x \<in> set (drop (length outer) t) \<Longrightarrow>
     \<exists>s \<in> set (item_trails outer item). last s = x \<and> item_id (last t) \<in> set (item_ids x)"
proof (induction outer item rule: item_trails.induct)
  case (1 outer f cs)
  let ?item = "ChromeNode f cs"
  have own: "item_id (last t) \<in> set (item_ids ?item)" using "1.prems"(1) trail_ids[of outer ?item] by (metis comp_apply image_eqI image_set)
  obtain s where s: "t = outer @ ?item # s" using item_trails_prefix[OF "1.prems"(1)] by auto
  show ?case
  proof (cases "x = ?item")
    case True
    then show ?thesis using own by (auto intro!: bexI[of _ "outer @ [?item]"])
  next
    case False
    then have x: "x \<in> set (drop (length (outer @ [?item])) t)" "t \<noteq> outer @ [?item]" using "1.prems"(2) s by auto
    then obtain c where c: "c \<in> set cs" "t \<in> set (item_trails (outer @ [?item]) c)" using "1.prems"(1) by auto
    from "1.IH"[OF c x(1)] c(1) show ?thesis by auto
  qed
qed

lemma tree_trail_nodes:
  "t \<in> set (tree_trails tree) \<Longrightarrow> x \<in> set t \<Longrightarrow> \<exists>s \<in> set (tree_trails tree). last s = x \<and> item_id (last t) \<in> set (item_ids x)"
  using trail_nodes[of t "[]"] by (fastforce simp: tree_trails_def forest_trails_def)

lemma tree_ok_trails:
  assumes "tree_ok tree"
  shows "mset (map (item_id \<circ> last) (tree_trails tree)) = mset (mt_order tree)" "distinct (map (item_id \<circ> last) (tree_trails tree))"
proof -
  show nodes: "mset (map (item_id \<circ> last) (tree_trails tree)) = mset (mt_order tree)"
    using assms by (simp add: tree_ok_def tree_trails_def forest_trail_ids)
  show "distinct (map (item_id \<circ> last) (tree_trails tree))"
    using mset_eq_imp_distinct_iff[OF nodes] assms by (simp add: tree_ok_def)
qed

lemma distinct_map_find:
  assumes "distinct (map f xs)" "x \<in> set xs"
  shows "find (\<lambda>y. f y = f x) xs = Some x"
  using assms by (induction xs) auto

lemma node_in_tree:
  assumes "tree_ok tree" "s \<in> set (tree_trails tree)"
  shows "last s \<in> set (tree_nodes tree)"
proof -
  have "node_at tree (item_id (last s)) = Some (last s)"
    using distinct_map_find[of "item_id \<circ> last" "tree_trails tree" s] tree_ok_trails(2)[OF assms(1)] assms(2)
    by (simp add: node_at_def)
  moreover have "item_id (last s) \<in> set (mt_order tree)"
    using mset_eq_setD[OF tree_ok_trails(1)[OF assms(1)]] assms(2) by (metis comp_apply image_eqI image_set)
  ultimately show ?thesis by (force simp: tree_nodes_def List.map_filter_def)
qed

lemma last_ids: "t \<in> set (item_trails outer item) \<Longrightarrow> set (item_ids (last t)) \<subseteq> set (item_ids item)"
proof (induction outer item rule: item_trails.induct)
  case (1 outer f cs)
  let ?item = "ChromeNode f cs"
  from "1.prems" consider "t = outer @ [?item]" | c where "c \<in> set cs" "t \<in> set (item_trails (outer @ [?item]) c)" by auto
  then show ?case
  proof cases
    case (2 c)
    then show ?thesis using "1.IH"[OF 2] by auto
  qed simp
qed

lemma trails_below: "s \<in> set (item_trails outer item) \<Longrightarrow> set (item_trails (butlast s) (last s)) \<subseteq> set (item_trails outer item)"
proof (induction outer item rule: item_trails.induct)
  case (1 outer f cs)
  let ?item = "ChromeNode f cs"
  from "1.prems" consider "s = outer @ [?item]" | c where "c \<in> set cs" "s \<in> set (item_trails (outer @ [?item]) c)" by auto
  then show ?case
  proof cases
    case (2 c)
    then show ?thesis using "1.IH"[OF 2] by auto
  qed simp
qed

lemma subtree_ids:
  assumes "tree_ok tree" "s \<in> set (tree_trails tree)" "u \<in> set (tree_trails tree)" "item_id (last u) \<in> set (item_ids (last s))"
  shows "set (item_ids (last u)) \<subseteq> set (item_ids (last s))"
proof -
  obtain r where r: "r \<in> set (mt_roots tree)" "s \<in> set (item_trails [] r)" using assms(2) by (auto simp: tree_trails_def forest_trails_def)
  have "item_id (last u) \<in> set (map (item_id \<circ> last) (item_trails (butlast s) (last s)))" using assms(4) by (simp only: trail_ids)
  then obtain v where v: "v \<in> set (item_trails (butlast s) (last s))" "item_id (last v) = item_id (last u)" by auto
  then have "v \<in> set (tree_trails tree)" using trails_below[OF r(2)] r(1) by (auto simp: tree_trails_def forest_trails_def)
  then have "v = u" using tree_ok_trails(2)[OF assms(1)] assms(3) v(2) by (auto simp: distinct_map inj_on_def)
  then show ?thesis using last_ids[OF v(1)] by simp
qed

lemma tree_nodes_trail:
  assumes "x \<in> set (tree_nodes tree)"
  shows "\<exists>s \<in> set (tree_trails tree). last s = x"
proof -
  from assms obtain i where "node_at tree i = Some x" by (auto simp: tree_nodes_def List.map_filter_def)
  then show ?thesis by (auto simp: node_at_def dest: find_holds)
qed

section \<open>Nodes a session lacks\<close>

definition absent_step :: "string list option \<Rightarrow> string set \<Rightarrow> chrome_node \<Rightarrow> string set" where
  "absent_step permitted absent item =
     (if item_id item \<notin> absent \<and> \<not> isPresent (ci_requires (item_fields item)) permitted then absent \<union> set (item_ids item) else absent)"

lemma absentMenuNodes_alt: "absentMenuNodes tree permitted = foldl (absent_step permitted) {} (tree_nodes tree)"
  unfolding absentMenuNodes_def absent_step_def ..

text \<open>A set of ids that holds the subtree of each of its nodes.\<close>

definition downward :: "menu_tree \<Rightarrow> string set \<Rightarrow> bool" where
  "downward tree A \<longleftrightarrow> (\<forall>s \<in> set (tree_trails tree). item_id (last s) \<in> A \<longrightarrow> set (item_ids (last s)) \<subseteq> A)"

lemma absent_step_downward:
  assumes "tree_ok tree" "s \<in> set (tree_trails tree)" "downward tree A"
  shows "downward tree (absent_step permitted A (last s))"
  using assms(3) subtree_ids[OF assms(1,2)] by (fastforce simp: absent_step_def downward_def)

lemma absent_foldl:
  assumes "tree_ok tree"
  shows "downward tree A \<Longrightarrow> (\<And>x. x \<in> set items \<Longrightarrow> \<exists>s \<in> set (tree_trails tree). last s = x) \<Longrightarrow>
     A \<subseteq> foldl (absent_step permitted) A items \<and>
     (\<forall>x \<in> set items. \<not> isPresent (ci_requires (item_fields x)) permitted \<longrightarrow> set (item_ids x) \<subseteq> foldl (absent_step permitted) A items)"
proof (induction items arbitrary: A)
  case (Cons x items)
  obtain s where s: "s \<in> set (tree_trails tree)" "last s = x" using Cons.prems(2)[of x] by auto
  note IH = Cons.IH[OF absent_step_downward[OF assms s(1) Cons.prems(1), of permitted], unfolded s(2)]
  have "A \<subseteq> absent_step permitted A x" by (auto simp: absent_step_def)
  moreover have "set (item_ids x) \<subseteq> absent_step permitted A x" if "\<not> isPresent (ci_requires (item_fields x)) permitted"
    using Cons.prems(1) s that by (auto simp: absent_step_def downward_def)
  ultimately show ?case using IH Cons.prems(2) by auto
qed simp

lemma absent_subtree:
  assumes "tree_ok tree" "x \<in> set (tree_nodes tree)" "\<not> isPresent (ci_requires (item_fields x)) permitted"
  shows "set (item_ids x) \<subseteq> absentMenuNodes tree permitted"
  using absent_foldl[OF assms(1), of "{}" "tree_nodes tree" permitted] tree_nodes_trail assms(2,3)
  by (simp add: absentMenuNodes_alt downward_def)

lemma node_subtree_absent:
  assumes "tree_ok tree" "t \<in> set (tree_trails tree)" "x \<in> set t" "\<not> isPresent (ci_requires (item_fields x)) permitted"
  shows "item_id (last t) \<in> absentMenuNodes tree permitted"
proof -
  obtain s where s: "s \<in> set (tree_trails tree)" "last s = x" "item_id (last t) \<in> set (item_ids x)"
    using tree_trail_nodes[OF assms(2,3)] by blast
  have x: "x \<in> set (tree_nodes tree)" using node_in_tree[OF assms(1) s(1)] s(2) by simp
  show ?thesis using absent_subtree[OF assms(1) x assms(4)] s(3) by blast
qed

lemma projection_navigation:
  assumes "newAppRouteProjection u routes tree selection opts = Inr p"
  shows "pj_menuTree p = tree" "tree_ok (pj_navigationTree p)"
proof -
  let ?nav = "or_else (op_navigation opts) tree"
  from assms obtain shown where shown: "(case selection of None \<Rightarrow> withSettingsPlace ?nav | Some (rail, _) \<Rightarrow> confineTo ?nav rail) = Inr shown"
    and p: "pj_menuTree p = tree" "pj_navigationTree p = shown"
    by (auto simp: newAppRouteProjection_def Let_def rbind_Inr_iff)
  from p show "pj_menuTree p = tree" by simp
  from shown obtain items where "buildMenuTree items = Inr shown"
    by (auto simp: withSettingsPlace_def confineTo_def Let_def rbind_Inr_iff split: option.splits)
  then show "tree_ok (pj_navigationTree p)" using built_ok p(2) by simp
qed

section \<open>Property\<close>



end
