(* ===== verification/AppRouteClaims.thy ===== *)
theory AppRouteClaims
  imports RouteProjection
begin

text \<open>
  What the projection of routes and menus promises: which routes the removal of menu nodes takes away,
  and that a resource which an app claims opens at a page of that app.
\<close>

section \<open>Routes that removed menu nodes take away\<close>

definition console_route :: "'c routes_map \<Rightarrow> 'c addon_route \<Rightarrow> bool" where
  "console_route byName route \<longleftrightarrow> (case layoutOf byName route of Inr layout \<Rightarrow> in_console layout | Inl _ \<Rightarrow> False)"

lemma console_routeI [intro]: "layoutOf byName route = Inr layout \<Longrightarrow> in_console layout \<Longrightarrow> console_route byName route"
  by (simp add: console_route_def)

lemma console_routeE: "console_route byName route \<Longrightarrow> \<exists>layout. layoutOf byName route = Inr layout \<and> in_console layout"
  by (simp add: console_route_def split: sum.splits)

text \<open>
  The specification: a route in the console goes when a menu reference to it was removed and none is
  left, or when its parent went.
\<close>

inductive gone :: "'c addon_route list \<Rightarrow> menu_tree \<Rightarrow> removed_node list \<Rightarrow> string \<Rightarrow> bool" for routes tree removed where
  gone_reference: "(route, reason) \<in> set (removed_reasons (routes_by_name routes) routes removed) \<Longrightarrow>
     console_route (routes_by_name routes) route \<Longrightarrow> itemsForRoute tree (ar_name route) = [] \<Longrightarrow> gone routes tree removed (ar_name route)"
| gone_parent: "route \<in> set routes \<Longrightarrow> truthy_string (ar_parent route) = Some parent \<Longrightarrow> gone routes tree removed parent \<Longrightarrow>
     console_route (routes_by_name routes) route \<Longrightarrow> gone routes tree removed (ar_name route)"

definition only_gone :: "'c addon_route list \<Rightarrow> menu_tree \<Rightarrow> removed_node list \<Rightarrow> reasons \<Rightarrow> bool" where
  "only_gone routes tree removed un \<longleftrightarrow> distinct (map fst un) \<and> (\<forall>n \<in> fst ` set un. gone routes tree removed n)"

lemma consider_cases:
  assumes "consider_route byName tree un (route, reason) = Inr un'"
  shows "(un' = un \<and> (ar_name route \<in> fst ` set un \<or> \<not> (console_route byName route \<and> itemsForRoute tree (ar_name route) = []))) \<or>
    (un' = un @ [(ar_name route, reason)] \<and> ar_name route \<notin> fst ` set un \<and> console_route byName route \<and> itemsForRoute tree (ar_name route) = [])"
proof (cases "ar_name route \<in> fst ` set un")
  case True
  then show ?thesis using assms by (simp add: consider_route_def)
next
  case False
  then show ?thesis using assms
    by (cases "layoutOf byName route") (simp_all add: consider_route_def console_route_def del: image_iff split: if_splits)
qed

lemma consider_only:
  assumes un: "only_gone routes tree removed un" and x: "x \<in> set (removed_reasons (routes_by_name routes) routes removed)"
    and step: "consider_route (routes_by_name routes) tree un x = Inr un'"
  shows "only_gone routes tree removed un'"
proof -
  obtain route reason where r: "x = (route, reason)" by (cases x)
  from consider_cases[OF step[unfolded r]] show ?thesis
  proof (elim disjE conjE)
    assume new: "un' = un @ [(ar_name route, reason)]" "ar_name route \<notin> fst ` set un"
      "console_route (routes_by_name routes) route" "itemsForRoute tree (ar_name route) = []"
    then have "gone routes tree removed (ar_name route)" using gone_reference x r by blast
    then show ?thesis using un new(1,2) by (auto simp: only_gone_def)
  qed (use un in simp_all)
qed

lemma consider_keys:
  assumes "consider_route byName tree un (route, reason) = Inr un'"
  shows "fst ` set un \<subseteq> fst ` set un'"
    and "console_route byName route \<Longrightarrow> itemsForRoute tree (ar_name route) = [] \<Longrightarrow> ar_name route \<in> fst ` set un'"
  using consider_cases[OF assms] by auto

lemma consider_all:
  assumes "fold_res (consider_route byName tree) un xs = Inr un'"
  shows "fst ` set un \<subseteq> fst ` set un' \<and>
     (\<forall>(route, reason) \<in> set xs. console_route byName route \<longrightarrow> itemsForRoute tree (ar_name route) = [] \<longrightarrow> ar_name route \<in> fst ` set un')"
  using assms
proof (induction xs arbitrary: un)
  case (Cons x xs)
  then obtain mid where mid: "consider_route byName tree un x = Inr mid" "fold_res (consider_route byName tree) mid xs = Inr un'"
    by (auto simp: rbind_Inr_iff)
  note step = consider_keys[of byName tree un "fst x" "snd x" mid, unfolded prod.collapse, OF mid(1)]
  note IH = Cons.IH[OF mid(2)]
  have "fst ` set un \<subseteq> fst ` set un'" using step(1) IH by (meson order_trans)
  moreover have "console_route byName (fst x) \<Longrightarrow> itemsForRoute tree (ar_name (fst x)) = [] \<Longrightarrow> ar_name (fst x) \<in> fst ` set un'"
    using step(2) IH by (meson subsetD)
  ultimately show ?case using IH by (auto simp del: image_iff simp: split_beta)
qed simp

lemma follow_parent_cases:
  assumes "follow_parent byName un route = Inr un'"
  obtains "un' = un"
    | parent reason where "truthy_string (ar_parent route) = Some parent" "parent \<in> fst ` set un" "ar_name route \<notin> fst ` set un"
      "console_route byName route" "un' = un @ [(ar_name route, reason)]"
proof (cases "\<exists>parent. truthy_string (ar_parent route) = Some parent \<and> parent \<in> fst ` set un \<and> ar_name route \<notin> fst ` set un")
  case True
  then obtain parent where parent: "truthy_string (ar_parent route) = Some parent" "parent \<in> fst ` set un" "ar_name route \<notin> fst ` set un"
    by blast
  then have "un' = un \<or> (console_route byName route \<and> un' = un @ [(ar_name route, parent_reason parent)])" using assms
    by (cases "layoutOf byName route") (simp_all add: follow_parent_def console_route_def del: image_iff split: if_splits)
  then show thesis using that(1) that(2)[OF parent] by blast
next
  case False
  then have "follow_parent byName un route = Inr un" by (auto simp: follow_parent_def simp del: image_iff split: option.split)
  then show thesis using assms that(1) by simp
qed

lemma follow_only:
  assumes un: "only_gone routes tree removed un" and route: "route \<in> set routes" and step: "follow_parent (routes_by_name routes) un route = Inr un'"
  shows "only_gone routes tree removed un'"
  using step
proof (cases rule: follow_parent_cases)
  case (2 parent reason)
  then have "gone routes tree removed parent" using un by (auto simp: only_gone_def)
  then have "gone routes tree removed (ar_name route)" using gone_parent[OF route 2(1) _ 2(4)] by blast
  then show ?thesis using un 2(3,5) by (auto simp: only_gone_def)
qed (use un in simp)

lemma follow_pass_only:
  assumes "only_gone routes tree removed un" "fold_res (follow_parent (routes_by_name routes)) un routes = Inr un'"
  shows "only_gone routes tree removed un'"
  using fold_res_invariant[OF assms(2), of "only_gone routes tree removed"] assms(1) follow_only by blast

text \<open>A pass that adds nothing found every child of an unavailable route unavailable.\<close>

lemma follow_closed:
  assumes "fold_res (follow_parent byName) un routes = Inr un" "route \<in> set routes"
    and "truthy_string (ar_parent route) = Some parent" "parent \<in> fst ` set un" "console_route byName route"
  shows "ar_name route \<in> fst ` set un"
  using assms(1,2)
proof (induction routes)
  case (Cons r routes)
  then obtain mid where mid: "follow_parent byName un r = Inr mid" "fold_res (follow_parent byName) mid routes = Inr un"
    by (auto simp: rbind_Inr_iff)
  from follow_parents_grow[OF mid(2)] follow_parent_grows[OF mid(1)] have "mid = un" by auto
  then show ?case
  proof (cases "r = route")
    case True
    then have "follow_parent byName un route = Inr un" using mid(1) \<open>mid = un\<close> by simp
    then show ?thesis using assms(3-5) by (auto simp: follow_parent_def simp del: image_iff dest!: console_routeE split: if_splits)
  next
    case False
    then show ?thesis using Cons mid \<open>mid = un\<close> by simp
  qed
qed simp

lemma follow_parents_exact:
  "follow_parents byName routes un = Inr un' \<Longrightarrow> byName = routes_by_name routes \<Longrightarrow> only_gone routes tree removed un \<Longrightarrow>
     only_gone routes tree removed un' \<and> fst ` set un \<subseteq> fst ` set un' \<and> fold_res (follow_parent byName) un' routes = Inr un'"
proof (induction byName routes un rule: follow_parents.induct)
  case (1 byName routes un)
  from "1.prems"(1) obtain mid where mid: "fold_res (follow_parent byName) un routes = Inr mid"
    by (subst (asm) follow_parents.simps) (auto split: sum.splits)
  obtain more where more: "mid = un @ more" using follow_parents_grow[OF mid] by blast
  show ?case
  proof (cases "length mid = length un")
    case True
    then have "mid = un" "un' = un" using more "1.prems"(1) mid by (auto simp: follow_parents.simps[of byName routes un])
    then show ?thesis using mid "1.prems"(3) by simp
  next
    case False
    have rest: "follow_parents byName routes mid = Inr un'" using "1.prems"(1) mid False by (simp add: follow_parents.simps[of byName routes un])
    have "only_gone routes tree removed mid" using follow_pass_only[OF "1.prems"(3)] mid "1.prems"(2) by simp
    from "1.IH"[OF mid False rest "1.prems"(2) this] more show ?thesis by auto
  qed
qed

text \<open>
  C39: the unavailable routes are the least set that holds the console routes whose menu references were
  removed with none left, and the console routes whose parent is unavailable; each is listed once.
\<close>

theorem unavailableRoutes_least:
  assumes "unavailableRoutes routes tree removed = Inr un"
  shows "distinct (map fst un) \<and> fst ` set un = {n. gone routes tree removed n}"
proof -
  let ?byName = "routes_by_name routes"
  from assms obtain first where first: "fold_res (consider_route ?byName tree) [] (removed_reasons ?byName routes removed) = Inr first"
    and un: "follow_parents ?byName routes first = Inr un"
    by (auto simp: unavailableRoutes_def Let_def rbind_Inr_iff)
  have "only_gone routes tree removed first"
    by (rule fold_res_invariant[OF first]) (auto intro: consider_only simp: only_gone_def[of _ _ _ "[]"])
  note exact = follow_parents_exact[OF un refl this]
  have "n \<in> fst ` set un" if "gone routes tree removed n" for n
    using that
  proof (induction rule: gone.induct)
    case (gone_reference route reason)
    then have "ar_name route \<in> fst ` set first" using consider_all[OF first] by blast
    then show ?case using exact by blast
  next
    case (gone_parent route parent)
    then show ?case using follow_closed[of ?byName un routes route parent] exact by blast
  qed
  then show ?thesis using exact by (auto simp: only_gone_def)
qed

section \<open>Claims of an app\<close>

lemma claim_resource_keeps:
  assumes "claim_resource children old r = Inr new" "map_of old k = Some v"
  shows "map_of new k = Some v"
proof -
  have "k \<in> fst ` set old" using assms(2) by (force dest: map_of_SomeD)
  then show ?thesis using assms
    by (cases "truthy_string (ar_resource r) = Some k")
      (auto simp: claim_resource_def Let_def simp del: image_iff split: option.splits if_splits)
qed

lemma claim_resources_keep:
  "fold_res (claim_resource children) old routes = Inr new \<Longrightarrow> map_of old k = Some v \<Longrightarrow> map_of new k = Some v"
  by (induction routes arbitrary: old) (auto simp: rbind_Inr_iff dest: claim_resource_keeps)

lemma claimOf_collection:
  assumes "claimOf routes route model = Inr claim" "model \<noteq> []"
  shows "rr_collection claim = ar_name route"
proof -
  let ?r = "route\<lparr>ar_resource := Some model\<rparr>"
  let ?rest = "filter (\<lambda>child. ar_parent child = Some (ar_name route)) routes"
  from assms(1) obtain index where index: "resourceRouteIndex (?r # ?rest) = Inr index" "map_of index model = Some claim"
    by (auto simp: claimOf_def rbind_Inr_iff split: option.splits)
  then obtain first where first: "claim_resource (childRoutesByParentName (?r # ?rest)) [] ?r = Inr first"
      "fold_res (claim_resource (childRoutesByParentName (?r # ?rest))) first ?rest = Inr index"
    by (auto simp: resourceRouteIndex_def rbind_Inr_iff)
  obtain own where own: "map_of first model = Some own" "rr_collection own = ar_name route"
    using first(1) assms(2) by (auto simp: claim_resource_def truthy_string_def Let_def split: if_splits)
  from claim_resources_keep[OF first(2) own(1)] index(2) own(2) show ?thesis by simp
qed

text \<open>A page of \<open>app\<close> for a resource: available, without parameters, and with the app as its root.\<close>

definition page_of :: "'c addon_route list \<Rightarrow> menu_tree \<Rightarrow> reasons \<Rightarrow> string \<Rightarrow> string \<Rightarrow> 'c addon_route \<Rightarrow> bool" where
  "page_of routes tree un app resource route \<longleftrightarrow>
     route \<in> set routes \<and> ar_name route \<notin> fst ` set un \<and> rootFor (routes_by_name routes) tree route = Inr (Some app) \<and>
     declared_resource route = Some resource \<and> CHR ''$'' \<notin> set (ar_path route)"

definition claims_ok :: "'c addon_route list \<Rightarrow> menu_tree \<Rightarrow> reasons \<Rightarrow> claims_map \<Rightarrow> bool" where
  "claims_ok routes tree un m \<longleftrightarrow>
     (\<forall>(app, rs) \<in> set m. \<forall>(r, cs) \<in> set rs. cs \<noteq> [] \<and> (\<forall>c \<in> set cs. \<exists>route. page_of routes tree un app r route \<and> ar_name route = rr_collection c))"

lemma claims_okD:
  assumes "claims_ok routes tree un m" "map_of m app = Some rs" "(r, cs) \<in> set rs"
  shows "cs \<noteq> []" "\<And>c. c \<in> set cs \<Longrightarrow> \<exists>route. page_of routes tree un app r route \<and> ar_name route = rr_collection c"
  using assms map_of_SomeD[OF assms(2)] by (force simp: claims_ok_def)+

lemma claims_ok_put:
  assumes ok: "claims_ok routes tree un m" and page: "page_of routes tree un app r route" "rr_collection claim = ar_name route"
  shows "claims_ok routes tree un (map_put app (map_put r (or_else (map_of (or_else (map_of m app) []) r) [] @ [claim]) (or_else (map_of m app) [])) m)"
proof -
  let ?rs = "or_else (map_of m app) []"
  let ?cs = "or_else (map_of ?rs r) []"
  have rs: "cs \<noteq> [] \<and> (\<forall>c \<in> set cs. \<exists>route. page_of routes tree un app r' route \<and> ar_name route = rr_collection c)" if "(r', cs) \<in> set ?rs" for r' cs
    using claims_okD[OF ok] that by (cases "map_of m app") (auto simp: or_else_def)
  have old: "\<exists>route. page_of routes tree un app r route \<and> ar_name route = rr_collection c" if "c \<in> set ?cs" for c
    using rs that by (cases "map_of ?rs r") (auto simp: or_else_def dest: map_of_SomeD)
  have new: "cs \<noteq> [] \<and> (\<forall>c \<in> set cs. \<exists>route. page_of routes tree un app r' route \<and> ar_name route = rr_collection c)"
    if "(r', cs) \<in> set (map_put r (?cs @ [claim]) ?rs)" for r' cs
  proof (cases "(r', cs) \<in> set ?rs")
    case False
    then have "r' = r" "cs = ?cs @ [claim]" using set_map_put[of r "?cs @ [claim]" ?rs] that by auto
    then show ?thesis using old page by auto
  qed (use rs in blast)
  have "\<forall>(r, cs) \<in> set rs'. cs \<noteq> [] \<and> (\<forall>c \<in> set cs. \<exists>route. page_of routes tree un app' r route \<and> ar_name route = rr_collection c)"
    if "(app', rs') \<in> set (map_put app (map_put r (?cs @ [claim]) ?rs) m)" for app' rs'
  proof (cases "(app', rs') \<in> set m")
    case True
    then show ?thesis using ok unfolding claims_ok_def by blast
  next
    case False
    then have "app' = app" "rs' = map_put r (?cs @ [claim]) ?rs"
      using set_map_put[of app "map_put r (?cs @ [claim]) ?rs" m] that by auto
    then show ?thesis using new by blast
  qed
  then show ?thesis unfolding claims_ok_def by blast
qed

definition claimed_in :: "claims_map \<Rightarrow> string \<Rightarrow> string \<Rightarrow> bool" where
  "claimed_in m app r \<longleftrightarrow> (\<exists>rs. map_of m app = Some rs \<and> r \<in> fst ` set rs)"

lemma claimed_in_put:
  "claimed_in (map_put app (map_put r v (or_else (map_of m app) [])) m) app' r' \<longleftrightarrow> (app' = app \<and> r' = r) \<or> claimed_in m app' r'"
  unfolding claimed_in_def map_keys_def[symmetric] by (cases "map_of m app") (auto simp: or_else_def map_keys_def[of "[_]"])

lemma claim_page_cases:
  assumes "claim_page routes route home s = Inr s'"
  shows "cs_claims s' = cs_claims s \<and>
      \<not> (\<exists>app r. app \<noteq> [] \<and> home = Some app \<and> declared_resource route = Some r \<and> CHR ''$'' \<notin> set (ar_path route))
    \<or> (\<exists>app r claim. home = Some app \<and> declared_resource route = Some r \<and> CHR ''$'' \<notin> set (ar_path route) \<and> claimOf routes route r = Inr claim \<and>
        cs_claims s' = map_put app (map_put r (or_else (map_of (or_else (map_of (cs_claims s) app) []) r) [] @ [claim]) (or_else (map_of (cs_claims s) app) [])) (cs_claims s))"
proof (cases "\<exists>r app. declared_resource route = Some r \<and> truthy_string home = Some app \<and> CHR ''$'' \<notin> set (ar_path route)")
  case True
  then obtain r app where claim: "declared_resource route = Some r" "truthy_string home = Some app" "CHR ''$'' \<notin> set (ar_path route)" by blast
  then have "home = Some app" by (cases home) (auto simp: truthy_string_def split: if_splits)
  moreover obtain c where "claimOf routes route r = Inr c"
    "cs_claims s' = map_put app (map_put r (or_else (map_of (or_else (map_of (cs_claims s) app) []) r) [] @ [c]) (or_else (map_of (cs_claims s) app) [])) (cs_claims s)"
    using assms claim by (auto simp: claim_page_def rbind_Inr_iff Let_def split: option.splits)
  ultimately show ?thesis using claim by blast
next
  case False
  then have "cs_claims s' = cs_claims s" using assms by (auto simp: claim_page_def rbind_Inr_iff split: option.splits if_splits)
  moreover have "\<not> (\<exists>app r. app \<noteq> [] \<and> home = Some app \<and> declared_resource route = Some r \<and> CHR ''$'' \<notin> set (ar_path route))"
    using False by (auto simp: truthy_string_def)
  ultimately show ?thesis by blast
qed

lemma claim_route_cases:
  assumes "claim_route routes byName tree un s route = Inr s'"
  obtains "cs_claims s' = cs_claims s" "ar_name route \<in> fst ` set un"
    | home destinations where "ar_name route \<notin> fst ` set un" "rootFor byName tree route = Inr home"
        "claim_page routes route home (s\<lparr>cs_destinations := destinations\<rparr>) = Inr s'"
proof (cases "ar_name route \<in> fst ` set un")
  case True
  then show thesis using assms that(1) by (simp add: claim_route_def)
next
  case False
  then show thesis using assms that(2)[OF False] unfolding claim_route_def by (auto simp: rbind_Inr_iff simp del: image_iff)
qed

lemma claim_route_ok:
  assumes ok: "claims_ok routes tree un (cs_claims s)" and route: "route \<in> set routes"
    and step: "claim_route routes (routes_by_name routes) tree un s route = Inr s'"
  shows "claims_ok routes tree un (cs_claims s')"
  using step
proof (cases rule: claim_route_cases)
  case (2 home destinations)
  from claim_page_cases[OF 2(3)] show ?thesis
  proof (elim disjE conjE exE)
    fix app r claim
    assume page: "home = Some app" "declared_resource route = Some r" "CHR ''$'' \<notin> set (ar_path route)" "claimOf routes route r = Inr claim"
    let ?m = "cs_claims (s\<lparr>cs_destinations := destinations\<rparr>)"
    assume s': "cs_claims s' = map_put app (map_put r (or_else (map_of (or_else (map_of ?m app) []) r) [] @ [claim]) (or_else (map_of ?m app) [])) ?m"
    have "page_of routes tree un app r route" using 2 page route by (simp add: page_of_def)
    moreover have "r \<noteq> []" using page(2) by (auto simp: declared_resource_def truthy_string_def split: option.splits if_splits)
    moreover have "claims_ok routes tree un ?m" using ok by simp
    ultimately show ?thesis unfolding s' using claims_ok_put claimOf_collection[OF page(4)] by blast
  qed (use ok in simp)
qed (use ok in simp)

lemma claim_route_claimed:
  assumes "claim_route routes (routes_by_name routes) tree un s route = Inr s'"
  shows "claimed_in (cs_claims s) app r \<Longrightarrow> claimed_in (cs_claims s') app r"
    and "page_of routes tree un app r route \<Longrightarrow> app \<noteq> [] \<Longrightarrow> claimed_in (cs_claims s') app r"
proof -
  have "(claimed_in (cs_claims s) app r \<longrightarrow> claimed_in (cs_claims s') app r) \<and>
      (page_of routes tree un app r route \<longrightarrow> app \<noteq> [] \<longrightarrow> claimed_in (cs_claims s') app r)"
    using assms
  proof (cases rule: claim_route_cases)
    case (2 home destinations)
    from claim_page_cases[OF 2(3)] 2(1,2) show ?thesis
      by (elim disjE conjE exE) (auto simp: claimed_in_put page_of_def simp del: image_iff)
  qed (simp add: page_of_def)
  then show "claimed_in (cs_claims s) app r \<Longrightarrow> claimed_in (cs_claims s') app r"
    and "page_of routes tree un app r route \<Longrightarrow> app \<noteq> [] \<Longrightarrow> claimed_in (cs_claims s') app r" by blast+
qed

lemma claim_routes_claimed:
  assumes "fold_res (claim_route routes (routes_by_name routes) tree un) s rs = Inr s'"
  shows "(claimed_in (cs_claims s) app r \<longrightarrow> claimed_in (cs_claims s') app r) \<and>
    (\<forall>route \<in> set rs. page_of routes tree un app r route \<longrightarrow> app \<noteq> [] \<longrightarrow> claimed_in (cs_claims s') app r)"
  using assms
proof (induction rs arbitrary: s)
  case (Cons x rs)
  then obtain mid where mid: "claim_route routes (routes_by_name routes) tree un s x = Inr mid"
      "fold_res (claim_route routes (routes_by_name routes) tree un) mid rs = Inr s'"
    by (auto simp: rbind_Inr_iff)
  show ?case using Cons.IH[OF mid(2)] claim_route_claimed[OF mid(1)] by auto
qed simp

section \<open>Resource routes\<close>

text \<open>Every resource of \<open>rs\<close> opens, in \<open>result\<close>, at a page of the app for it.\<close>

definition opens_in :: "'c addon_route list \<Rightarrow> menu_tree \<Rightarrow> reasons \<Rightarrow> string \<Rightarrow> string set \<Rightarrow> resource_routes table \<Rightarrow> bool" where
  "opens_in routes tree un app rs result \<longleftrightarrow>
     (\<forall>r \<in> rs. \<exists>rr route. map_of result r = Some rr \<and> page_of routes tree un app r route \<and> ar_name route = rr_collection rr)"

lemma opens_in_same:
  assumes "opens_in routes tree un app rs result"
    and "\<And>r rr. map_of result r = Some rr \<Longrightarrow> \<exists>rr'. map_of result' r = Some rr' \<and> rr_collection rr' = rr_collection rr"
  shows "opens_in routes tree un app rs result'"
  using assms unfolding opens_in_def by metis

lemma find_res_member: "find_res f xs = Inr (Some x) \<Longrightarrow> x \<in> set xs"
  by (induction xs) (auto simp: rbind_Inr_iff split: if_splits)

lemma own_claim_put:
  assumes "own_claim p route result (r, claims) = Inr result'" "claims \<noteq> []"
  shows "\<exists>claim \<in> set claims. \<exists>rr. rr_collection rr = rr_collection claim \<and> result' = obj_put r rr result"
proof -
  obtain found where found: "find_res (is_collection p route) claims = Inr found"
    using assms(1) by (cases "find_res (is_collection p route) claims") (auto simp: own_claim_def)
  obtain selected rest where selected: "(case found of Some claim \<Rightarrow> [claim] | None \<Rightarrow> claims) = selected # rest"
    using assms(2) by (cases claims; cases found) auto
  then have result': "result' = obj_put r (selected\<lparr>rr_record := own_record p r claims selected\<rparr>) result"
    using assms(1) found by (simp add: own_claim_def)
  have "selected \<in> set claims" using found selected find_res_member by (auto split: option.splits)
  then show ?thesis using result' by (intro bexI[of _ selected] exI[of _ "selected\<lparr>rr_record := own_record p r claims selected\<rparr>"]) simp_all
qed

lemma own_claims_open:
  assumes "fold_res (own_claim p route) result owned = Inr result'" "opens_in routes tree un app done result"
    and "\<And>r cs. (r, cs) \<in> set owned \<Longrightarrow> cs \<noteq> [] \<and> (\<forall>c \<in> set cs. \<exists>route. page_of routes tree un app r route \<and> ar_name route = rr_collection c)"
  shows "opens_in routes tree un app (done \<union> fst ` set owned) result'"
  using assms
proof (induction owned arbitrary: result "done")
  case (Cons x owned)
  obtain r cs where x: "x = (r, cs)" by (cases x)
  from Cons.prems(1) obtain mid where mid: "own_claim p route result (r, cs) = Inr mid" "fold_res (own_claim p route) mid owned = Inr result'"
    by (auto simp: rbind_Inr_iff x)
  have cs: "cs \<noteq> []" "\<And>c. c \<in> set cs \<Longrightarrow> \<exists>route. page_of routes tree un app r route \<and> ar_name route = rr_collection c"
    using Cons.prems(3)[of r cs] x by auto
  obtain claim rr where rr: "claim \<in> set cs" "rr_collection rr = rr_collection claim" "mid = obj_put r rr result"
    using own_claim_put[OF mid(1) cs(1)] by blast
  have "opens_in routes tree un app (insert r done) mid"
    using Cons.prems(2) cs(2)[OF rr(1)] rr(2) unfolding opens_in_def rr(3) by auto
  from Cons.IH[OF mid(2) this] have "opens_in routes tree un app (insert r done \<union> fst ` set owned) result'"
    using Cons.prems(3) by (metis list.set_intros(2))
  moreover have "insert r done \<union> fst ` set owned = done \<union> fst ` set (x # owned)" by (simp add: x)
  ultimately show ?case by simp
qed simp

lemma add_destinations_collection:
  "map_of result r = Some rr \<Longrightarrow> \<exists>rr'. map_of (foldl (add_destinations p owned) result ds) r = Some rr' \<and> rr_collection rr' = rr_collection rr"
proof (induction ds arbitrary: result rr)
  case (Cons d ds)
  have "\<exists>rr'. map_of (add_destinations p owned result d) r = Some rr' \<and> rr_collection rr' = rr_collection rr"
    using Cons.prems by (cases d) (auto simp: add_destinations_def Let_def split: option.splits)
  then show ?case using Cons.IH by fastforce
qed simp

lemma keep_identity_collection:
  "map_of result r = Some rr \<Longrightarrow> \<exists>rr'. map_of (keep_identity a b result) r = Some rr' \<and> rr_collection rr' = rr_collection rr"
  by (auto simp: keep_identity_def split: option.splits)

lemma projection_claims:
  assumes "newAppRouteProjection u routes tree selection opts = Inr p"
  shows "claims_ok routes tree (pj_unavailable p) (pj_claims p)"
    and "page_of routes tree (pj_unavailable p) app r route \<Longrightarrow> app \<noteq> [] \<Longrightarrow> claimed_in (pj_claims p) app r"
proof -
  let ?start = "\<lparr>cs_canonical = [], cs_claimants = [], cs_claims = [], cs_destinations = []\<rparr>"
  from assms obtain s where s: "fold_res (claim_route routes (routes_by_name routes) tree (pj_unavailable p)) ?start (js_sort (compare_claims tree) routes) = Inr s"
    and claims: "pj_claims p = cs_claims s"
    by (auto simp: newAppRouteProjection_def Let_def rbind_Inr_iff)
  show "claims_ok routes tree (pj_unavailable p) (pj_claims p)"
    unfolding claims
    by (rule fold_res_invariant[OF s]) (auto intro: claim_route_ok simp: claims_ok_def[of _ _ _ "[]"])
  show "page_of routes tree (pj_unavailable p) app r route \<Longrightarrow> app \<noteq> [] \<Longrightarrow> claimed_in (pj_claims p) app r"
    unfolding claims using claim_routes_claimed[OF s, of app r] by (auto simp: page_of_def)
qed

text \<open>
  C38: on a page of an app, a resource that one of the app's own routes shows (an available page without
  parameters whose menu root is the app) opens at such a route of that app, never at another app's.
\<close>

theorem resourceRoutes_local:
  assumes "newAppRouteProjection u routes tree selection opts = Inr p"
    and "page_of routes tree (pj_unavailable p) app r route" "app \<noteq> []"
    and "resourceRoutes p (Some app) activeRoute = Inr result"
  shows "\<exists>rr home. map_of result r = Some rr \<and> rr_collection rr = ar_name home \<and> page_of routes tree (pj_unavailable p) app r home"
proof -
  note claims = projection_claims[OF assms(1)]
  let ?owned = "owned_claims p (Some app)"
  obtain rs where rs: "map_of (pj_claims p) app = Some rs" "r \<in> fst ` set rs"
    using claims(2)[OF assms(2,3)] by (auto simp: claimed_in_def)
  then have owned: "?owned = rs" by (simp add: owned_claims_def or_else_def)
  from assms(4) obtain own a b where own: "fold_res (own_claim p (route_named p activeRoute)) (pj_canonical p) rs = Inr own"
    and result: "result = keep_identity a b (foldl (add_destinations p rs) own (pj_recordDestinations p))"
    by (auto simp: resourceRoutes_def Let_def rbind_Inr_iff owned)
  have "opens_in routes tree (pj_unavailable p) app ({} \<union> fst ` set rs) own"
    using claims_okD[OF claims(1) rs(1)] by (intro own_claims_open[OF own]) (auto simp: opens_in_def[of _ _ _ _ "{}"])
  then have "opens_in routes tree (pj_unavailable p) app (fst ` set rs) result"
    unfolding result
    by (intro opens_in_same[OF opens_in_same[OF _ add_destinations_collection] keep_identity_collection]) simp_all
  then obtain rr home where "map_of result r = Some rr" "page_of routes tree (pj_unavailable p) app r home" "ar_name home = rr_collection rr"
    using rs(2) unfolding opens_in_def by blast
  then show ?thesis by (intro exI[of _ rr] exI[of _ home]) simp
qed

section \<open>Witnesses\<close>

lemma desk_unavailable:
  "unavailableRoutes desk_routes \<lparr>mt_roots = [], mt_order = []\<rparr> [\<lparr>rn_id = ''leads'', rn_route = Some ''desk.list''\<rparr>]
     = Inr [(''desk.list'', ''menu item \"leads\" was removed''), (''desk.record'', ''its parent route \"desk.list\" is unavailable'')]"
  by code_simp

lemma unavailableRoutes_least_witness:
  "gone desk_routes \<lparr>mt_roots = [], mt_order = []\<rparr> [\<lparr>rn_id = ''leads'', rn_route = Some ''desk.list''\<rparr>] ''desk.record''"
  using unavailableRoutes_least[OF desk_unavailable] by auto

definition desk_result :: "resource_routes table" where
  "desk_result = projr (resourceRoutes desk_projection (Some ''crm'') None)"

lemma desk_resolved: "resourceRoutes desk_projection (Some ''crm'') None = Inr desk_result"
proof -
  have "\<not> isl (resourceRoutes desk_projection (Some ''crm'') None)" by code_simp
  then show ?thesis by (simp add: desk_result_def)
qed

lemma desk_page: "page_of desk_routes desk_tree (pj_unavailable desk_projection) ''crm'' ''crm.Lead'' (hd desk_routes)"
  by code_simp

lemma resourceRoutes_local_witness:
  "\<exists>rr home. map_of desk_result ''crm.Lead'' = Some rr \<and> rr_collection rr = ar_name home \<and>
     page_of desk_routes desk_tree (pj_unavailable desk_projection) ''crm'' ''crm.Lead'' home"
  using resourceRoutes_local[OF desk_projected desk_page _ desk_resolved] by simp

end
