(* ===== verification/Spec2Isabelle.thy ===== *)
theory Spec2Isabelle
  imports FilterClaims QueryClaims Dashboard AcpClaims KeysetFeed RouteClaims MenuClaims LineClaims BoardClaims KeyedCollections ResourceFields ContainerClaims MenuTreeClaims NavigationClaims AppRouteClaims
begin

text \<open>
  Angee is a composable application framework: add-ons declare routes, menus, pages, filters and form
  parts, and the framework composes them into one application. This library models the core logic of
  its TypeScript packages under \<open>src/packages\<close> (\<open>metadata\<close>, \<open>refine\<close>, \<open>app\<close>, \<open>ui\<close>) and of the agent
  chat under \<open>src/src/angee/agents/web\<close>, and proves what makes it correct.

  The parts and how they meet.
  \<^item> \<open>metadata\<close> defines the filter language and the query language: what a toolbar, a stored view or a URL
    says (\<open>filter.ts\<close>), and how it compiles to conditions of the server and is evaluated on rows by the
    client (\<open>query.ts\<close>).
  \<^item> \<open>app\<close> composes add-ons. \<open>layers.ts\<close> orders them by their dependencies, which decides who may alter
    what; \<open>menus.ts\<close>, \<open>containers.ts\<close>, \<open>route-paths.ts\<close> and \<open>mounts.ts\<close> compile their declarations; and
    \<open>resource-projection.ts\<close> joins routes, menus and the ancestry of the layers.
  \<^item> \<open>ui\<close> shows the composition: \<open>chrome/menu-tree.ts\<close> builds and places the menu that \<open>menus.ts\<close> emits,
    \<open>runtime/containers.ts\<close> resolves the children of a container on a page, \<open>runtime/route-href.ts\<close> builds
    links; and it holds the logic of dashboards, boards, editable lines and keyed collections.
  \<^item> \<open>refine\<close> reads feeds page by page (\<open>dialect/keyset-feed.ts\<close>); the agent chat folds protocol events into
    a transcript (\<open>acp-log.ts\<close>).

  Shared theories.
  \<^item> Prelude: results (\<open>Inl\<close> a thrown error, \<open>Inr\<close> a value, \<open>rbind\<close> for sequence), \<open>Array.sort\<close> with the
    locale \<open>js_comparator\<close> of consistent comparators, property tables of plain objects in the order
    JavaScript lists them, strings.
  \<^item> Calendar, JsValues: days and weeks in UTC; JavaScript values, \<open>JSON.stringify\<close> and the record
    \<open>host\<close> of what the engine supplies, with the locale \<open>js_host\<close> of what the code relies on and its
    interpretation on a concrete host.
  \<^item> Positions: \<open>lib/position.ts\<close> and \<open>lib/dedupe.ts\<close>; every component that orders contributions uses it.

  Theories and sources.
  \<^item> Filters, FilterFacts, FilterProjection, FilterToggles, FilterClaims: \<open>metadata/src/filter.ts\<close>. A filter
    is a JavaScript value; \<open>parseFilter\<close> returns it canonical or an error. Facts give a filter its meaning
    on a row and show that parsing, conjunction, field removal and the AND-only projection keep it.
  \<^item> Queries, Temporal, Decimals, QueryFacts, RowQueries, RowMatching, QueryClaims: \<open>query.ts\<close> and
    \<open>query-schema.ts\<close>. Contracts as records, the check of a filter against a contract, compilation to
    conditions and back, dates, decimals as digit strings, sorting, grouping and evaluation on rows.
  \<^item> ResourceFields: \<open>naming.ts\<close>, \<open>canonical-model-label.ts\<close>, \<open>fields.ts\<close> and the type names of \<open>artifact.ts\<close>.
  \<^item> Layers: \<open>app/src/layers.ts\<close>, with the locale \<open>layer_order\<close> of an ancestry that is a strict order and its
    interpretation on the ancestry the code computes.
  \<^item> Routes, RouteClaims: \<open>route-paths.ts\<close>, \<open>mounts.ts\<close> and the page routes of \<open>define-base-addon.ts\<close>.
  \<^item> RouteHrefs: \<open>ui/src/runtime/route-href.ts\<close>, with the percent and form encodings written out.
  \<^item> Menus, MenuFacts, MenuClaims: \<open>app/src/menus.ts\<close>: declaration, alteration, the checks, and both
    projections of the nodes.
  \<^item> MenuTrees, MenuForest, MenuTreeClaims: \<open>ui/src/chrome/menu-tree.ts\<close> and \<open>lib/titleCase.ts\<close>. A node is a
    rose tree, and its parent is the node above it in a trail. Facts show that the tree holds every item
    once, below its parent, and what the projections keep.
  \<^item> RouteProjection, AppRouteClaims, NavigationClaims: \<open>app/src/resource-projection.ts\<close> over the theories of
    routes, menus and layers, with \<open>absentMenuNodes\<close> of \<open>presence.ts\<close> and \<open>recordDestination\<close> of \<open>runtime.ts\<close>.
  \<^item> Containers, ContainerFacts, ContainerCompile, ContainerClaims: \<open>ui/src/runtime/containers.ts\<close> and
    \<open>app/src/containers.ts\<close>. The children of a composition are cells that two indexes share, as the
    objects of the code are.
  \<^item> Dashboard: \<open>ui/src/dashboard/layout.ts\<close> and \<open>headless.ts\<close>: rectangles on a grid.
  \<^item> Boards, BoardClaims: \<open>board-ordering.ts\<close>; ranks are doubles, rounded to 53 bits half to even.
  \<^item> EditableLines, LineClaims, KeyedCollections: \<open>editable-lines.ts\<close> and \<open>keyed-collection.ts\<close>.
  \<^item> KeysetFeed: \<open>keyset-feed.ts\<close>.
  \<^item> AcpLog, AcpFacts, AcpClaims: \<open>acp-log.ts\<close> and its callers in
    \<open>useAcpRuntime.ts\<close>; a session is a step relation, with its invariant by rule induction.

  What the properties show: meaning is kept (filters, compiled conditions, decimal comparison, unedited
  lines), structures stay well formed (layouts, transcripts, menu trees, compiled pages, mounted names),
  the code agrees with a specification (ancestry as a closure, unavailable routes as a least set, the
  place of a page as a first maximum, the children a row shows), access is respected (alterations,
  presence, the pages of an app), errors arise exactly on the inputs that call for them, and loops end.

  Termination and bounds. Recursion on trees is structural. A walk along parents or dependencies carries
  the names it has seen and decreases the names left. The passes over unavailable routes end because
  each but the last adds a route. Positioning runs at most as many passes as there are siblings, because
  each places one. The refresh of a keyset page takes as fuel the number of cursors it knows and two
  more, enough for each cursor once, the first window and the end; that it returns is a property.

  Parameters. Code outside the repository is an argument: the \<open>host\<close> (collation, number and date texts,
  \<open>JSON.parse\<close>, regular expressions given by users), \<open>URL\<close> and \<open>URLSearchParams\<close> (\<open>url_reader\<close>), the
  generator of client keys, and the label resolver handed to the container compiler. Components, icons
  and translated texts of React are values of a type parameter or opaque JavaScript values.

  Limits of the model. Strings are code units below 256. A property named \<open>__proto__\<close>, cyclic objects
  and a mutation of an argument by the caller do not occur. Where a loop of the code would not end (a
  cycle of route parents, which the resolution of paths refuses before), the model returns an error.

  Not modelled. The views and hooks of React (forms, grids, the gantt chart, widgets, the chrome's
  components) bind these functions to a page: their behaviour is that of React and of libraries not in
  the repository. So are the providers, caches and transports of \<open>refine\<close>, the assembly of routers and
  providers in \<open>create-app.tsx\<close>, and the streams of the agent connection. Parsing of artifacts and
  snapshots is done by a validation library. Themes, the catalogue, storybook and tests carry data; the
  code generator of \<open>web-codegen.mjs\<close> runs at build time on files; the Python add-ons are another
  program, which these packages reach over GraphQL.
\<close>

end
